(* ===== verification/Prelude.thy ===== *)
theory Prelude
  imports Main "HOL-Library.Word" "HOL-Library.Monad_Syntax" "HOL-Library.AList" "HOL-Library.Multiset"
begin

text \<open>
  Shared material of the development: the names of the Go types, the parts of the
  Go language and standard library the sources use (maps, slices, \<open>sort.Search\<close>),
  and the generic lemmas on lists, options, association lists and words that the
  component theories build on.

  Conventions.
  \<^item> A Go run-time panic is the value \<open>None\<close> of an \<open>option\<close> result; an error value that
    the source returns is an ordinary value of the result (a sum type, or an
    \<open>option\<close> inside a tuple).
  \<^item> A Go map that the source ranges over is an association list with distinct keys. The
    order of the list is the order of the iteration; every theorem is about an arbitrary
    list, so it holds for each order Go may choose. A Go map that is only looked up is
    a function into \<open>option\<close>.
  \<^item> \<open>uint64\<close>, \<open>uint32\<close> and \<open>byte\<close> are words and wrap around as in Go;
    \<open>*big.Int\<close> is \<open>int\<close>.
\<close>

section \<open>Names of the Go types\<close>

type_synonym uint64 = "64 word"
type_synonym uint32 = "32 word"
type_synonym byte = "8 word"
type_synonym hash = "256 word"
type_synonym address = "160 word"
type_synonym bigint = int
type_synonym go_time = int

named_theorems wf_intros \<open>introduction rules of the components' well-formedness invariants\<close>
named_theorems wf_dests \<open>consequences of the components' well-formedness invariants\<close>
named_theorems state_simps \<open>what the operations of a component leave unchanged\<close>

section \<open>Go maps as association lists\<close>

type_synonym ('k, 'v) gomap = "('k \<times> 'v) list"

definition gomap_wf :: "('k, 'v) gomap \<Rightarrow> bool" where
  "gomap_wf m \<longleftrightarrow> distinct (map fst m)"

lemma gomap_wf_Nil [simp, wf_intros]: "gomap_wf []"
  by (simp add: gomap_wf_def)

lemma gomap_wf_update [simp, wf_intros]: "gomap_wf m \<Longrightarrow> gomap_wf (AList.update k v m)"
  by (simp add: gomap_wf_def distinct_update)

lemma gomap_wf_delete [simp, wf_intros]: "gomap_wf m \<Longrightarrow> gomap_wf (AList.delete k m)"
  by (simp add: gomap_wf_def distinct_delete)

lemma gomap_wf_filter [simp, wf_intros]: "gomap_wf m \<Longrightarrow> gomap_wf (filter P m)"
  unfolding gomap_wf_def by (induction m) auto

lemma gomap_lookup_iff: "gomap_wf m \<Longrightarrow> map_of m k = Some v \<longleftrightarrow> (k, v) \<in> set m"
  by (simp add: gomap_wf_def)

lemma gomap_lookup_update [simp]: "map_of (AList.update k v m) = (map_of m)(k \<mapsto> v)"
  by (rule update_conv')

lemma gomap_lookup_delete [simp]: "map_of (AList.delete k m) = (map_of m)(k := None)"
  by (rule delete_conv')

lemma gomap_lookup_filter:
  "gomap_wf m \<Longrightarrow>
   map_of (filter P m) k = (case map_of m k of None \<Rightarrow> None | Some v \<Rightarrow> if P (k, v) then Some v else None)"
  by (induction m) (auto simp: gomap_wf_def map_of_eq_None_iff split: option.splits)

lemma gomap_delete_lookup_None: "map_of m k = None \<Longrightarrow> AList.delete k m = m"
  by (induction m) (auto split: if_splits)

section \<open>Lists\<close>

definition remove_nth :: "nat \<Rightarrow> 'a list \<Rightarrow> 'a list" where
  "remove_nth i xs = take i xs @ drop (Suc i) xs"

definition insert_nth :: "nat \<Rightarrow> 'a \<Rightarrow> 'a list \<Rightarrow> 'a list" where
  "insert_nth i x xs = take i xs @ x # drop i xs"

lemma length_remove_nth [simp]: "i < length xs \<Longrightarrow> length (remove_nth i xs) = length xs - 1"
  by (simp add: remove_nth_def)

lemma length_insert_nth [simp]: "i \<le> length xs \<Longrightarrow> length (insert_nth i x xs) = Suc (length xs)"
  by (simp add: insert_nth_def)

lemma set_insert_nth [simp]: "set (insert_nth i x xs) = insert x (set xs)"
proof -
  have "set (take i xs) \<union> set (drop i xs) = set xs"
    by (metis append_take_drop_id set_append)
  then show ?thesis by (auto simp: insert_nth_def)
qed

lemma map_remove_nth: "map f (remove_nth i xs) = remove_nth i (map f xs)"
  by (simp add: remove_nth_def take_map drop_map)

lemma map_insert_nth: "map f (insert_nth i x xs) = insert_nth i (f x) (map f xs)"
  by (simp add: insert_nth_def take_map drop_map)

lemma mset_split_nth: "i < length xs \<Longrightarrow> xs = take i xs @ xs ! i # drop (Suc i) xs"
  by (simp add: id_take_nth_drop)

lemma set_remove_nth_distinct:
  assumes "distinct xs" and "i < length xs"
  shows "set (remove_nth i xs) = set xs - {xs ! i}"
proof -
  have xs: "xs = take i xs @ xs ! i # drop (Suc i) xs"
    using assms(2) by (rule mset_split_nth)
  then have "distinct (take i xs @ xs ! i # drop (Suc i) xs)"
    using assms(1) by simp
  then have "set (take i xs @ drop (Suc i) xs) = set (take i xs @ xs ! i # drop (Suc i) xs) - {xs ! i}"
    by auto
  then show ?thesis using xs by (simp add: remove_nth_def)
qed

lemma distinct_remove_nth [simp]:
  assumes "distinct xs" shows "distinct (remove_nth i xs)"
proof (cases "i < length xs")
  case True
  then have "distinct (take i xs @ xs ! i # drop (Suc i) xs)"
    using assms mset_split_nth by metis
  then show ?thesis by (simp add: remove_nth_def)
next
  case False
  then show ?thesis using assms by (simp add: remove_nth_def)
qed

lemma distinct_insert_nth: "distinct xs \<Longrightarrow> x \<notin> set xs \<Longrightarrow> distinct (insert_nth i x xs)"
proof -
  assume d: "distinct xs" and x: "x \<notin> set xs"
  have "distinct (take i xs @ drop i xs)" using d by simp
  moreover have "x \<notin> set (take i xs)" "x \<notin> set (drop i xs)"
    using x by (meson in_set_takeD in_set_dropD)+
  ultimately show ?thesis using d
    by (auto simp: insert_nth_def dest: set_take_disj_set_drop_if_distinct[OF d order_refl, THEN equalityD1, THEN subsetD, OF IntI])
qed

lemma sorted_wrt_remove_nth:
  assumes "sorted_wrt R xs" shows "sorted_wrt R (remove_nth i xs)"
proof (cases "i < length xs")
  case True
  then have "sorted_wrt R (take i xs @ xs ! i # drop (Suc i) xs)"
    using assms mset_split_nth by metis
  then show ?thesis by (simp add: remove_nth_def sorted_wrt_append)
next
  case False
  then show ?thesis using assms by (simp add: remove_nth_def)
qed

text \<open>Removing the element at the position where it was inserted gives the list back.\<close>

lemma remove_nth_insert_nth [simp]:
  "i \<le> length xs \<Longrightarrow> remove_nth i (insert_nth i x xs) = xs"
  by (simp add: remove_nth_def insert_nth_def min_absorb2)

lemma find_SomeD: "List.find P xs = Some x \<Longrightarrow> x \<in> set xs \<and> P x"
  by (induction xs) (auto split: if_splits)

lemma image_neq: "y \<notin> f ` A \<Longrightarrow> t \<in> A \<Longrightarrow> f t \<noteq> y"
  by blast

text \<open>A list that is split by a predicate at position \<open>r\<close>.\<close>

lemma split_at_filter:
  assumes "r \<le> length xs" and "\<And>k. k < r \<Longrightarrow> \<not> P (xs ! k)"
    and "\<And>k. r \<le> k \<Longrightarrow> k < length xs \<Longrightarrow> P (xs ! k)"
  shows "take r xs = filter (\<lambda>x. \<not> P x) xs" and "drop r xs = filter P xs"
proof -
  have t: "\<forall>x\<in>set (take r xs). \<not> P x"
    using assms(1,2) by (auto simp: in_set_conv_nth)
  have d: "\<forall>x\<in>set (drop r xs). P x"
    using assms(1,3) by (auto simp: in_set_conv_nth)
  have "filter (\<lambda>x. \<not> P x) (take r xs @ drop r xs) = take r xs"
    using t d by (auto simp only: filter_append) (simp add: filter_id_conv)
  then show "take r xs = filter (\<lambda>x. \<not> P x) xs" by simp
  have "filter P (take r xs @ drop r xs) = drop r xs"
    using t d by (auto simp only: filter_append) (simp add: filter_id_conv)
  then show "drop r xs = filter P xs" by simp
qed

section \<open>\<open>sort.Search\<close>\<close>

text \<open>
  Go's \<open>sort.Search(n, f)\<close>: binary search with the invariant that \<open>f\<close> is false left of
  \<open>i\<close> and true from \<open>j\<close> on. The predicate may panic (\<open>None\<close>).
\<close>

function search_loop :: "(nat \<Rightarrow> bool option) \<Rightarrow> nat \<Rightarrow> nat \<Rightarrow> nat option" where
  "search_loop f i j =
     (if i < j then
        (let h = (i + j) div 2 in
         case f h of
           None \<Rightarrow> None
         | Some b \<Rightarrow> if \<not> b then search_loop f (Suc h) j else search_loop f i h)
      else Some i)"
  by pat_completeness auto
termination
  by (relation "measure (\<lambda>(f, i, j). j - i)") auto

declare search_loop.simps [simp del]

definition sort_Search :: "nat \<Rightarrow> (nat \<Rightarrow> bool option) \<Rightarrow> nat option" where
  "sort_Search n f = search_loop f 0 n"

lemma search_loop_least:
  assumes "\<And>k. k < n \<Longrightarrow> f k = Some (p k)"
    and "\<And>a b. a \<le> b \<Longrightarrow> b < n \<Longrightarrow> p a \<Longrightarrow> p b"
    and "i \<le> j" and "j \<le> n"
    and "\<And>k. k < i \<Longrightarrow> \<not> p k"
    and "\<And>k. j \<le> k \<Longrightarrow> k < n \<Longrightarrow> p k"
  shows "\<exists>r. search_loop f i j = Some r \<and> r \<le> n \<and> (\<forall>k<r. \<not> p k) \<and> (\<forall>k. r \<le> k \<and> k < n \<longrightarrow> p k)"
  using assms
proof (induction f i j rule: search_loop.induct)
  case (1 f i j)
  show ?case
  proof (cases "i < j")
    case False
    then have "search_loop f i j = Some i" by (simp add: search_loop.simps)
    moreover have "i = j" using False "1.prems"(3) by simp
    ultimately show ?thesis using "1.prems" by auto
  next
    case True
    define h where "h = (i + j) div 2"
    have h: "i \<le> h" "h < j" using True by (auto simp: h_def)
    then have fh: "f h = Some (p h)" using "1.prems"(1,4) by simp
    show ?thesis
    proof (cases "p h")
      case True
      have "\<exists>r. search_loop f i h = Some r \<and> r \<le> n \<and> (\<forall>k<r. \<not> p k) \<and> (\<forall>k. r \<le> k \<and> k < n \<longrightarrow> p k)"
      proof (rule "1.IH"(2)[OF \<open>i < j\<close> h_def fh])
        show "\<not> \<not> p h" using True by simp
      qed (use "1.prems" h True in auto)
      then show ?thesis using \<open>i < j\<close> fh True
        by (simp add: search_loop.simps[of f i j] Let_def h_def)
    next
      case False
      have "\<exists>r. search_loop f (Suc h) j = Some r \<and> r \<le> n \<and> (\<forall>k<r. \<not> p k) \<and> (\<forall>k. r \<le> k \<and> k < n \<longrightarrow> p k)"
      proof (rule "1.IH"(1)[OF \<open>i < j\<close> h_def fh False])
        fix k assume "k < Suc h"
        then show "\<not> p k" using False "1.prems"(2)[of k h] h "1.prems"(4) by auto
      qed (use "1.prems" h in auto)
      then show ?thesis using \<open>i < j\<close> fh False
        by (simp add: search_loop.simps[of f i j] Let_def h_def)
    qed
  qed
qed

text \<open>On a monotone predicate that does not panic, \<open>sort.Search\<close> returns its first index.\<close>

lemma sort_Search_least:
  assumes "\<And>k. k < n \<Longrightarrow> f k = Some (p k)"
    and "\<And>a b. a \<le> b \<Longrightarrow> b < n \<Longrightarrow> p a \<Longrightarrow> p b"
  obtains r where "sort_Search n f = Some r" "r \<le> n"
    "\<And>k. k < r \<Longrightarrow> \<not> p k" "\<And>k. r \<le> k \<Longrightarrow> k < n \<Longrightarrow> p k"
proof -
  have "\<exists>r. search_loop f 0 n = Some r \<and> r \<le> n \<and> (\<forall>k<r. \<not> p k) \<and> (\<forall>k. r \<le> k \<and> k < n \<longrightarrow> p k)"
    by (rule search_loop_least[of n f p]) (use assms in auto)
  then show ?thesis using that unfolding sort_Search_def by blast
qed

section \<open>Chains of guards and options\<close>

text \<open>A chain of early returns that all return \<open>x\<close>: only the last branch is left to show.\<close>

lemma if_chainI: "(\<not> c \<Longrightarrow> y = x) \<Longrightarrow> (if c then x else y) = x"
  by simp

lemma bind_Some_iff [simp]: "(m \<bind> f = Some y) \<longleftrightarrow> (\<exists>x. m = Some x \<and> f x = Some y)"
  by (cases m) auto

section \<open>Big integers\<close>

definition big_Cmp :: "bigint \<Rightarrow> bigint \<Rightarrow> int" where
  "big_Cmp a b = (if a < b then -1 else if a = b then 0 else 1)"

lemma big_Cmp_simps [simp]:
  "big_Cmp a b = 1 \<longleftrightarrow> b < a" "big_Cmp a b = 0 \<longleftrightarrow> a = b" "big_Cmp a b = -1 \<longleftrightarrow> a < b"
  "0 \<le> big_Cmp a b \<longleftrightarrow> b \<le> a" "big_Cmp a b < 0 \<longleftrightarrow> a < b"
  "0 < big_Cmp a b \<longleftrightarrow> b < a" "big_Cmp a b \<le> 0 \<longleftrightarrow> a \<le> b"
  by (auto simp: big_Cmp_def)

section \<open>Words\<close>

lemma word_sub_add_cancel [simp]: "(a :: 'a::len word) - b + b = a"
  by simp

lemma unat_sub_le: "(b :: 'a::len word) \<le> a \<Longrightarrow> unat (a - b) = unat a - unat b"
  by (simp add: unat_sub)

lemma unat_add_no_wrap:
  "unat a + unat b < 2 ^ LENGTH('a) \<Longrightarrow> unat ((a :: 'a::len word) + b) = unat a + unat b"
  by (simp add: unat_word_ariths)

end
