(* ===== verification/Counters.thy ===== *)
theory Counters
  imports Prelude
begin

text \<open>
  The resources of a batch: \<open>ZKCounters\<close> and \<open>BatchResources\<close> of
  \<open>state/types.go\<close>, the node-level limits \<open>BatchConstraintsCfg\<close> of
  \<open>state/config.go\<close>, and the reservation rule \<open>getNeededZKCounters\<close> of
  \<open>sequencer/batch.go\<close>. The interface that the sequencer relies on (a stock of
  resources from which amounts are taken and given back) is the locale
  \<open>resource_stock\<close>; both types interpret it.
\<close>

section \<open>Data\<close>

record ZKCounters =
  GasUsed :: uint64
  KeccakHashes :: uint32
  PoseidonHashes :: uint32
  PoseidonPaddings :: uint32
  MemAligns :: uint32
  Arithmetics :: uint32
  Binaries :: uint32
  Steps :: uint32
  Sha256Hashes_V2 :: uint32

record BatchResources =
  br_ZKCounters :: ZKCounters
  br_Bytes :: uint64

record BatchConstraintsCfg =
  MaxTxsPerBatch :: uint64
  MaxBatchBytesSize :: uint64
  MaxCumulativeGasUsed :: uint64
  MaxKeccakHashes :: uint32
  MaxPoseidonHashes :: uint32
  MaxPoseidonPaddings :: uint32
  MaxMemAligns :: uint32
  MaxArithmetics :: uint32
  MaxBinaries :: uint32
  MaxSteps :: uint32
  MaxSHA256Hashes :: uint32

section \<open>Operations on \<open>ZKCounters\<close>\<close>

definition zk_SumUp :: "ZKCounters \<Rightarrow> ZKCounters \<Rightarrow> ZKCounters" where
  "zk_SumUp z other = z\<lparr>
     GasUsed := GasUsed z + GasUsed other,
     KeccakHashes := KeccakHashes z + KeccakHashes other,
     PoseidonHashes := PoseidonHashes z + PoseidonHashes other,
     PoseidonPaddings := PoseidonPaddings z + PoseidonPaddings other,
     MemAligns := MemAligns z + MemAligns other,
     Arithmetics := Arithmetics z + Arithmetics other,
     Binaries := Binaries z + Binaries other,
     Steps := Steps z + Steps other,
     Sha256Hashes_V2 := Sha256Hashes_V2 z + Sha256Hashes_V2 other\<rparr>"

definition zk_Fits :: "ZKCounters \<Rightarrow> ZKCounters \<Rightarrow> bool \<times> string" where
  "zk_Fits z other =
     (if GasUsed other > GasUsed z then (False, ''CumulativeGas'')
      else if KeccakHashes other > KeccakHashes z then (False, ''KeccakHashes'')
      else if PoseidonHashes other > PoseidonHashes z then (False, ''PoseidonHashes'')
      else if PoseidonPaddings other > PoseidonPaddings z then (False, ''PoseidonPaddings'')
      else if MemAligns other > MemAligns z then (False, ''UsedMemAligns'')
      else if Arithmetics other > Arithmetics z then (False, ''UsedArithmetics'')
      else if Binaries other > Binaries z then (False, ''UsedBinaries'')
      else if Steps other > Steps z then (False, ''UsedSteps'')
      else if Sha256Hashes_V2 other > Sha256Hashes_V2 z then (False, ''UsedSha256Hashes_V2'')
      else (True, []))"

text \<open>
  \<open>Sub\<close> returns the receiver after the call with the pair the method returns
  (underflow flag and the name of the counter).
\<close>

definition zk_Sub :: "ZKCounters \<Rightarrow> ZKCounters \<Rightarrow> ZKCounters \<times> bool \<times> string" where
  "zk_Sub z other =
     (if GasUsed other > GasUsed z then (z, True, ''CumulativeGas'')
      else if KeccakHashes other > KeccakHashes z then (z, True, ''KeccakHashes'')
      else if PoseidonHashes other > PoseidonHashes z then (z, True, ''PoseidonHashes'')
      else if PoseidonPaddings other > PoseidonPaddings z then (z, True, ''PoseidonPaddings'')
      else if MemAligns other > MemAligns z then (z, True, ''UsedMemAligns'')
      else if Arithmetics other > Arithmetics z then (z, True, ''UsedArithmetics'')
      else if Binaries other > Binaries z then (z, True, ''UsedBinaries'')
      else if Steps other > Steps z then (z, True, ''UsedSteps'')
      else if Sha256Hashes_V2 other > Sha256Hashes_V2 z then (z, True, ''UsedSha256Hashes_V2'')
      else (z\<lparr>
        GasUsed := GasUsed z - GasUsed other,
        KeccakHashes := KeccakHashes z - KeccakHashes other,
        PoseidonHashes := PoseidonHashes z - PoseidonHashes other,
        PoseidonPaddings := PoseidonPaddings z - PoseidonPaddings other,
        MemAligns := MemAligns z - MemAligns other,
        Arithmetics := Arithmetics z - Arithmetics other,
        Binaries := Binaries z - Binaries other,
        Steps := Steps z - Steps other,
        Sha256Hashes_V2 := Sha256Hashes_V2 z - Sha256Hashes_V2 other\<rparr>, False, []))"

section \<open>Operations on \<open>BatchResources\<close>\<close>

definition br_Fits :: "BatchResources \<Rightarrow> BatchResources \<Rightarrow> bool \<times> string" where
  "br_Fits r other =
     (if br_Bytes other > br_Bytes r then (False, ''Bytes'')
      else zk_Fits (br_ZKCounters r) (br_ZKCounters other))"

definition br_Sub :: "BatchResources \<Rightarrow> BatchResources \<Rightarrow> BatchResources \<times> bool \<times> string" where
  "br_Sub r other =
     (if br_Bytes other > br_Bytes r then (r, True, ''Bytes'')
      else
        let bytesBackup = br_Bytes r;
            r1 = r\<lparr>br_Bytes := br_Bytes r - br_Bytes other\<rparr>;
            (zk, exhausted, resourceName) = zk_Sub (br_ZKCounters r1) (br_ZKCounters other);
            r2 = r1\<lparr>br_ZKCounters := zk\<rparr>
        in if exhausted then (r2\<lparr>br_Bytes := bytesBackup\<rparr>, exhausted, resourceName)
           else (r2, False, []))"

definition br_SumUp :: "BatchResources \<Rightarrow> BatchResources \<Rightarrow> BatchResources" where
  "br_SumUp r other = r\<lparr>br_Bytes := br_Bytes r + br_Bytes other,
     br_ZKCounters := zk_SumUp (br_ZKCounters r) (br_ZKCounters other)\<rparr>"

section \<open>Node-level limits\<close>

text \<open>
  \<open>CheckNodeLevelOOC\<close> collects the names of the exceeded counters, each followed by a comma
  and a blank, and cuts the last two characters. \<open>None\<close> is the nil error.
\<close>

definition CheckNodeLevelOOC :: "BatchConstraintsCfg \<Rightarrow> ZKCounters \<Rightarrow> string option" where
  "CheckNodeLevelOOC c counters =
     (let oocList =
        (if GasUsed counters > MaxCumulativeGasUsed c then ''GasUsed, '' else []) @
        (if KeccakHashes counters > MaxKeccakHashes c then ''KeccakHashes, '' else []) @
        (if PoseidonHashes counters > MaxPoseidonHashes c then ''PoseidonHashes, '' else []) @
        (if PoseidonPaddings counters > MaxPoseidonPaddings c then ''PoseidonPaddings, '' else []) @
        (if MemAligns counters > MaxMemAligns c then ''MemAligns, '' else []) @
        (if Arithmetics counters > MaxArithmetics c then ''Arithmetics, '' else []) @
        (if Binaries counters > MaxBinaries c then ''Binaries, '' else []) @
        (if Steps counters > MaxSteps c then ''Steps, '' else []) @
        (if Sha256Hashes_V2 counters > MaxSHA256Hashes c then ''Sha256Hashes, '' else [])
      in if oocList \<noteq> [] then
           (let oocList = take (length oocList - 2) oocList
            in Some (''out of counters at node level ('' @ oocList @ '')''))
         else None)"

section \<open>Reserved counters\<close>

text \<open>
  \<open>getNeededZKCounters\<close>: the counters a transaction needs on top of the ones already used,
  when the batch must keep room for the largest difference seen between the reserved and the
  used counters of a transaction. The second component is the new largest difference.
\<close>

definition neededCounter :: "uint32 \<Rightarrow> uint32 \<Rightarrow> uint32 \<Rightarrow> uint32 \<times> uint32" where
  "neededCounter highCounter usedCounter reservedCounter =
     (if reservedCounter < usedCounter then (usedCounter + highCounter, highCounter)
      else
        let diffReserved = reservedCounter - usedCounter
        in if diffReserved > highCounter then (usedCounter + diffReserved, diffReserved)
           else (usedCounter + highCounter, highCounter))"

definition neededGas :: "uint64 \<Rightarrow> uint64 \<Rightarrow> uint64 \<Rightarrow> uint64 \<times> uint64" where
  "neededGas highGas usedGas reservedGas =
     (if reservedGas < usedGas then (usedGas + highGas, 0)
      else
        let diffReserved = reservedGas - usedGas
        in if diffReserved > highGas then (usedGas + diffReserved, diffReserved)
           else (usedGas + highGas, highGas))"

definition getNeededZKCounters ::
    "ZKCounters \<Rightarrow> ZKCounters \<Rightarrow> ZKCounters \<Rightarrow> ZKCounters \<times> ZKCounters" where
  "getNeededZKCounters high used reserved =
     (let (nAr, hAr) = neededCounter (Arithmetics high) (Arithmetics used) (Arithmetics reserved);
          (nBi, hBi) = neededCounter (Binaries high) (Binaries used) (Binaries reserved);
          (nKe, hKe) = neededCounter (KeccakHashes high) (KeccakHashes used) (KeccakHashes reserved);
          (nMe, hMe) = neededCounter (MemAligns high) (MemAligns used) (MemAligns reserved);
          (nPo, hPo) = neededCounter (PoseidonHashes high) (PoseidonHashes used) (PoseidonHashes reserved);
          (nPa, hPa) = neededCounter (PoseidonPaddings high) (PoseidonPaddings used) (PoseidonPaddings reserved);
          (nSh, hSh) = neededCounter (Sha256Hashes_V2 high) (Sha256Hashes_V2 used) (Sha256Hashes_V2 reserved);
          (nSt, hSt) = neededCounter (Steps high) (Steps used) (Steps reserved);
          (nGa, hGa) = neededGas (GasUsed high) (GasUsed used) (GasUsed reserved)
      in (\<lparr>GasUsed = nGa, KeccakHashes = nKe, PoseidonHashes = nPo, PoseidonPaddings = nPa,
           MemAligns = nMe, Arithmetics = nAr, Binaries = nBi, Steps = nSt, Sha256Hashes_V2 = nSh\<rparr>,
          \<lparr>GasUsed = hGa, KeccakHashes = hKe, PoseidonHashes = hPo, PoseidonPaddings = hPa,
           MemAligns = hMe, Arithmetics = hAr, Binaries = hBi, Steps = hSt, Sha256Hashes_V2 = hSh\<rparr>))"

section \<open>Componentwise order\<close>

text \<open>The specification of \<open>Fits\<close>: every counter of the first is at most that of the second.\<close>

definition zk_le :: "ZKCounters \<Rightarrow> ZKCounters \<Rightarrow> bool" where
  "zk_le a b \<longleftrightarrow>
     GasUsed a \<le> GasUsed b \<and> KeccakHashes a \<le> KeccakHashes b \<and>
     PoseidonHashes a \<le> PoseidonHashes b \<and> PoseidonPaddings a \<le> PoseidonPaddings b \<and>
     MemAligns a \<le> MemAligns b \<and> Arithmetics a \<le> Arithmetics b \<and>
     Binaries a \<le> Binaries b \<and> Steps a \<le> Steps b \<and> Sha256Hashes_V2 a \<le> Sha256Hashes_V2 b"

definition br_le :: "BatchResources \<Rightarrow> BatchResources \<Rightarrow> bool" where
  "br_le a b \<longleftrightarrow> br_Bytes a \<le> br_Bytes b \<and> zk_le (br_ZKCounters a) (br_ZKCounters b)"

lemma zk_le_refl [simp]: "zk_le a a"
  by (simp add: zk_le_def)

lemma zk_le_trans: "zk_le a b \<Longrightarrow> zk_le b c \<Longrightarrow> zk_le a c"
  by (auto simp: zk_le_def intro: order_trans)

lemma br_le_trans: "br_le a b \<Longrightarrow> br_le b c \<Longrightarrow> br_le a c"
  by (auto simp: br_le_def intro: order_trans zk_le_trans)

text \<open>The checks of \<open>Fits\<close> and \<open>Sub\<close>, one after the other, decide the componentwise order.\<close>

lemma zk_le_not_less:
  "zk_le a b \<longleftrightarrow> \<not> (GasUsed b < GasUsed a \<or> KeccakHashes b < KeccakHashes a \<or>
     PoseidonHashes b < PoseidonHashes a \<or> PoseidonPaddings b < PoseidonPaddings a \<or>
     MemAligns b < MemAligns a \<or> Arithmetics b < Arithmetics a \<or> Binaries b < Binaries a \<or>
     Steps b < Steps a \<or> Sha256Hashes_V2 b < Sha256Hashes_V2 a)"
  by (simp add: zk_le_def not_less)

lemma zk_Fits_iff: "fst (zk_Fits z other) \<longleftrightarrow> zk_le other z"
  unfolding zk_Fits_def zk_le_not_less by (simp add: if_distrib [of fst])

lemma br_Fits_iff: "fst (br_Fits r other) \<longleftrightarrow> br_le other r"
  by (auto simp: br_Fits_def br_le_def zk_Fits_iff not_less)

lemma zk_Sub_flag: "fst (snd (zk_Sub z other)) \<longleftrightarrow> \<not> zk_le other z"
  unfolding zk_Sub_def zk_le_not_less
  by (simp add: if_distrib [of fst] if_distrib [of snd])

lemma zk_Sub_ok:
  "zk_le other z \<Longrightarrow> zk_Sub z other = (z\<lparr>
        GasUsed := GasUsed z - GasUsed other,
        KeccakHashes := KeccakHashes z - KeccakHashes other,
        PoseidonHashes := PoseidonHashes z - PoseidonHashes other,
        PoseidonPaddings := PoseidonPaddings z - PoseidonPaddings other,
        MemAligns := MemAligns z - MemAligns other,
        Arithmetics := Arithmetics z - Arithmetics other,
        Binaries := Binaries z - Binaries other,
        Steps := Steps z - Steps other,
        Sha256Hashes_V2 := Sha256Hashes_V2 z - Sha256Hashes_V2 other\<rparr>, False, [])"
  unfolding zk_le_not_less zk_Sub_def by simp

lemma zk_Sub_fields:
  assumes "zk_le other z"
  shows "GasUsed (fst (zk_Sub z other)) = GasUsed z - GasUsed other"
    and "KeccakHashes (fst (zk_Sub z other)) = KeccakHashes z - KeccakHashes other"
    and "PoseidonHashes (fst (zk_Sub z other)) = PoseidonHashes z - PoseidonHashes other"
    and "PoseidonPaddings (fst (zk_Sub z other)) = PoseidonPaddings z - PoseidonPaddings other"
    and "MemAligns (fst (zk_Sub z other)) = MemAligns z - MemAligns other"
    and "Arithmetics (fst (zk_Sub z other)) = Arithmetics z - Arithmetics other"
    and "Binaries (fst (zk_Sub z other)) = Binaries z - Binaries other"
    and "Steps (fst (zk_Sub z other)) = Steps z - Steps other"
    and "Sha256Hashes_V2 (fst (zk_Sub z other)) = Sha256Hashes_V2 z - Sha256Hashes_V2 other"
  by (simp_all add: zk_Sub_ok [OF assms])

lemma zk_Sub_fail: "\<not> zk_le other z \<Longrightarrow> fst (zk_Sub z other) = z"
  unfolding zk_le_not_less zk_Sub_def if_distrib [of fst] fst_conv
  by (intro if_chainI) blast

lemma zk_SumUp_Sub: "zk_le other z \<Longrightarrow> zk_SumUp (fst (zk_Sub z other)) other = z"
  by (simp add: zk_Sub_ok zk_SumUp_def)

lemma zk_Sub_le: "zk_le other z \<Longrightarrow> zk_le (fst (zk_Sub z other)) z"
  by (simp add: zk_Sub_ok) (simp add: zk_le_def word_sub_le)

lemma zk_Sub_name: "snd (snd (zk_Sub z other)) = snd (zk_Fits z other)"
  unfolding zk_Sub_def zk_Fits_def by (simp only: if_distrib [of snd] snd_conv)

lemma br_Sub_flag: "fst (snd (br_Sub r other)) \<longleftrightarrow> \<not> br_le other r"
  using zk_Sub_flag [of "br_ZKCounters r" "br_ZKCounters other"]
  by (auto simp: br_Sub_def br_le_def Let_def not_less split: prod.splits)

lemma br_Sub_fail: "\<not> br_le other r \<Longrightarrow> fst (br_Sub r other) = r"
  using zk_Sub_flag [of "br_ZKCounters r" "br_ZKCounters other"]
    zk_Sub_fail [of "br_ZKCounters other" "br_ZKCounters r"]
  by (auto simp: br_Sub_def br_le_def Let_def not_less split: prod.splits)

lemma br_Sub_ok:
  "br_le other r \<Longrightarrow> br_Sub r other =
     (r\<lparr>br_Bytes := br_Bytes r - br_Bytes other,
        br_ZKCounters := fst (zk_Sub (br_ZKCounters r) (br_ZKCounters other))\<rparr>, False, [])"
  using zk_Sub_flag [of "br_ZKCounters r" "br_ZKCounters other"]
  by (auto simp: br_Sub_def br_le_def Let_def not_less split: prod.splits)

lemma br_SumUp_Sub: "br_le other r \<Longrightarrow> br_SumUp (fst (br_Sub r other)) other = r"
  by (simp add: br_Sub_ok br_SumUp_def zk_SumUp_Sub br_le_def)

lemma br_Sub_le: "br_le other r \<Longrightarrow> br_le (fst (br_Sub r other)) r"
  by (simp add: br_Sub_ok) (simp add: br_le_def zk_Sub_le word_sub_le)

section \<open>The interface: a stock of resources\<close>

text \<open>
  What the finalizer relies on: \<open>Sub\<close> succeeds exactly when the amount fits, changes
  nothing when it fails, and is undone by \<open>SumUp\<close>.
\<close>

locale resource_stock =
  fixes le :: "'r \<Rightarrow> 'r \<Rightarrow> bool"
    and fits :: "'r \<Rightarrow> 'r \<Rightarrow> bool \<times> string"
    and sub :: "'r \<Rightarrow> 'r \<Rightarrow> 'r \<times> bool \<times> string"
    and sum_up :: "'r \<Rightarrow> 'r \<Rightarrow> 'r"
  assumes fits_iff: "fst (fits r x) \<longleftrightarrow> le x r"
    and sub_flag: "fst (snd (sub r x)) \<longleftrightarrow> \<not> le x r"
    and sub_fail: "\<not> le x r \<Longrightarrow> fst (sub r x) = r"
    and sum_sub: "le x r \<Longrightarrow> sum_up (fst (sub r x)) x = r"
    and sub_le: "le x r \<Longrightarrow> le (fst (sub r x)) r"
    and sum_commute: "sum_up (sum_up r x) y = sum_up (sum_up r y) x"
    and le_refl: "le r r"
    and le_trans: "le a b \<Longrightarrow> le b c \<Longrightarrow> le a c"
begin

text \<open>Taking amounts one after the other, stopping at the first that does not fit.\<close>

primrec take_all :: "'r \<Rightarrow> 'r list \<Rightarrow> 'r option" where
  "take_all r [] = Some r"
| "take_all r (x # xs) = (if fst (snd (sub r x)) then None else take_all (fst (sub r x)) xs)"

lemma take_all_le: "take_all r xs = Some r' \<Longrightarrow> le r' r"
proof (induction xs arbitrary: r)
  case Nil
  then show ?case by (simp add: le_refl)
next
  case (Cons x xs)
  then have x: "le x r" and "take_all (fst (sub r x)) xs = Some r'"
    by (auto simp: sub_flag split: if_splits)
  then have "le r' (fst (sub r x))" using Cons.IH by blast
  then show ?case using sub_le [OF x] le_trans by blast
qed

lemma foldl_sum_up: "foldl sum_up (sum_up r x) xs = sum_up (foldl sum_up r xs) x"
  by (induction xs arbitrary: r) (simp_all add: sum_commute)

text \<open>Whatever was taken can be given back, in the order it was taken.\<close>

lemma give_back: "take_all r xs = Some r' \<Longrightarrow> foldl sum_up r' xs = r"
proof (induction xs arbitrary: r)
  case Nil
  then show ?case by simp
next
  case (Cons x xs)
  then have x: "le x r" and "take_all (fst (sub r x)) xs = Some r'"
    by (auto simp: sub_flag split: if_splits)
  then have "foldl sum_up r' xs = fst (sub r x)" using Cons.IH by blast
  then show ?case using sum_sub [OF x] by (simp add: foldl_sum_up)
qed

text \<open>A failed \<open>Sub\<close> is the same as a failed \<open>Fits\<close>, and a successful one leaves less.\<close>

lemma sub_contract:
  "fst (snd (sub r x)) = (\<not> fst (fits r x)) \<and>
   (fst (snd (sub r x)) \<longrightarrow> fst (sub r x) = r) \<and>
   (\<not> fst (snd (sub r x)) \<longrightarrow> sum_up (fst (sub r x)) x = r \<and> le (fst (sub r x)) r)"
  by (auto simp: sub_flag fits_iff sub_fail sum_sub sub_le)

end

lemma zk_SumUp_commute: "zk_SumUp (zk_SumUp r x) y = zk_SumUp (zk_SumUp r y) x"
  by (cases r) (simp add: zk_SumUp_def ac_simps)

lemma br_SumUp_commute: "br_SumUp (br_SumUp r x) y = br_SumUp (br_SumUp r y) x"
  using zk_SumUp_commute [of "br_ZKCounters r" "br_ZKCounters x" "br_ZKCounters y"]
  by (cases r) (simp add: br_SumUp_def ac_simps)

interpretation zks: resource_stock zk_le zk_Fits zk_Sub zk_SumUp
  by unfold_locales
    (fact zk_Fits_iff zk_Sub_flag zk_Sub_fail zk_SumUp_Sub zk_Sub_le zk_SumUp_commute zk_le_refl
      zk_le_trans)+

lemma br_le_refl [simp]: "br_le r r"
  by (simp add: br_le_def)

interpretation brs: resource_stock br_le br_Fits br_Sub br_SumUp
  by unfold_locales
    (fact br_Fits_iff br_Sub_flag br_Sub_fail br_SumUp_Sub br_Sub_le br_SumUp_commute br_le_refl
      br_le_trans)+

section \<open>What the reservation guarantees\<close>

lemma neededCounter_max:
  "used \<le> reserved \<Longrightarrow>
   neededCounter high used reserved = (used + max high (reserved - used), max high (reserved - used))"
  by (auto simp: neededCounter_def Let_def max_def not_less)

lemma neededGas_max:
  "used \<le> reserved \<Longrightarrow>
   neededGas high used reserved = (used + max high (reserved - used), max high (reserved - used))"
  by (auto simp: neededGas_def Let_def max_def not_less)

lemma word_room:
  fixes u m z :: "'a::len word"
  assumes "u \<le> u + m" and "u + m \<le> z"
  shows "u \<le> z" and "m \<le> z - u"
proof -
  show uz: "u \<le> z" using assms by (rule order_trans)
  have "unat (u + m) = unat u + unat m"
    using assms(1) by (simp add: unat_plus_simple)
  moreover have "unat (u + m) \<le> unat z" using assms(2) by (simp add: word_le_nat_alt)
  ultimately show "m \<le> z - u" using uz by (simp add: word_le_nat_alt unat_sub)
qed

lemma getNeededZKCounters_max:
  assumes "zk_le used reserved"
  shows "getNeededZKCounters high used reserved =
    (let mx = (\<lambda>f. max (f high) (f reserved - f used)); g = max (GasUsed high) (GasUsed reserved - GasUsed used)
     in (\<lparr>GasUsed = GasUsed used + g, KeccakHashes = KeccakHashes used + mx KeccakHashes,
          PoseidonHashes = PoseidonHashes used + mx PoseidonHashes,
          PoseidonPaddings = PoseidonPaddings used + mx PoseidonPaddings,
          MemAligns = MemAligns used + mx MemAligns, Arithmetics = Arithmetics used + mx Arithmetics,
          Binaries = Binaries used + mx Binaries, Steps = Steps used + mx Steps,
          Sha256Hashes_V2 = Sha256Hashes_V2 used + mx Sha256Hashes_V2\<rparr>,
         \<lparr>GasUsed = g, KeccakHashes = mx KeccakHashes, PoseidonHashes = mx PoseidonHashes,
          PoseidonPaddings = mx PoseidonPaddings, MemAligns = mx MemAligns, Arithmetics = mx Arithmetics,
          Binaries = mx Binaries, Steps = mx Steps, Sha256Hashes_V2 = mx Sha256Hashes_V2\<rparr>))"
  using assms unfolding zk_le_def getNeededZKCounters_def Let_def
  by (elim conjE) (simp only: neededCounter_max neededGas_max prod.case)

text \<open>
  Reserved counters at least as large as the used ones, and no wrap-around in the sum: if the
  needed counters fit, then after taking the used ones the new high reserved counters still fit.
\<close>

lemma getNeeded_room:
  assumes "zk_le used reserved"
    and "getNeededZKCounters high used reserved = (needed, newHigh)"
    and "zk_le used needed" and "zk_le needed z"
  shows "zk_le used z \<and> zk_le newHigh (fst (zk_Sub z used))"
proof -
  have uz: "zk_le used z" using assms(3,4) by (rule zk_le_trans)
  have n: "needed = fst (getNeededZKCounters high used reserved)"
    and h: "newHigh = snd (getNeededZKCounters high used reserved)"
    using assms(2) by simp_all
  have "zk_le newHigh (fst (zk_Sub z used))"
    using assms(3,4)
    unfolding n h getNeededZKCounters_max [OF assms(1)] Let_def fst_conv snd_conv
      zk_le_def ZKCounters.select_convs zk_Sub_fields [OF uz]
    by (elim conjE) (intro conjI; rule word_room(2); assumption)
  then show ?thesis using uz by simp
qed

text \<open>The new high reserved counters are the least that cover the old ones and what this transaction reserves beyond its use.\<close>

lemma getNeeded_least:
  assumes "zk_le used reserved" and "getNeededZKCounters high used reserved = (needed, newHigh)"
  shows "zk_le newHigh k \<longleftrightarrow> zk_le high k \<and> zk_le (fst (zk_Sub reserved used)) k"
proof -
  have h: "newHigh = snd (getNeededZKCounters high used reserved)" using assms(2) by simp
  show ?thesis
    unfolding h getNeededZKCounters_max [OF assms(1)] Let_def snd_conv zk_le_def ZKCounters.select_convs zk_Sub_fields [OF assms(1)]
      max.bounded_iff
    by blast
qed

text \<open>The high reserved counters never go down, except for the gas of a faulty transaction.\<close>

lemma neededCounter_high: "high \<le> snd (neededCounter high used reserved)"
  by (auto simp: neededCounter_def Let_def)

lemma neededGas_high: "used \<le> reserved \<Longrightarrow> high \<le> snd (neededGas high used reserved)"
  by (simp add: neededGas_max)

lemma flag_Nil: "s \<noteq> [] \<Longrightarrow> ((if c then s else []) = []) \<longleftrightarrow> \<not> c"
  by simp

lemma option_guard_None: "((if xs \<noteq> [] then Some y else None) = None) \<longleftrightarrow> xs = []"
  by simp

lemma CheckNodeLevelOOC_None:
  "CheckNodeLevelOOC c k = None \<longleftrightarrow>
     zk_le k \<lparr>GasUsed = MaxCumulativeGasUsed c, KeccakHashes = MaxKeccakHashes c,
       PoseidonHashes = MaxPoseidonHashes c, PoseidonPaddings = MaxPoseidonPaddings c,
       MemAligns = MaxMemAligns c, Arithmetics = MaxArithmetics c, Binaries = MaxBinaries c,
       Steps = MaxSteps c, Sha256Hashes_V2 = MaxSHA256Hashes c\<rparr>"
  unfolding zk_le_not_less CheckNodeLevelOOC_def Let_def option_guard_None
  by (simp only: append_is_Nil_conv flag_Nil list.distinct not_False_eq_True de_Morgan_disj
      ZKCounters.simps)

end
