(* ===== verification/TxTracking.thy ===== *)
theory TxTracking
  imports Counters
begin

text \<open>
  The transaction tracker of the sequencer (\<open>sequencer/txtracker.go\<close>) with the
  effective-gas-price log it carries (\<open>state/types.go\<close>).

  In the code a tracker is a heap object shared by an address queue, the sorted list and the
  pending lists. The field \<open>tx_ptr\<close> is the identity of that object; the only operation of
  the worker that writes through a shared pointer (\<open>UpdateTxZKCounters\<close>) is modelled by
  updating every holder of the same identity.
\<close>

record EffectiveGasPriceLog =
  egp_Enabled :: bool
  ValueFinal :: bigint
  ValueFirst :: bigint
  ValueSecond :: bigint
  FinalDeviation :: bigint
  MaxDeviation :: bigint
  GasUsedFirst :: uint64
  GasUsedSecond :: uint64
  egp_GasPrice :: bigint
  Percentage :: byte
  Reprocess :: bool
  GasPriceOC :: bool
  BalanceOC :: bool
  egp_L1GasPrice :: uint64
  egp_L2GasPrice :: uint64
  egp_Error :: string

record TxTracker =
  tx_ptr :: nat
  Hash :: hash
  HashStr :: string
  From :: address
  FromStr :: string
  Nonce :: uint64
  Gas :: uint64
  GasPrice :: bigint
  Cost :: bigint
  Bytes :: uint64
  UsedZKCounters :: ZKCounters
  ReservedZKCounters :: ZKCounters
  RawTx :: "byte list"
  ReceivedAt :: go_time
  IP :: string
  FailedReason :: "string option"
  EffectiveGasPrice :: bigint
  EGPPercentage :: byte
  IsLastExecution :: bool
  EGPLog :: EffectiveGasPriceLog
  L1GasPrice :: uint64
  L2GasPrice :: uint64
  IsClaimTx :: bool

text \<open>\<open>updateZKCounters\<close> of a tracker.\<close>

definition updateZKCounters :: "TxTracker \<Rightarrow> ZKCounters \<Rightarrow> ZKCounters \<Rightarrow> TxTracker" where
  "updateZKCounters tx usedZKCounters reservedZKCounters =
     tx\<lparr>UsedZKCounters := usedZKCounters, ReservedZKCounters := reservedZKCounters\<rparr>"

lemma updateZKCounters_simps [simp]:
  "tx_ptr (updateZKCounters tx u r) = tx_ptr tx"
  "Hash (updateZKCounters tx u r) = Hash tx"
  "HashStr (updateZKCounters tx u r) = HashStr tx"
  "From (updateZKCounters tx u r) = From tx"
  "FromStr (updateZKCounters tx u r) = FromStr tx"
  "Nonce (updateZKCounters tx u r) = Nonce tx"
  "GasPrice (updateZKCounters tx u r) = GasPrice tx"
  "Cost (updateZKCounters tx u r) = Cost tx"
  "UsedZKCounters (updateZKCounters tx u r) = u"
  "ReservedZKCounters (updateZKCounters tx u r) = r"
  by (simp_all add: updateZKCounters_def)

text \<open>A tracker for examples: identity, hash, nonce, gas price and cost vary, the sender is ''A''.\<close>

definition zero_egp_log :: EffectiveGasPriceLog where
  "zero_egp_log = \<lparr>egp_Enabled = False, ValueFinal = 0, ValueFirst = 0, ValueSecond = 0, FinalDeviation = 0,
     MaxDeviation = 0, GasUsedFirst = 0, GasUsedSecond = 0, egp_GasPrice = 0, Percentage = 0, Reprocess = False,
     GasPriceOC = False, BalanceOC = False, egp_L1GasPrice = 0, egp_L2GasPrice = 0, egp_Error = []\<rparr>"

definition zero_counters :: ZKCounters where
  "zero_counters = \<lparr>GasUsed = 0, KeccakHashes = 0, PoseidonHashes = 0, PoseidonPaddings = 0, MemAligns = 0,
     Arithmetics = 0, Binaries = 0, Steps = 0, Sha256Hashes_V2 = 0\<rparr>"

definition sample_tx :: "nat \<Rightarrow> string \<Rightarrow> uint64 \<Rightarrow> bigint \<Rightarrow> bigint \<Rightarrow> TxTracker" where
  "sample_tx p h n price cost = \<lparr>tx_ptr = p, Hash = word_of_nat p, HashStr = h, From = 0, FromStr = ''A'', Nonce = n,
     Gas = 0, GasPrice = price, Cost = cost, Bytes = 1, UsedZKCounters = zero_counters,
     ReservedZKCounters = zero_counters, RawTx = [], ReceivedAt = 0, IP = [], FailedReason = None,
     EffectiveGasPrice = 0, EGPPercentage = 0, IsLastExecution = False, EGPLog = zero_egp_log, L1GasPrice = 0,
     L2GasPrice = 0, IsClaimTx = False\<rparr>"

lemma sample_tx_simps [simp]:
  "tx_ptr (sample_tx p h n price cost) = p" "Hash (sample_tx p h n price cost) = word_of_nat p"
  "HashStr (sample_tx p h n price cost) = h" "From (sample_tx p h n price cost) = 0"
  "FromStr (sample_tx p h n price cost) = ''A''" "Nonce (sample_tx p h n price cost) = n"
  "GasPrice (sample_tx p h n price cost) = price" "Cost (sample_tx p h n price cost) = cost"
  "UsedZKCounters (sample_tx p h n price cost) = zero_counters"
  "ReservedZKCounters (sample_tx p h n price cost) = zero_counters" "Bytes (sample_tx p h n price cost) = 1"
  "ReceivedAt (sample_tx p h n price cost) = 0" "IP (sample_tx p h n price cost) = []"
  "IsClaimTx (sample_tx p h n price cost) = False"
  by (simp_all add: sample_tx_def)

end
