(* ===== verification/AddrQueue.thy ===== *)
theory AddrQueue
  imports TxTracking
begin

text \<open>
  The queue of one sender address (\<open>sequencer/addrqueue.go\<close>, \<open>addrqueue_xlayer.go\<close>):
  at most one ready transaction (its nonce is the account's nonce and the balance covers its
  cost) and the transactions that are not ready yet, by nonce. Each method returns the receiver
  after the call with the values the Go method returns; nil pointers are \<open>None\<close>.
\<close>

section \<open>State\<close>

record addrQueue =
  aq_from :: address
  fromStr :: string
  currentNonce :: uint64
  currentBalance :: bigint
  readyTx :: "TxTracker option"
  notReadyTxs :: "(uint64, TxTracker) gomap"
  forcedTxs :: "(hash, unit) gomap"
  pendingTxsToStore :: "(hash, unit) gomap"

text \<open>The errors a transaction can be dropped with.\<close>

datatype seq_error =
    ErrDuplicatedNonce
  | ErrIntrinsicInvalidNonce
  | ErrInvalidIP
  | ErrOutOfCounters
  | ErrStateAccess string
  | ErrTransactionsListEmpty
  | ErrNoFittingTransaction

text \<open>\<open>runtime.ErrIntrinsicInvalidNonce.Error()\<close>.\<close>

definition invalid_nonce_reason :: string where
  "invalid_nonce_reason = ''nonce intrinsic error''"

definition newAddrQueue :: "(address \<Rightarrow> string) \<Rightarrow> address \<Rightarrow> uint64 \<Rightarrow> bigint \<Rightarrow> addrQueue" where
  "newAddrQueue addr_str addr nonce balance =
     \<lparr>aq_from = addr, fromStr = addr_str addr, currentNonce = nonce, currentBalance = balance,
      readyTx = None, notReadyTxs = [], forcedTxs = [], pendingTxsToStore = []\<rparr>"

section \<open>Operations\<close>

text \<open>
  \<open>addTx\<close>: the results are newReadyTx, prevReadyTx, replacedTx and dropReason.
\<close>

definition aq_addTx :: "addrQueue \<Rightarrow> TxTracker \<Rightarrow>
    addrQueue \<times> TxTracker option \<times> TxTracker option \<times> TxTracker option \<times> seq_error option" where
  "aq_addTx a tx =
     (if currentNonce a = Nonce tx then
        (if (case readyTx a of None \<Rightarrow> True | Some r \<Rightarrow> big_Cmp (GasPrice tx) (GasPrice r) \<ge> 0) then
           (let oldReadyTx = readyTx a;
                repTx = (case oldReadyTx of
                           Some o' \<Rightarrow> if HashStr o' \<noteq> HashStr tx then Some o' else None
                         | None \<Rightarrow> None)
            in if big_Cmp (currentBalance a) (Cost tx) \<ge> 0
               then (a\<lparr>readyTx := Some tx\<rparr>, Some tx, oldReadyTx, repTx, None)
               else (a\<lparr>readyTx := None, notReadyTxs := AList.update (Nonce tx) tx (notReadyTxs a)\<rparr>,
                     None, oldReadyTx, repTx, None))
         else (a, None, None, None, Some ErrDuplicatedNonce))
      else if currentNonce a > Nonce tx then (a, None, None, None, Some ErrIntrinsicInvalidNonce)
      else
        (case map_of (notReadyTxs a) (Nonce tx) of
           None \<Rightarrow> (a\<lparr>notReadyTxs := AList.update (Nonce tx) tx (notReadyTxs a)\<rparr>, None, None, None, None)
         | Some nrTx \<Rightarrow>
             if big_Cmp (GasPrice tx) (GasPrice nrTx) \<ge> 0
             then (a\<lparr>notReadyTxs := AList.update (Nonce tx) tx (notReadyTxs a)\<rparr>, None, None,
                   (if HashStr nrTx \<noteq> HashStr tx then Some nrTx else None), None)
             else (a, None, None, None, Some ErrDuplicatedNonce)))"

definition aq_addForcedTx :: "addrQueue \<Rightarrow> hash \<Rightarrow> addrQueue" where
  "aq_addForcedTx a txHash = a\<lparr>forcedTxs := AList.update txHash () (forcedTxs a)\<rparr>"

definition aq_addPendingTxToStore :: "addrQueue \<Rightarrow> hash \<Rightarrow> addrQueue" where
  "aq_addPendingTxToStore a txHash = a\<lparr>pendingTxsToStore := AList.update txHash () (pendingTxsToStore a)\<rparr>"

text \<open>
  \<open>ExpireTransactions\<close>. Each evaluation of the deadline reads the clock again, so \<open>now\<close>
  gives the reading for each tracker. Deleting a key removes it also from what the loop has
  not reached yet, as in Go.
\<close>

definition expired :: "(TxTracker \<Rightarrow> go_time) \<Rightarrow> int \<Rightarrow> TxTracker \<Rightarrow> bool" where
  "expired now maxTime tx \<longleftrightarrow> ReceivedAt tx + maxTime < now tx"

function expire_loop :: "(TxTracker \<Rightarrow> go_time) \<Rightarrow> int \<Rightarrow> (uint64, TxTracker) gomap \<Rightarrow>
    (uint64, TxTracker) gomap \<Rightarrow> TxTracker list \<Rightarrow> (uint64, TxTracker) gomap \<times> TxTracker list" where
  "expire_loop now maxTime [] m txs = (m, txs)"
| "expire_loop now maxTime ((k, t) # todo) m txs =
     (if expired now maxTime t
      then expire_loop now maxTime (AList.delete (Nonce t) todo) (AList.delete (Nonce t) m) (txs @ [t])
      else expire_loop now maxTime todo m txs)"
  by pat_completeness auto
termination
  by (relation "measure (\<lambda>(now, maxTime, todo, m, txs). length todo)")
    (auto intro: le_less_trans [OF length_delete_le])

definition aq_ExpireTransactions :: "(TxTracker \<Rightarrow> go_time) \<Rightarrow> int \<Rightarrow> addrQueue \<Rightarrow>
    addrQueue \<times> TxTracker list \<times> TxTracker option" where
  "aq_ExpireTransactions now maxTime a =
     (let (m, txs) = expire_loop now maxTime (notReadyTxs a) (notReadyTxs a) [];
          a = a\<lparr>notReadyTxs := m\<rparr>
      in case readyTx a of
           Some r \<Rightarrow>
             if expired now maxTime r then (a\<lparr>readyTx := None\<rparr>, txs @ [r], Some r) else (a, txs, None)
         | None \<Rightarrow> (a, txs, None))"

definition aq_IsEmpty :: "addrQueue \<Rightarrow> bool" where
  "aq_IsEmpty a \<longleftrightarrow> readyTx a = None \<and> length (notReadyTxs a) = 0 \<and> length (forcedTxs a) = 0 \<and>
     length (pendingTxsToStore a) = 0"

text \<open>\<open>deleteTx\<close>: the deleted tracker, and whether it was the ready one.\<close>

definition aq_deleteTx :: "(hash \<Rightarrow> string) \<Rightarrow> addrQueue \<Rightarrow> hash \<Rightarrow> addrQueue \<times> TxTracker option \<times> bool" where
  "aq_deleteTx hash_str a txHash =
     (let txHashStr = hash_str txHash in
      if (case readyTx a of Some r \<Rightarrow> HashStr r = txHashStr | None \<Rightarrow> False)
      then (a\<lparr>readyTx := None\<rparr>, readyTx a, True)
      else
        (case List.find (\<lambda>(k, t). HashStr t = txHashStr) (notReadyTxs a) of
           None \<Rightarrow> (a, None, False)
         | Some (k, t) \<Rightarrow> (a\<lparr>notReadyTxs := AList.delete (Nonce t) (notReadyTxs a)\<rparr>, Some t, False)))"

definition aq_deleteForcedTx :: "addrQueue \<Rightarrow> hash \<Rightarrow> addrQueue" where
  "aq_deleteForcedTx a txHash =
     (case map_of (forcedTxs a) txHash of
        Some _ \<Rightarrow> a\<lparr>forcedTxs := AList.delete txHash (forcedTxs a)\<rparr>
      | None \<Rightarrow> a)"

definition aq_deletePendingTxToStore :: "addrQueue \<Rightarrow> hash \<Rightarrow> addrQueue" where
  "aq_deletePendingTxToStore a txHash =
     (case map_of (pendingTxsToStore a) txHash of
        Some _ \<Rightarrow> a\<lparr>pendingTxsToStore := AList.delete txHash (pendingTxsToStore a)\<rparr>
      | None \<Rightarrow> a)"

definition aq_getTransactions :: "addrQueue \<Rightarrow> TxTracker list" where
  "aq_getTransactions a =
     (case readyTx a of Some r \<Rightarrow> [r] | None \<Rightarrow> []) @ map snd (notReadyTxs a)"

text \<open>
  \<open>updateCurrentNonceBalance\<close>, split at the three steps of the code: the new nonce and balance
  with the transactions whose nonce has become too low; the ready transaction that is no longer
  executable; the promotion of a not ready transaction. The results are newReadyTx,
  prevReadyTx and the transactions to delete.
\<close>

definition set_invalid_nonce :: "TxTracker \<Rightarrow> TxTracker" where
  "set_invalid_nonce t = t\<lparr>FailedReason := Some invalid_nonce_reason\<rparr>"

definition update_nonce_balance :: "addrQueue \<Rightarrow> uint64 option \<Rightarrow> bigint option \<Rightarrow> addrQueue \<times> TxTracker list" where
  "update_nonce_balance a nonce balance =
     (let a = (case balance of Some b \<Rightarrow> a\<lparr>currentBalance := b\<rparr> | None \<Rightarrow> a)
      in case nonce of
           Some n \<Rightarrow>
             if currentNonce a \<noteq> n then
               (let a = a\<lparr>currentNonce := n\<rparr>;
                    txsToDelete = map set_invalid_nonce
                      (filter (\<lambda>t. Nonce t < currentNonce a) (map snd (notReadyTxs a)));
                    m = fold (\<lambda>t m. AList.delete (Nonce t) m) txsToDelete (notReadyTxs a)
                in (a\<lparr>notReadyTxs := m\<rparr>, txsToDelete))
             else (a, [])
         | None \<Rightarrow> (a, []))"

definition demote_ready :: "addrQueue \<Rightarrow> addrQueue \<times> TxTracker option" where
  "demote_ready a =
     (case readyTx a of
        Some r \<Rightarrow>
          if Nonce r \<noteq> currentNonce a \<or> big_Cmp (currentBalance a) (Cost r) < 0
          then (a\<lparr>readyTx := None\<rparr>, Some r) else (a, None)
      | None \<Rightarrow> (a, None))"

definition promote_ready :: "addrQueue \<Rightarrow> addrQueue" where
  "promote_ready a =
     (if readyTx a = None then
        (case map_of (notReadyTxs a) (currentNonce a) of
           Some nrTx \<Rightarrow>
             if big_Cmp (currentBalance a) (Cost nrTx) \<ge> 0
             then a\<lparr>readyTx := Some nrTx, notReadyTxs := AList.delete (currentNonce a) (notReadyTxs a)\<rparr>
             else a
         | None \<Rightarrow> a)
      else a)"

definition updateCurrentNonceBalance :: "addrQueue \<Rightarrow> uint64 option \<Rightarrow> bigint option \<Rightarrow>
    addrQueue \<times> TxTracker option \<times> TxTracker option \<times> TxTracker list" where
  "updateCurrentNonceBalance a nonce balance =
     (let (a, txsToDelete) = update_nonce_balance a nonce balance;
          (a, oldReadyTx) = demote_ready a;
          a = promote_ready a
      in case oldReadyTx of
           Some o' \<Rightarrow>
             if Nonce o' > currentNonce a
             then (let a = a\<lparr>notReadyTxs := AList.update (Nonce o') o' (notReadyTxs a)\<rparr>
                   in (a, readyTx a, oldReadyTx, txsToDelete))
             else (a, readyTx a, oldReadyTx, txsToDelete @ [set_invalid_nonce o'])
         | None \<Rightarrow> (a, readyTx a, None, txsToDelete))"

text \<open>
  \<open>UpdateTxZKCounters\<close> writes through the pointer of the tracker with the given hash. The
  second component is the identity of the object written to, for its other holders.
\<close>

definition aq_UpdateTxZKCounters :: "(hash \<Rightarrow> string) \<Rightarrow> addrQueue \<Rightarrow> hash \<Rightarrow> ZKCounters \<Rightarrow> ZKCounters \<Rightarrow>
    addrQueue \<times> nat option" where
  "aq_UpdateTxZKCounters hash_str a txHash used reserved =
     (let txHashStr = hash_str txHash;
          nr = map_option snd (List.find (\<lambda>(k, t). HashStr t = txHashStr) (notReadyTxs a));
          target = (case readyTx a of Some r \<Rightarrow> if HashStr r = txHashStr then Some r else nr | None \<Rightarrow> nr)
      in case target of
           None \<Rightarrow> (a, None)
         | Some tgt \<Rightarrow>
             (let upd = (\<lambda>t. if tx_ptr t = tx_ptr tgt then updateZKCounters t used reserved else t)
              in (a\<lparr>readyTx := map_option upd (readyTx a),
                    notReadyTxs := map (\<lambda>(k, t). (k, upd t)) (notReadyTxs a)\<rparr>, Some (tx_ptr tgt))))"

definition aq_GetTxCount :: "addrQueue \<Rightarrow> uint64" where
  "aq_GetTxCount a =
     (let readyTxCount = (if readyTx a \<noteq> None then 1 else 0);
          notReadyTxCount = word_of_nat (length (notReadyTxs a));
          forcedTxCount = word_of_nat (length (forcedTxs a));
          pendingTxsToStoreCount = word_of_nat (length (pendingTxsToStore a))
      in readyTxCount + notReadyTxCount + forcedTxCount + pendingTxsToStoreCount)"

section \<open>Invariant\<close>

definition ready_ok :: "addrQueue \<Rightarrow> TxTracker \<Rightarrow> bool" where
  "ready_ok a t \<longleftrightarrow> Nonce t = currentNonce a \<and> Cost t \<le> currentBalance a \<and> FromStr t = fromStr a"

definition not_ready_ok :: "addrQueue \<Rightarrow> uint64 \<Rightarrow> TxTracker \<Rightarrow> bool" where
  "not_ready_ok a k t \<longleftrightarrow> Nonce t = k \<and> currentNonce a \<le> k \<and> FromStr t = fromStr a"

definition aq_wf :: "addrQueue \<Rightarrow> bool" where
  "aq_wf a \<longleftrightarrow> gomap_wf (notReadyTxs a) \<and> gomap_wf (forcedTxs a) \<and> gomap_wf (pendingTxsToStore a) \<and>
     (\<forall>t. readyTx a = Some t \<longrightarrow> ready_ok a t) \<and>
     (\<forall>k t. map_of (notReadyTxs a) k = Some t \<longrightarrow> not_ready_ok a k t)"

lemma aq_wfI:
  assumes "gomap_wf (notReadyTxs a)" "gomap_wf (forcedTxs a)" "gomap_wf (pendingTxsToStore a)"
    and "\<And>t. readyTx a = Some t \<Longrightarrow> ready_ok a t"
    and "\<And>k t. map_of (notReadyTxs a) k = Some t \<Longrightarrow> not_ready_ok a k t"
  shows "aq_wf a"
  using assms by (simp add: aq_wf_def)

lemma aq_wfD [wf_dests]:
  assumes "aq_wf a"
  shows "gomap_wf (notReadyTxs a)" "gomap_wf (forcedTxs a)" "gomap_wf (pendingTxsToStore a)"
    and "readyTx a = Some t \<Longrightarrow> ready_ok a t"
    and "map_of (notReadyTxs a) k = Some t \<Longrightarrow> not_ready_ok a k t"
  using assms by (simp_all add: aq_wf_def)

lemma aq_wf_new [wf_intros]: "aq_wf (newAddrQueue addr_str addr n b)"
  by (simp add: aq_wf_def newAddrQueue_def)

lemmas ok_defs = ready_ok_def not_ready_ok_def

section \<open>The invariant is preserved\<close>

lemma aq_wf_clear_ready [wf_intros]: "aq_wf a \<Longrightarrow> aq_wf (a\<lparr>readyTx := None\<rparr>)"
  by (simp add: aq_wf_def ok_defs)

lemma aq_wf_set_ready [wf_intros]:
  "aq_wf a \<Longrightarrow> ready_ok a tx \<Longrightarrow> aq_wf (a\<lparr>readyTx := Some tx\<rparr>)"
  by (simp add: aq_wf_def ok_defs)

lemma aq_wf_put [wf_intros]:
  assumes "aq_wf a" and "FromStr t = fromStr a" and "currentNonce a \<le> Nonce t"
  shows "aq_wf (a\<lparr>notReadyTxs := AList.update (Nonce t) t (notReadyTxs a)\<rparr>)"
proof (rule aq_wfI)
  fix k u
  assume "map_of (notReadyTxs (a\<lparr>notReadyTxs := AList.update (Nonce t) t (notReadyTxs a)\<rparr>)) k = Some u"
  then show "not_ready_ok (a\<lparr>notReadyTxs := AList.update (Nonce t) t (notReadyTxs a)\<rparr>) k u"
    using assms(2,3) aq_wfD(5) [OF assms(1), of k u] by (auto simp: not_ready_ok_def split: if_splits)
qed (use assms(1) in \<open>auto simp: aq_wf_def ready_ok_def\<close>)

lemma aq_wf_put_clear [wf_intros]:
  "aq_wf a \<Longrightarrow> FromStr t = fromStr a \<Longrightarrow> currentNonce a \<le> Nonce t \<Longrightarrow>
   aq_wf (a\<lparr>readyTx := None, notReadyTxs := AList.update (Nonce t) t (notReadyTxs a)\<rparr>)"
  using aq_wf_put [OF aq_wf_clear_ready, of a t] by simp

lemma aq_addTx_wf:
  assumes "aq_wf a" and "FromStr tx = fromStr a"
  shows "aq_wf (fst (aq_addTx a tx))"
  using assms
  by (simp add: aq_addTx_def Let_def wf_intros ready_ok_def split: option.split)

lemma aq_deleteTx_wf: "aq_wf a \<Longrightarrow> aq_wf (fst (aq_deleteTx hs a h))"
  by (auto simp: aq_deleteTx_def Let_def ok_defs aq_wf_def split: option.splits if_splits)

lemma fold_delete_lookup:
  "map_of (fold (\<lambda>t m. AList.delete (Nonce t) m) ts m) k = (if k \<in> Nonce ` set ts then None else map_of m k)"
  by (induction ts arbitrary: m) auto

lemma fold_delete_wf: "gomap_wf m \<Longrightarrow> gomap_wf (fold (\<lambda>t m. AList.delete (Nonce t) m) ts m)"
  by (induction ts arbitrary: m) auto

lemma set_invalid_nonce_simps [simp]:
  "Nonce (set_invalid_nonce t) = Nonce t" "HashStr (set_invalid_nonce t) = HashStr t"
  "FromStr (set_invalid_nonce t) = FromStr t" "GasPrice (set_invalid_nonce t) = GasPrice t"
  "Cost (set_invalid_nonce t) = Cost t" "Hash (set_invalid_nonce t) = Hash t"
  by (simp_all add: set_invalid_nonce_def)

text \<open>
  Before the ready transaction is looked at again, everything but its own condition holds.
\<close>

definition aq_wf_weak :: "addrQueue \<Rightarrow> bool" where
  "aq_wf_weak a \<longleftrightarrow> gomap_wf (notReadyTxs a) \<and> gomap_wf (forcedTxs a) \<and> gomap_wf (pendingTxsToStore a) \<and>
     (\<forall>t. readyTx a = Some t \<longrightarrow> FromStr t = fromStr a) \<and>
     (\<forall>k t. map_of (notReadyTxs a) k = Some t \<longrightarrow> not_ready_ok a k t)"

lemma aq_wf_weakI: "aq_wf a \<Longrightarrow> aq_wf_weak a"
  by (simp add: aq_wf_def aq_wf_weak_def ready_ok_def)

lemma update_nonce_lookup:
  assumes "aq_wf a" and "(a', dels) = update_nonce_balance a nonce balance"
    and "map_of (notReadyTxs a') k = Some t"
  shows "map_of (notReadyTxs a) k = Some t \<and> currentNonce a' \<le> Nonce t"
proof (cases nonce)
  case None
  then show ?thesis using assms
    by (auto simp: update_nonce_balance_def Let_def not_ready_ok_def dest: aq_wfD(5) split: option.splits)
next
  case (Some n)
  let ?low = "filter (\<lambda>t. Nonce t < n) (map snd (notReadyTxs a))"
  show ?thesis
  proof (cases "n = currentNonce a")
    case True
    then show ?thesis using assms Some
      by (auto simp: update_nonce_balance_def Let_def not_ready_ok_def dest: aq_wfD(5) split: option.splits)
  next
    case False
    then have a': "currentNonce a' = n"
      "map_of (notReadyTxs a') k = (if k \<in> Nonce ` set ?low then None else map_of (notReadyTxs a) k)"
      using assms(2) Some
      by (auto simp: update_nonce_balance_def Let_def fold_delete_lookup image_image split: option.splits)
    then have k: "k \<notin> Nonce ` set ?low" "map_of (notReadyTxs a) k = Some t"
      using assms(3) by (auto split: if_splits)
    then have "k = Nonce t" "t \<in> snd ` set (notReadyTxs a)"
      using aq_wfD(5) [OF assms(1) k(2)] map_of_SomeD [OF k(2)] by (force simp: not_ready_ok_def)+
    then have "\<not> Nonce t < n" using k(1) by auto
    then show ?thesis using k(2) a'(1) by (simp add: not_less)
  qed
qed

lemma update_nonce_simps:
  assumes "(a', dels) = update_nonce_balance a nonce balance"
  shows "readyTx a' = readyTx a" "fromStr a' = fromStr a" "forcedTxs a' = forcedTxs a"
    "pendingTxsToStore a' = pendingTxsToStore a"
    "currentNonce a' = (case nonce of Some n \<Rightarrow> n | None \<Rightarrow> currentNonce a)"
    "currentBalance a' = (case balance of Some b \<Rightarrow> b | None \<Rightarrow> currentBalance a)"
    "gomap_wf (notReadyTxs a) \<Longrightarrow> gomap_wf (notReadyTxs a')"
  using assms
  by (auto simp: update_nonce_balance_def Let_def fold_delete_wf split: option.splits if_splits)

lemma update_nonce_wf:
  assumes "aq_wf a" and "(a', dels) = update_nonce_balance a nonce balance"
  shows "aq_wf_weak a'"
proof -
  have "not_ready_ok a' k t" if "map_of (notReadyTxs a') k = Some t" for k t
    using update_nonce_lookup [OF assms that] aq_wfD(5) [OF assms(1)] update_nonce_simps(2) [OF assms(2)]
    by (auto simp: not_ready_ok_def)
  then show ?thesis
    using assms(1) update_nonce_simps [OF assms(2)] by (simp add: aq_wf_weak_def aq_wf_def ready_ok_def)
qed

lemma demote_ready_wf: "aq_wf_weak a \<Longrightarrow> aq_wf (fst (demote_ready a))"
  by (auto simp: aq_wf_weak_def aq_wf_def demote_ready_def ok_defs split: option.splits if_splits)

lemma promote_ready_wf: "aq_wf a \<Longrightarrow> aq_wf (promote_ready a)"
  by (auto simp: aq_wf_def promote_ready_def ok_defs split: option.splits if_splits)

lemma updateCurrentNonceBalance_wf:
  assumes "aq_wf a" and "updateCurrentNonceBalance a nonce balance = (a', newReady, prevReady, dels)"
  shows "aq_wf a'"
proof -
  obtain a1 d1 where 1: "(a1, d1) = update_nonce_balance a nonce balance"
    by (metis surj_pair)
  obtain a2 oldR where 2: "demote_ready a1 = (a2, oldR)" by fastforce
  have w1: "aq_wf_weak a1" using assms(1) 1 by (rule update_nonce_wf)
  have w3: "aq_wf (promote_ready a2)"
    using promote_ready_wf [OF demote_ready_wf [OF w1]] 2 by simp
  have "oldR = Some r \<Longrightarrow> FromStr r = fromStr (promote_ready a2)" for r
    using w1 2
    by (auto simp: aq_wf_weak_def demote_ready_def promote_ready_def split: option.splits if_splits)
  then show ?thesis
    using w3 assms(2) 2
    by (auto simp: updateCurrentNonceBalance_def 1 [symmetric] Let_def split: option.splits if_splits
        intro!: aq_wf_put intro: order_less_imp_le)
qed

text \<open>The expiry loop over a well-formed map deletes exactly the expired entries.\<close>

lemma expire_loop_eq:
  assumes "gomap_wf todo" and "\<And>k t. (k, t) \<in> set todo \<Longrightarrow> Nonce t = k"
  shows "expire_loop now mx todo m txs =
     (fold (\<lambda>t m. AList.delete (Nonce t) m) (filter (expired now mx) (map snd todo)) m,
      txs @ filter (expired now mx) (map snd todo))"
  using assms
proof (induction todo arbitrary: m txs)
  case Nil
  then show ?case by simp
next
  case (Cons kt todo)
  obtain k t where kt: "kt = (k, t)" by (cases kt)
  have k: "Nonce t = k" using Cons.prems(2) kt by simp
  have nk: "map_of todo k = None"
    using Cons.prems(1) by (simp add: gomap_wf_def kt map_of_eq_None_iff)
  have "gomap_wf todo" using Cons.prems(1) by (simp add: gomap_wf_def)
  then show ?case
    using Cons.IH Cons.prems(2) by (simp add: kt k gomap_delete_lookup_None [OF nk])
qed

lemma aq_Expire_loop:
  assumes "aq_wf a"
  shows "expire_loop now mx (notReadyTxs a) (notReadyTxs a) [] =
     (fold (\<lambda>t m. AList.delete (Nonce t) m) (filter (expired now mx) (map snd (notReadyTxs a))) (notReadyTxs a),
      filter (expired now mx) (map snd (notReadyTxs a)))"
proof -
  have "Nonce t = k" if "(k, t) \<in> set (notReadyTxs a)" for k t
    using aq_wfD(5) [OF assms, of k t] that gomap_lookup_iff [OF aq_wfD(1) [OF assms]]
    by (simp add: not_ready_ok_def)
  then show ?thesis using expire_loop_eq [OF aq_wfD(1) [OF assms]] by simp
qed

lemma aq_wf_delete_many:
  "aq_wf a \<Longrightarrow> aq_wf (a\<lparr>notReadyTxs := fold (\<lambda>t m. AList.delete (Nonce t) m) ts (notReadyTxs a)\<rparr>)"
  by (auto simp: aq_wf_def fold_delete_wf fold_delete_lookup ok_defs)

lemma aq_ExpireTransactions_wf: "aq_wf a \<Longrightarrow> aq_wf (fst (aq_ExpireTransactions now mx a))"
  by (simp add: aq_ExpireTransactions_def Let_def aq_Expire_loop split: option.split)
    (auto intro: aq_wf_delete_many aq_wf_clear_ready [OF aq_wf_delete_many, simplified])

lemma aq_UpdateTxZKCounters_wf: "aq_wf a \<Longrightarrow> aq_wf (fst (aq_UpdateTxZKCounters hs a h u r))"
proof -
  assume wf: "aq_wf a"
  have "aq_wf (a\<lparr>readyTx := map_option f (readyTx a), notReadyTxs := map (\<lambda>(k, t). (k, f t)) (notReadyTxs a)\<rparr>)"
    if f: "\<And>t. Nonce (f t) = Nonce t" "\<And>t. Cost (f t) = Cost t" "\<And>t. FromStr (f t) = FromStr t"
    for f :: "TxTracker \<Rightarrow> TxTracker"
  proof -
    have "gomap_wf (map (\<lambda>(k, t). (k, f t)) (notReadyTxs a))"
      using aq_wfD(1) [OF wf] by (simp add: gomap_wf_def comp_def case_prod_unfold)
    moreover have "map_of (map (\<lambda>(k, t). (k, f t)) (notReadyTxs a)) k = map_option f (map_of (notReadyTxs a) k)" for k
      by (simp add: map_of_map)
    ultimately show ?thesis using wf by (auto simp: aq_wf_def ok_defs f)
  qed
  then show ?thesis using wf
    by (simp add: aq_UpdateTxZKCounters_def Let_def split: option.split)
qed

lemma aq_sets_wf [wf_intros]:
  "aq_wf a \<Longrightarrow> aq_wf (aq_addForcedTx a h)"
  "aq_wf a \<Longrightarrow> aq_wf (aq_addPendingTxToStore a h)"
  "aq_wf a \<Longrightarrow> aq_wf (aq_deleteForcedTx a h)"
  "aq_wf a \<Longrightarrow> aq_wf (aq_deletePendingTxToStore a h)"
  by (auto simp: aq_wf_def ok_defs aq_addForcedTx_def aq_addPendingTxToStore_def
      aq_deleteForcedTx_def aq_deletePendingTxToStore_def split: option.split)

section \<open>What the worker relies on\<close>

text \<open>
  Every operation tells the worker how the ready transaction changed: \<open>prev\<close> is the ready
  transaction to take out of the sorted list and \<open>new\<close> the one to put in. The contract:
\<close>

definition ready_sync :: "addrQueue \<Rightarrow> addrQueue \<Rightarrow> TxTracker option \<Rightarrow> TxTracker option \<Rightarrow> bool" where
  "ready_sync a a' new prev \<longleftrightarrow>
     readyTx a' = (case new of Some t \<Rightarrow> Some t | None \<Rightarrow> if prev = None then readyTx a else None) \<and>
     (prev = None \<or> prev = readyTx a) \<and>
     (new \<noteq> None \<and> prev = None \<longrightarrow> readyTx a = None \<or> readyTx a = new)"

locale queue_op =
  fixes pre :: "addrQueue \<Rightarrow> bool"
    and extra :: "TxTracker set"
    and qop :: "addrQueue \<Rightarrow> addrQueue \<times> TxTracker option \<times> TxTracker option"
  assumes keeps_wf: "aq_wf a \<Longrightarrow> pre a \<Longrightarrow> aq_wf (fst (qop a))"
    and keeps_from: "fromStr (fst (qop a)) = fromStr a"
    and sync: "ready_sync a (fst (qop a)) (fst (snd (qop a))) (snd (snd (qop a)))"
    and txs: "set (aq_getTransactions (fst (qop a))) \<subseteq> set (aq_getTransactions a) \<union> extra"
begin

text \<open>After the operation, a reported new ready transaction is executable.\<close>

lemma new_ready_ok:
  assumes "aq_wf a" and "pre a" and "fst (snd (qop a)) = Some t"
  shows "readyTx (fst (qop a)) = Some t \<and> ready_ok (fst (qop a)) t"
proof -
  have "readyTx (fst (qop a)) = Some t" using sync [of a] assms(3) by (simp add: ready_sync_def)
  then show ?thesis using aq_wfD(4) [OF keeps_wf [OF assms(1,2)]] by blast
qed

end

definition addTx_op :: "TxTracker \<Rightarrow> addrQueue \<Rightarrow> addrQueue \<times> TxTracker option \<times> TxTracker option" where
  "addTx_op tx a = (case aq_addTx a tx of (a', new, prev, _, _) \<Rightarrow> (a', new, prev))"

definition update_op :: "uint64 option \<Rightarrow> bigint option \<Rightarrow> addrQueue \<Rightarrow> addrQueue \<times> TxTracker option \<times> TxTracker option" where
  "update_op n b a = (case updateCurrentNonceBalance a n b of (a', new, prev, _) \<Rightarrow> (a', new, prev))"

definition deleteTx_op :: "(hash \<Rightarrow> string) \<Rightarrow> hash \<Rightarrow> addrQueue \<Rightarrow> addrQueue \<times> TxTracker option \<times> TxTracker option" where
  "deleteTx_op hs h a = (case aq_deleteTx hs a h of (a', del, isReady) \<Rightarrow> (a', None, if isReady then del else None))"

definition expire_op :: "(TxTracker \<Rightarrow> go_time) \<Rightarrow> int \<Rightarrow> addrQueue \<Rightarrow> addrQueue \<times> TxTracker option \<times> TxTracker option" where
  "expire_op now mx a = (case aq_ExpireTransactions now mx a of (a', _, prev) \<Rightarrow> (a', None, prev))"

text \<open>The operations bring in no transactions of their own.\<close>

lemma lookup_snd: "map_of m k = Some v \<Longrightarrow> v \<in> snd ` set m"
  using map_of_SomeD by force

lemma snd_update_subset: "snd ` set (AList.update k v m) \<subseteq> insert v (snd ` set m)"
  by (induction m) auto

lemma snd_delete_subset: "snd ` set (AList.delete k m) \<subseteq> snd ` set m"
  by (induction m) auto

lemma fold_delete_subset: "snd ` set (fold (\<lambda>t m. AList.delete (Nonce t) m) ts m) \<subseteq> snd ` set m"
proof (induction ts arbitrary: m)
  case Nil
  then show ?case by simp
next
  case (Cons t ts)
  have "snd ` set (fold (\<lambda>t m. AList.delete (Nonce t) m) ts (AList.delete (Nonce t) m)) \<subseteq>
      snd ` set (AList.delete (Nonce t) m)" by (rule Cons.IH)
  also have "\<dots> \<subseteq> snd ` set m" by (rule snd_delete_subset)
  finally show ?case by simp
qed

lemma expire_loop_subset: "snd ` set (fst (expire_loop now mx todo m txs)) \<subseteq> snd ` set m"
proof (induction now mx todo m txs rule: expire_loop.induct)
  case (1 now mx m txs)
  then show ?case by simp
next
  case (2 now mx k t todo m txs)
  show ?case
  proof (cases "expired now mx t")
    case True
    then have "snd ` set (fst (expire_loop now mx ((k, t) # todo) m txs)) \<subseteq> snd ` set (AList.delete (Nonce t) m)"
      using "2.IH"(1) by simp
    also have "\<dots> \<subseteq> snd ` set m" by (rule snd_delete_subset)
    finally show ?thesis .
  next
    case False
    then show ?thesis using "2.IH"(2) by simp
  qed
qed

lemma update_op_txs: "set (aq_getTransactions (fst (update_op n b a))) \<subseteq> set (aq_getTransactions a)"
proof -
  obtain a1 d1 where 1: "(a1, d1) = update_nonce_balance a n b" by (metis surj_pair)
  have "snd ` set (notReadyTxs a1) \<subseteq> snd ` set (notReadyTxs a)"
    using 1 fold_delete_subset [of _ "notReadyTxs a"]
    by (auto simp: update_nonce_balance_def Let_def split: option.splits if_splits)
  then have "set (aq_getTransactions a1) \<subseteq> set (aq_getTransactions a)"
    using update_nonce_simps(1) [OF 1] by (auto simp: aq_getTransactions_def)
  moreover obtain a2 oldR where 2: "demote_ready a1 = (a2, oldR)" by fastforce
  moreover have "set (aq_getTransactions a2) \<union> set_option oldR \<subseteq> set (aq_getTransactions a1)"
    using 2 by (auto simp: demote_ready_def aq_getTransactions_def split: option.splits if_splits)
  moreover have "set (aq_getTransactions (promote_ready a2)) \<subseteq> set (aq_getTransactions a2)"
    using snd_delete_subset [of _ "notReadyTxs a2"]
    by (auto simp: promote_ready_def aq_getTransactions_def dest!: lookup_snd split: option.splits)
  moreover have "set (aq_getTransactions (fst (update_op n b a))) \<subseteq>
      set (aq_getTransactions (promote_ready a2)) \<union> set_option oldR"
    using 2 snd_update_subset [of _ _ "notReadyTxs (promote_ready a2)"]
    by (auto simp: update_op_def updateCurrentNonceBalance_def 1 [symmetric] Let_def aq_getTransactions_def
        split: option.splits)
  ultimately show ?thesis by blast
qed

interpretation addTx_op: queue_op "\<lambda>a. FromStr tx = fromStr a" "{tx}" "addTx_op tx" for tx
proof unfold_locales
  fix a
  show "aq_wf a \<Longrightarrow> FromStr tx = fromStr a \<Longrightarrow> aq_wf (fst (addTx_op tx a))"
    using aq_addTx_wf [of a tx] by (simp add: addTx_op_def split_beta)
  show "fromStr (fst (addTx_op tx a)) = fromStr a"
    by (simp add: addTx_op_def aq_addTx_def Let_def split: option.split)
  show "ready_sync a (fst (addTx_op tx a)) (fst (snd (addTx_op tx a))) (snd (snd (addTx_op tx a)))"
    by (simp add: addTx_op_def aq_addTx_def Let_def ready_sync_def split: option.split)
  show "set (aq_getTransactions (fst (addTx_op tx a))) \<subseteq> set (aq_getTransactions a) \<union> {tx}"
    using snd_update_subset [of "Nonce tx" tx "notReadyTxs a"]
    by (auto simp: addTx_op_def aq_addTx_def Let_def aq_getTransactions_def split: option.splits)
qed

interpretation update_op: queue_op "\<lambda>a. True" "{}" "update_op n b" for n b
proof unfold_locales
  fix a
  show "aq_wf a \<Longrightarrow> True \<Longrightarrow> aq_wf (fst (update_op n b a))"
    using updateCurrentNonceBalance_wf by (auto simp: update_op_def split: prod.split)
  obtain a1 d1 where 1: "(a1, d1) = update_nonce_balance a n b" by (metis surj_pair)
  show "fromStr (fst (update_op n b a)) = fromStr a"
    using update_nonce_simps(2) [OF 1]
    by (auto simp: update_op_def updateCurrentNonceBalance_def 1 [symmetric] Let_def demote_ready_def
        promote_ready_def split: option.split)
  show "ready_sync a (fst (update_op n b a)) (fst (snd (update_op n b a))) (snd (snd (update_op n b a)))"
    using update_nonce_simps(1) [OF 1]
    by (auto simp: update_op_def updateCurrentNonceBalance_def 1 [symmetric] Let_def demote_ready_def
        promote_ready_def ready_sync_def split: option.split)
  show "set (aq_getTransactions (fst (update_op n b a))) \<subseteq> set (aq_getTransactions a) \<union> {}"
    using update_op_txs [of n b a] by simp
qed

interpretation deleteTx_op: queue_op "\<lambda>a. True" "{}" "deleteTx_op hs h" for hs h
proof unfold_locales
  fix a
  show "aq_wf a \<Longrightarrow> True \<Longrightarrow> aq_wf (fst (deleteTx_op hs h a))"
    using aq_deleteTx_wf [of a hs h] by (simp add: deleteTx_op_def split_beta)
  show "fromStr (fst (deleteTx_op hs h a)) = fromStr a"
    by (simp add: deleteTx_op_def aq_deleteTx_def Let_def split: option.split prod.split)
  show "ready_sync a (fst (deleteTx_op hs h a)) (fst (snd (deleteTx_op hs h a))) (snd (snd (deleteTx_op hs h a)))"
    by (auto simp: deleteTx_op_def aq_deleteTx_def Let_def ready_sync_def split: option.split prod.split)
  show "set (aq_getTransactions (fst (deleteTx_op hs h a))) \<subseteq> set (aq_getTransactions a) \<union> {}"
    using snd_delete_subset [of _ "notReadyTxs a"]
    by (auto simp: deleteTx_op_def aq_deleteTx_def Let_def aq_getTransactions_def split: option.splits prod.splits)
qed

interpretation expire_op: queue_op "\<lambda>a. True" "{}" "expire_op now mx" for now mx
proof unfold_locales
  fix a
  show "aq_wf a \<Longrightarrow> True \<Longrightarrow> aq_wf (fst (expire_op now mx a))"
    using aq_ExpireTransactions_wf [of a now mx] by (simp add: expire_op_def split_beta)
  show "fromStr (fst (expire_op now mx a)) = fromStr a"
    by (simp add: expire_op_def aq_ExpireTransactions_def Let_def split: option.split prod.split)
  show "ready_sync a (fst (expire_op now mx a)) (fst (snd (expire_op now mx a))) (snd (snd (expire_op now mx a)))"
    by (auto simp: expire_op_def aq_ExpireTransactions_def Let_def ready_sync_def split: option.split prod.split)
  show "set (aq_getTransactions (fst (expire_op now mx a))) \<subseteq> set (aq_getTransactions a) \<union> {}"
    using expire_loop_subset [of now mx "notReadyTxs a" "notReadyTxs a" "[]"]
    by (simp add: expire_op_def aq_ExpireTransactions_def Let_def aq_getTransactions_def split_beta
        split: option.split) blast
qed

end
