(* ===== verification/TxSortedList.thy ===== *)
theory TxSortedList
  imports TxTracking
begin

text \<open>
  The list of ready transactions ordered by gas price (\<open>sequencer/txsorted_list.go\<close>).
  The mutex of the struct makes each method atomic, so each is one function. \<open>None\<close> is a
  panic: the comparison function dereferences \<open>e.list[hash]\<close>, which is nil when the map and
  the slice disagree. The invariant \<open>tsl_wf\<close> says that they agree and that the slice is
  sorted; it excludes every panic.
\<close>

record txSortedList =
  tsl_list :: "string \<rightharpoonup> TxTracker"
  tsl_sorted :: "TxTracker list"

definition newTxSortedList :: txSortedList where
  "newTxSortedList = \<lparr>tsl_list = Map.empty, tsl_sorted = []\<rparr>"

definition isGreaterThan :: "TxTracker \<Rightarrow> TxTracker \<Rightarrow> bool" where
  "isGreaterThan tx1 tx2 = (let cmp = big_Cmp (GasPrice tx1) (GasPrice tx2) in if cmp = 1 then True else False)"

definition isGreaterOrEqualThan :: "TxTracker \<Rightarrow> TxTracker \<Rightarrow> bool" where
  "isGreaterOrEqualThan tx1 tx2 = (let cmp = big_Cmp (GasPrice tx1) (GasPrice tx2) in if cmp \<ge> 0 then True else False)"

definition addSort :: "txSortedList \<Rightarrow> TxTracker \<Rightarrow> txSortedList option" where
  "addSort e tx = do {
     i \<leftarrow> sort_Search (length (tsl_sorted e))
            (\<lambda>i. map_option (isGreaterThan tx) (tsl_list e (HashStr (tsl_sorted e ! i))));
     Some (e\<lparr>tsl_sorted := insert_nth i tx (tsl_sorted e)\<rparr>)
   }"

definition tsl_add :: "txSortedList \<Rightarrow> TxTracker \<Rightarrow> (txSortedList \<times> bool) option" where
  "tsl_add e tx =
     (case tsl_list e (HashStr tx) of
        None \<Rightarrow> do {
          e' \<leftarrow> addSort (e\<lparr>tsl_list := (tsl_list e)(HashStr tx \<mapsto> tx)\<rparr>) tx;
          Some (e', True)
        }
      | Some _ \<Rightarrow> Some (e, False))"

text \<open>
  The loop of \<open>delete\<close> that walks down from the first transaction with the same gas price.
  \<open>Some None\<close> is the loop's failure exit, \<open>None\<close> an index out of range.
\<close>

function delete_find :: "TxTracker list \<Rightarrow> TxTracker \<Rightarrow> nat \<Rightarrow> nat option option" where
  "delete_find txs tx i =
     (if i = length txs then Some None
      else if i > length txs then None
      else if big_Cmp (GasPrice (txs ! i)) (GasPrice tx) \<noteq> 0 then Some None
      else if HashStr (txs ! i) = HashStr tx then Some (Some i)
      else delete_find txs tx (i + 1))"
  by pat_completeness auto
termination
  by (relation "measure (\<lambda>(txs, tx, i). length txs - i)") auto

declare delete_find.simps [simp del]

definition tsl_delete :: "txSortedList \<Rightarrow> TxTracker \<Rightarrow> (txSortedList \<times> bool) option" where
  "tsl_delete e tx0 =
     (case tsl_list e (HashStr tx0) of
        Some tx \<Rightarrow> do {
          i \<leftarrow> sort_Search (length (tsl_sorted e))
                 (\<lambda>i. map_option (isGreaterOrEqualThan tx) (tsl_list e (HashStr (tsl_sorted e ! i))));
          found \<leftarrow> delete_find (tsl_sorted e) tx i;
          case found of
            None \<Rightarrow> Some (e, False)
          | Some i \<Rightarrow> Some (e\<lparr>tsl_list := (tsl_list e)(HashStr tx := None),
                              tsl_sorted := remove_nth i (tsl_sorted e)\<rparr>, True)
        }
      | None \<Rightarrow> Some (e, False))"

definition tsl_getByIndex :: "txSortedList \<Rightarrow> nat \<Rightarrow> TxTracker option" where
  "tsl_getByIndex e i = (if i < length (tsl_sorted e) then Some (tsl_sorted e ! i) else None)"

definition tsl_len :: "txSortedList \<Rightarrow> nat" where
  "tsl_len e = length (tsl_sorted e)"

definition tsl_GetSorted :: "txSortedList \<Rightarrow> TxTracker list" where
  "tsl_GetSorted e = tsl_sorted e"

section \<open>Invariant\<close>

abbreviation by_hash :: "TxTracker list \<Rightarrow> string \<rightharpoonup> TxTracker" where
  "by_hash txs \<equiv> map_of (map (\<lambda>t. (HashStr t, t)) txs)"

abbreviation price_desc :: "TxTracker list \<Rightarrow> bool" where
  "price_desc txs \<equiv> sorted_wrt (\<lambda>a b. GasPrice b \<le> GasPrice a) txs"

definition tsl_wf :: "txSortedList \<Rightarrow> bool" where
  "tsl_wf e \<longleftrightarrow> price_desc (tsl_sorted e) \<and> distinct (map HashStr (tsl_sorted e)) \<and>
     tsl_list e = by_hash (tsl_sorted e)"

lemma tsl_wf_new [simp, wf_intros]: "tsl_wf newTxSortedList"
  by (simp add: tsl_wf_def newTxSortedList_def)

lemma by_hash_nth: "distinct (map HashStr txs) \<Longrightarrow> i < length txs \<Longrightarrow> by_hash txs (HashStr (txs ! i)) = Some (txs ! i)"
  by (simp add: map_of_eq_Some_iff comp_def image_def)

lemma by_hash_iff: "distinct (map HashStr txs) \<Longrightarrow> by_hash txs h = Some t \<longleftrightarrow> t \<in> set txs \<and> HashStr t = h"
  by (auto simp: map_of_eq_Some_iff comp_def image_def)

lemma by_hash_None: "by_hash txs h = None \<longleftrightarrow> h \<notin> HashStr ` set txs"
  by (simp add: map_of_eq_None_iff image_image)

lemma isGreaterThan_iff [simp]: "isGreaterThan a b \<longleftrightarrow> GasPrice b < GasPrice a"
  by (simp add: isGreaterThan_def)

lemma isGreaterOrEqualThan_iff [simp]: "isGreaterOrEqualThan a b \<longleftrightarrow> GasPrice b \<le> GasPrice a"
  by (simp add: isGreaterOrEqualThan_def)

section \<open>Insertion\<close>

text \<open>
  The position that the binary search finds: after every transaction with the same or a higher
  gas price. So transactions with the same price leave the list in the order they arrived.
\<close>

definition insert_by_price :: "TxTracker \<Rightarrow> TxTracker list \<Rightarrow> TxTracker list" where
  "insert_by_price tx txs =
     filter (\<lambda>t. GasPrice tx \<le> GasPrice t) txs @ tx # filter (\<lambda>t. GasPrice t < GasPrice tx) txs"

lemma price_desc_nth: "price_desc txs \<Longrightarrow> a \<le> b \<Longrightarrow> b < length txs \<Longrightarrow> GasPrice (txs ! b) \<le> GasPrice (txs ! a)"
  by (cases "a = b") (auto simp: sorted_wrt_iff_nth_less)

lemma addSort_spec:
  assumes "price_desc (tsl_sorted e)"
    and lk: "\<And>t. t \<in> set (tsl_sorted e) \<Longrightarrow> tsl_list e (HashStr t) = Some t"
  shows "addSort e tx = Some (e\<lparr>tsl_sorted := insert_by_price tx (tsl_sorted e)\<rparr>)"
proof -
  let ?xs = "tsl_sorted e"
  let ?P = "\<lambda>t. GasPrice t < GasPrice tx"
  obtain r where r: "sort_Search (length ?xs)
      (\<lambda>i. map_option (isGreaterThan tx) (tsl_list e (HashStr (?xs ! i)))) = Some r"
    "r \<le> length ?xs" "\<And>k. k < r \<Longrightarrow> \<not> ?P (?xs ! k)"
    "\<And>k. r \<le> k \<Longrightarrow> k < length ?xs \<Longrightarrow> ?P (?xs ! k)"
  proof (rule sort_Search_least)
    fix k assume "k < length ?xs"
    then show "map_option (isGreaterThan tx) (tsl_list e (HashStr (?xs ! k))) = Some (?P (?xs ! k))"
      by (simp add: lk)
  next
    fix a b assume "a \<le> b" "b < length ?xs" "?P (?xs ! a)"
    then show "?P (?xs ! b)" using price_desc_nth [OF assms(1)] by fastforce
  qed blast
  have "insert_nth r tx ?xs = insert_by_price tx ?xs"
    using split_at_filter [of r ?xs ?P, OF r(2,3,4)]
    by (simp add: insert_nth_def insert_by_price_def not_less)
  then show ?thesis using r(1) by (simp add: addSort_def)
qed

lemma set_insert_by_price [simp]: "set (insert_by_price tx txs) = insert tx (set txs)"
  by (auto simp: insert_by_price_def)

lemma price_desc_insert: "price_desc txs \<Longrightarrow> price_desc (insert_by_price tx txs)"
  by (auto simp: insert_by_price_def sorted_wrt_append sorted_wrt_filter)

lemma mset_insert_by_price [simp]: "mset (insert_by_price tx txs) = add_mset tx (mset txs)"
proof -
  have "mset txs = filter_mset (\<lambda>t. GasPrice tx \<le> GasPrice t) (mset txs) +
      filter_mset (\<lambda>t. \<not> GasPrice tx \<le> GasPrice t) (mset txs)"
    by (rule multiset_partition)
  then show ?thesis by (simp add: insert_by_price_def not_le)
qed

lemma distinct_insert_by_price:
  assumes "distinct (map HashStr txs)" and "HashStr tx \<notin> HashStr ` set txs"
  shows "distinct (map HashStr (insert_by_price tx txs))"
proof -
  have "mset (map HashStr (insert_by_price tx txs)) = mset (map HashStr (tx # txs))" by simp
  then have "distinct (map HashStr (insert_by_price tx txs)) = distinct (map HashStr (tx # txs))"
    by (rule mset_eq_imp_distinct_iff)
  then show ?thesis using assms by simp
qed

lemma by_hash_insert:
  assumes "distinct (map HashStr txs)" and "HashStr tx \<notin> HashStr ` set txs"
  shows "by_hash (insert_by_price tx txs) = (by_hash txs)(HashStr tx \<mapsto> tx)"
proof
  fix h
  have d: "distinct (map HashStr (insert_by_price tx txs))"
    using assms by (rule distinct_insert_by_price)
  show "by_hash (insert_by_price tx txs) h = ((by_hash txs)(HashStr tx \<mapsto> tx)) h"
  proof (cases "by_hash (insert_by_price tx txs) h")
    case None
    then have "h \<noteq> HashStr tx" "by_hash txs h = None" by (auto simp: by_hash_None)
    then show ?thesis using None by simp
  next
    case (Some t)
    then have t: "t \<in> insert tx (set txs)" "HashStr t = h" by (auto simp: by_hash_iff [OF d])
    then have "((by_hash txs)(HashStr tx \<mapsto> tx)) h = Some t"
      using image_neq [OF assms(2), of t] by (cases "t = tx") (auto simp: by_hash_iff [OF assms(1)])
    then show ?thesis using Some by simp
  qed
qed

text \<open>\<open>add\<close> on every branch, without a panic.\<close>

lemma tsl_add_new:
  assumes "tsl_wf e" and "HashStr tx \<notin> HashStr ` set (tsl_sorted e)"
  shows "tsl_add e tx = Some (\<lparr>tsl_list = (tsl_list e)(HashStr tx \<mapsto> tx),
     tsl_sorted = insert_by_price tx (tsl_sorted e)\<rparr>, True)"
proof -
  let ?e = "e\<lparr>tsl_list := (tsl_list e)(HashStr tx \<mapsto> tx)\<rparr>"
  have "addSort ?e tx = Some (?e\<lparr>tsl_sorted := insert_by_price tx (tsl_sorted ?e)\<rparr>)"
  proof (rule addSort_spec)
    show "price_desc (tsl_sorted ?e)" using assms(1) by (simp add: tsl_wf_def)
    fix t assume "t \<in> set (tsl_sorted ?e)"
    moreover from this have "HashStr t \<noteq> HashStr tx" using image_neq [OF assms(2)] by simp
    ultimately show "tsl_list ?e (HashStr t) = Some t"
      using assms(1) by (simp add: tsl_wf_def by_hash_iff)
  qed
  moreover have "tsl_list e (HashStr tx) = None"
    using assms by (simp add: tsl_wf_def by_hash_None)
  ultimately show ?thesis by (simp add: tsl_add_def)
qed

lemma tsl_add_dup:
  assumes "tsl_wf e" and "HashStr tx \<in> HashStr ` set (tsl_sorted e)"
  shows "tsl_add e tx = Some (e, False)"
proof -
  obtain t where "tsl_list e (HashStr tx) = Some t"
    using assms by (cases "tsl_list e (HashStr tx)") (auto simp: tsl_wf_def by_hash_None)
  then show ?thesis by (simp add: tsl_add_def)
qed

lemma tsl_wf_add:
  assumes "tsl_wf e" and "tsl_add e tx = Some (e', ok)" shows "tsl_wf e'"
proof (cases "HashStr tx \<in> HashStr ` set (tsl_sorted e)")
  case True
  then show ?thesis using assms tsl_add_dup by fastforce
next
  case False
  then have "e' = \<lparr>tsl_list = (tsl_list e)(HashStr tx \<mapsto> tx), tsl_sorted = insert_by_price tx (tsl_sorted e)\<rparr>"
    using assms tsl_add_new by fastforce
  then show ?thesis using assms(1) False
    by (simp add: tsl_wf_def price_desc_insert distinct_insert_by_price by_hash_insert)
qed

section \<open>Deletion\<close>

lemma delete_find_hit:
  assumes "i \<le> k" and "k < length txs"
    and "\<And>j. i \<le> j \<Longrightarrow> j \<le> k \<Longrightarrow> GasPrice (txs ! j) = GasPrice tx"
    and "HashStr (txs ! k) = HashStr tx"
    and "\<And>j. j < k \<Longrightarrow> HashStr (txs ! j) \<noteq> HashStr tx"
  shows "delete_find txs tx i = Some (Some k)"
  using assms
proof (induction txs tx i rule: delete_find.induct)
  case (1 txs tx i)
  show ?case
  proof (cases "i = k")
    case True
    then show ?thesis using "1.prems" by (subst delete_find.simps) auto
  next
    case False
    then have "delete_find txs tx (i + 1) = Some (Some k)"
      using "1.prems" by (intro "1.IH") auto
    then show ?thesis using "1.prems" False by (subst delete_find.simps) auto
  qed
qed

lemma remove_nth_by_hash:
  assumes "distinct (map HashStr txs)" and "k < length txs"
  shows "remove_nth k txs = filter (\<lambda>t. HashStr t \<noteq> HashStr (txs ! k)) txs"
proof -
  have txs: "txs = take k txs @ txs ! k # drop (Suc k) txs"
    using assms(2) by (rule mset_split_nth)
  have "distinct (map HashStr (take k txs @ txs ! k # drop (Suc k) txs))"
    using assms(1) txs by simp
  then have "\<forall>t\<in>set (take k txs @ drop (Suc k) txs). HashStr t \<noteq> HashStr (txs ! k)"
    by (auto dest: image_neq)
  then have "filter (\<lambda>t. HashStr t \<noteq> HashStr (txs ! k)) (take k txs @ txs ! k # drop (Suc k) txs)
      = take k txs @ drop (Suc k) txs"
    by (auto simp: filter_id_conv)
  then show ?thesis using txs by (simp add: remove_nth_def)
qed

lemma by_hash_filter:
  assumes "distinct (map HashStr txs)"
  shows "by_hash (filter (\<lambda>t. HashStr t \<noteq> h) txs) = (by_hash txs)(h := None)"
proof
  fix h'
  have d: "distinct (map HashStr (filter (\<lambda>t. HashStr t \<noteq> h) txs))"
    using assms by (rule distinct_map_filter)
  show "by_hash (filter (\<lambda>t. HashStr t \<noteq> h) txs) h' = ((by_hash txs)(h := None)) h'"
  proof (cases "by_hash (filter (\<lambda>t. HashStr t \<noteq> h) txs) h'")
    case None
    then have "h' = h \<or> by_hash txs h' = None" by (auto simp: by_hash_None)
    then show ?thesis using None by auto
  next
    case (Some t)
    then have "h' \<noteq> h" "by_hash txs h' = Some t"
      by (auto simp: by_hash_iff [OF d] by_hash_iff [OF assms])
    then show ?thesis using Some by simp
  qed
qed

text \<open>\<open>delete\<close> on every branch, without a panic.\<close>

lemma tsl_delete_hit:
  assumes wf: "tsl_wf e" and "HashStr tx0 \<in> HashStr ` set (tsl_sorted e)"
  shows "tsl_delete e tx0 = Some (\<lparr>tsl_list = (tsl_list e)(HashStr tx0 := None),
     tsl_sorted = filter (\<lambda>t. HashStr t \<noteq> HashStr tx0) (tsl_sorted e)\<rparr>, True)"
proof -
  let ?xs = "tsl_sorted e"
  have ds: "price_desc ?xs" and d: "distinct (map HashStr ?xs)" and l: "tsl_list e = by_hash ?xs"
    using wf by (simp_all add: tsl_wf_def)
  obtain k where k: "k < length ?xs" "HashStr (?xs ! k) = HashStr tx0"
    using assms(2) by (auto simp: in_set_conv_nth)
  define tx where "tx = ?xs ! k"
  have stored: "tsl_list e (HashStr tx0) = Some tx"
    using by_hash_nth [OF d k(1)] k(2) by (simp add: l tx_def)
  let ?P = "\<lambda>t. GasPrice t \<le> GasPrice tx"
  obtain r where r: "sort_Search (length ?xs)
      (\<lambda>i. map_option (isGreaterOrEqualThan tx) (tsl_list e (HashStr (?xs ! i)))) = Some r"
    "r \<le> length ?xs" "\<And>j. j < r \<Longrightarrow> \<not> ?P (?xs ! j)"
    "\<And>j. r \<le> j \<Longrightarrow> j < length ?xs \<Longrightarrow> ?P (?xs ! j)"
  proof (rule sort_Search_least)
    fix j assume "j < length ?xs"
    then show "map_option (isGreaterOrEqualThan tx) (tsl_list e (HashStr (?xs ! j))) = Some (?P (?xs ! j))"
      using by_hash_nth [OF d] by (simp add: l)
  next
    fix a b assume "a \<le> b" "b < length ?xs" "?P (?xs ! a)"
    then show "?P (?xs ! b)" using price_desc_nth [OF ds] by fastforce
  qed blast
  have "r \<le> k" using r(3) [of k] by (fastforce simp: tx_def not_le [symmetric])
  have "delete_find ?xs tx r = Some (Some k)"
  proof (rule delete_find_hit [OF \<open>r \<le> k\<close> k(1)])
    fix j assume "r \<le> j" "j \<le> k"
    then show "GasPrice (?xs ! j) = GasPrice tx"
      using r(4) [of j] price_desc_nth [OF ds, of j k] k(1) by (simp add: tx_def)
  next
    fix j assume "j < k"
    then show "HashStr (?xs ! j) \<noteq> HashStr tx"
      using d k(1) by (auto simp: tx_def distinct_conv_nth)
  qed (simp add: tx_def)
  then show ?thesis
    using stored r(1) k remove_nth_by_hash [OF d k(1)] by (simp add: tsl_delete_def tx_def)
qed

lemma tsl_delete_miss:
  assumes "tsl_wf e" and "HashStr tx0 \<notin> HashStr ` set (tsl_sorted e)"
  shows "tsl_delete e tx0 = Some (e, False)"
proof -
  have "tsl_list e (HashStr tx0) = None" using assms by (simp add: tsl_wf_def by_hash_None)
  then show ?thesis by (simp add: tsl_delete_def)
qed

lemma tsl_wf_filter:
  "tsl_wf e \<Longrightarrow> tsl_wf \<lparr>tsl_list = (tsl_list e)(h := None),
     tsl_sorted = filter (\<lambda>t. HashStr t \<noteq> h) (tsl_sorted e)\<rparr>"
  by (simp add: tsl_wf_def sorted_wrt_filter distinct_map_filter by_hash_filter)

lemma tsl_wf_delete:
  assumes "tsl_wf e" and "tsl_delete e tx = Some (e', ok)" shows "tsl_wf e'"
proof (cases "HashStr tx \<in> HashStr ` set (tsl_sorted e)")
  case True
  then show ?thesis using assms tsl_delete_hit tsl_wf_filter by fastforce
next
  case False
  then show ?thesis using assms tsl_delete_miss by fastforce
qed

text \<open>In a list sorted by price the two halves around a price are already in order.\<close>

lemma price_desc_partition:
  "price_desc txs \<Longrightarrow> filter (\<lambda>t. p \<le> GasPrice t) txs @ filter (\<lambda>t. GasPrice t < p) txs = txs"
proof (induction txs)
  case Nil
  then show ?case by simp
next
  case (Cons t txs)
  show ?case
  proof (cases "p \<le> GasPrice t")
    case True
    then show ?thesis using Cons by simp
  next
    case False
    then have "filter (\<lambda>t. p \<le> GasPrice t) txs = []" "filter (\<lambda>t. GasPrice t < p) txs = txs"
      using Cons.prems by (auto simp: filter_empty_conv filter_id_conv not_le)
    then show ?thesis using False by simp
  qed
qed

section \<open>The interface used by the worker\<close>

text \<open>
  A price-ordered collection keyed by the transaction hash. The worker's proofs use only these
  laws: operations do not panic on well-formed lists, and their effect on the set of entries.
\<close>

locale ready_list =
  fixes wf :: "'l \<Rightarrow> bool"
    and elems :: "'l \<Rightarrow> TxTracker list"
    and add :: "'l \<Rightarrow> TxTracker \<Rightarrow> ('l \<times> bool) option"
    and del :: "'l \<Rightarrow> TxTracker \<Rightarrow> ('l \<times> bool) option"
  assumes wf_distinct: "wf e \<Longrightarrow> distinct (map HashStr (elems e))"
    and wf_sorted: "wf e \<Longrightarrow> price_desc (elems e)"
    and add_total: "wf e \<Longrightarrow> \<exists>e'. add e tx = Some (e', HashStr tx \<notin> HashStr ` set (elems e)) \<and> wf e' \<and>
       elems e' = (if HashStr tx \<in> HashStr ` set (elems e) then elems e else insert_by_price tx (elems e))"
    and del_total: "wf e \<Longrightarrow> \<exists>e'. del e tx = Some (e', HashStr tx \<in> HashStr ` set (elems e)) \<and> wf e' \<and>
       elems e' = filter (\<lambda>t. HashStr t \<noteq> HashStr tx) (elems e)"
begin

lemma elems_inj: "wf e \<Longrightarrow> t \<in> set (elems e) \<Longrightarrow> u \<in> set (elems e) \<Longrightarrow> HashStr t = HashStr u \<Longrightarrow> t = u"
  using wf_distinct by (metis distinct_map inj_onD)

lemma add_elems:
  assumes "wf e" and "HashStr tx \<notin> HashStr ` set (elems e)"
  obtains e' where "add e tx = Some (e', True)" "wf e'" "set (elems e') = insert tx (set (elems e))"
  using add_total [OF assms(1), of tx] assms(2) by auto

text \<open>Adding a new transaction and deleting it again gives the same sequence of entries.\<close>

lemma add_del:
  assumes "wf e" and "HashStr tx \<notin> HashStr ` set (elems e)"
  shows "\<exists>e1 e2. add e tx = Some (e1, True) \<and> del e1 tx = Some (e2, True) \<and> wf e2 \<and> elems e2 = elems e"
proof -
  obtain e1 where e1: "add e tx = Some (e1, True)" "wf e1" "elems e1 = insert_by_price tx (elems e)"
    using add_total [OF assms(1), of tx] assms(2) by auto
  obtain e2 where e2: "del e1 tx = Some (e2, HashStr tx \<in> HashStr ` set (elems e1))" "wf e2"
      "elems e2 = filter (\<lambda>t. HashStr t \<noteq> HashStr tx) (elems e1)"
    using del_total [OF e1(2), of tx] by blast
  have hs: "\<And>t. t \<in> set (elems e) \<Longrightarrow> HashStr t \<noteq> HashStr tx" by (rule image_neq [OF assms(2)])
  then have "elems e2 = filter (\<lambda>t. GasPrice tx \<le> GasPrice t) (elems e) @
      filter (\<lambda>t. GasPrice t < GasPrice tx) (elems e)"
    by (auto simp: e2(3) e1(3) insert_by_price_def intro!: filter_cong arg_cong2 [where f = "(@)"])
  also have "\<dots> = elems e"
    using price_desc_partition [OF wf_sorted [OF assms(1)]] by simp
  finally show ?thesis using e1 e2 by auto
qed

end

interpretation tsl: ready_list tsl_wf tsl_sorted tsl_add tsl_delete
proof unfold_locales
  fix e tx
  assume wf: "tsl_wf e"
  show "distinct (map HashStr (tsl_sorted e))" "price_desc (tsl_sorted e)"
    using wf by (simp_all add: tsl_wf_def)
  show "\<exists>e'. tsl_add e tx = Some (e', HashStr tx \<notin> HashStr ` set (tsl_sorted e)) \<and> tsl_wf e' \<and>
     tsl_sorted e' = (if HashStr tx \<in> HashStr ` set (tsl_sorted e) then tsl_sorted e
       else insert_by_price tx (tsl_sorted e))"
    using wf tsl_add_new [OF wf, of tx] tsl_add_dup [OF wf, of tx] tsl_wf_add [OF wf]
    by (cases "HashStr tx \<in> HashStr ` set (tsl_sorted e)") auto
  show "\<exists>e'. tsl_delete e tx = Some (e', HashStr tx \<in> HashStr ` set (tsl_sorted e)) \<and> tsl_wf e' \<and>
     tsl_sorted e' = filter (\<lambda>t. HashStr t \<noteq> HashStr tx) (tsl_sorted e)"
  proof (cases "HashStr tx \<in> HashStr ` set (tsl_sorted e)")
    case True
    then show ?thesis using wf tsl_delete_hit tsl_wf_filter by fastforce
  next
    case False
    then have "filter (\<lambda>t. HashStr t \<noteq> HashStr tx) (tsl_sorted e) = tsl_sorted e"
      by (auto simp: filter_id_conv dest: image_neq)
    then show ?thesis using False wf tsl_delete_miss by fastforce
  qed
qed

end
