(* ===== verification/Worker.thy ===== *)
theory Worker
  imports AddrQueue TxSortedList
begin

text \<open>
  The worker of the sequencer (\<open>sequencer/worker.go\<close>, \<open>worker_xlayer.go\<close>): the address
  queues, the sorted list of their ready transactions, and the transactions that wait to be
  stored or to be replayed after a reorganisation. Every exported method holds the worker's
  mutex, so each is one function on the worker; the one method that gives the mutex up half-way
  (\<open>AddTxTracker\<close>, while it reads a new account from the state) is split there.

  \<open>None\<close> is a panic. The functions of other packages that the worker calls are
  arguments: \<open>worker_env\<close> (string forms of hashes and addresses, the check of IP addresses)
  and \<open>stateIntf\<close> (the account data behind a state root).
\<close>

section \<open>State\<close>

record worker_env =
  hash_str :: "hash \<Rightarrow> string"
  addr_str :: "address \<Rightarrow> string"
  validIP :: "string \<Rightarrow> bool"

record stateIntf =
  GetLastStateRoot :: "string + hash"
  GetNonceByStateRoot :: "address \<Rightarrow> hash \<Rightarrow> string + bigint"
  GetBalanceByStateRoot :: "address \<Rightarrow> hash \<Rightarrow> string + bigint"

record InfoReadWrite =
  irw_Address :: address
  irw_Nonce :: "uint64 option"
  irw_Balance :: "bigint option"

text \<open>
  \<open>readySignals\<close> counts the signals sent on \<open>readyTxsCond\<close>; the mutex and the state
  interface are not part of the record.
\<close>

record Worker =
  pool :: "(string, addrQueue) gomap"
  w_sorted :: txSortedList
  pendingToStore :: "TxTracker list"
  reorgedTxs :: "TxTracker list"
  batchConstraints :: BatchConstraintsCfg
  wipTx :: "TxTracker option"
  claimGp :: bigint
  readyTxCounter :: "(string, uint64) gomap"
  readySignals :: nat

definition NewWorker :: "BatchConstraintsCfg \<Rightarrow> Worker" where
  "NewWorker constraints =
     \<lparr>pool = [], w_sorted = newTxSortedList, pendingToStore = [], reorgedTxs = [],
      batchConstraints = constraints, wipTx = None, claimGp = 0, readyTxCounter = [], readySignals = 0\<rparr>"

section \<open>Ready transactions\<close>

definition addTxToSortedList :: "Worker \<Rightarrow> TxTracker \<Rightarrow> Worker option" where
  "addTxToSortedList w tx = do {
     (l, added) \<leftarrow> tsl_add (w_sorted w) tx;
     let w = w\<lparr>w_sorted := l\<rparr>;
     Some (if tsl_len l = 1 then w\<lparr>readySignals := readySignals w + 1\<rparr> else w)
   }"

definition deleteReadyTxCounter :: "Worker \<Rightarrow> string \<Rightarrow> Worker" where
  "deleteReadyTxCounter w addr = w\<lparr>readyTxCounter := AList.delete addr (readyTxCounter w)\<rparr>"

definition setReadyTxCounter :: "Worker \<Rightarrow> string \<Rightarrow> uint64 \<Rightarrow> Worker" where
  "setReadyTxCounter w addr cnt = w\<lparr>readyTxCounter := AList.update addr cnt (readyTxCounter w)\<rparr>"

definition CountReadyTx :: "Worker \<Rightarrow> uint64" where
  "CountReadyTx w = foldl (\<lambda>cnt (_, c). cnt + c) 0 (readyTxCounter w)"

text \<open>
  The update of the sorted list after a change of an address queue \<open>q\<close>, the same in
  \<open>addTxTracker\<close> and \<open>applyAddressUpdate\<close>.
\<close>

definition update_sorted :: "Worker \<Rightarrow> addrQueue \<Rightarrow> TxTracker option \<Rightarrow> TxTracker option \<Rightarrow> Worker option" where
  "update_sorted w q newReadyTx prevReadyTx = do {
     w \<leftarrow> (case prevReadyTx of
             Some prev \<Rightarrow> do {
               (l, _) \<leftarrow> tsl_delete (w_sorted w) prev;
               Some (deleteReadyTxCounter (w\<lparr>w_sorted := l\<rparr>) (FromStr prev))
             }
           | None \<Rightarrow> Some w);
     (case newReadyTx of
        Some new \<Rightarrow> do {
          w \<leftarrow> addTxToSortedList w new;
          Some (setReadyTxCounter w (fromStr q) (aq_GetTxCount q))
        }
      | None \<Rightarrow> Some w)
   }"

section \<open>Adding transactions\<close>

text \<open>
  The first part of \<open>addTxTracker\<close>, up to the lookup of the queue: an error, or the queue if
  there is one.
\<close>

definition addTx_begin :: "worker_env \<Rightarrow> Worker \<Rightarrow> TxTracker \<Rightarrow> seq_error + addrQueue option" where
  "addTx_begin env w tx =
     (if IP tx \<noteq> [] \<and> \<not> validIP env (IP tx) then Inl ErrInvalidIP
      else if CheckNodeLevelOOC (batchConstraints w) (ReservedZKCounters tx) \<noteq> None then Inl ErrOutOfCounters
      else if (case wipTx w of Some wip \<Rightarrow> FromStr wip = FromStr tx \<and> Nonce wip = Nonce tx | None \<Rightarrow> False)
      then Inl ErrDuplicatedNonce
      else Inr (map_of (pool w) (FromStr tx)))"

text \<open>The part between the two critical sections: the account is read from the state.\<close>

definition addTx_newQueue :: "worker_env \<Rightarrow> stateIntf \<Rightarrow> TxTracker \<Rightarrow> seq_error + addrQueue" where
  "addTx_newQueue env st tx =
     (case GetLastStateRoot st of
        Inl err \<Rightarrow> Inl (ErrStateAccess err)
      | Inr root \<Rightarrow>
          (case GetNonceByStateRoot st (From tx) root of
             Inl err \<Rightarrow> Inl (ErrStateAccess err)
           | Inr nonce \<Rightarrow>
               (case GetBalanceByStateRoot st (From tx) root of
                  Inl err \<Rightarrow> Inl (ErrStateAccess err)
                | Inr balance \<Rightarrow>
                    Inr (newAddrQueue (addr_str env) (From tx) (word_of_int nonce) balance))))"

text \<open>
  The last part: the queue (the one found, or the new one, which is stored in the pool first)
  takes the transaction. The results are replacedTx and dropReason.
\<close>

definition addTx_finish :: "Worker \<Rightarrow> addrQueue \<Rightarrow> TxTracker \<Rightarrow>
    (Worker \<times> TxTracker option \<times> seq_error option) option" where
  "addTx_finish w addr tx =
     (let (addr', newReadyTx, prevReadyTx, repTx, dropReason) = aq_addTx addr tx;
          w = w\<lparr>pool := AList.update (FromStr tx) addr' (pool w)\<rparr>
      in if dropReason \<noteq> None then Some (w, repTx, dropReason)
         else do {
           w \<leftarrow> update_sorted w addr' newReadyTx prevReadyTx;
           Some (w, repTx, None)
         })"

definition addTxTracker :: "worker_env \<Rightarrow> stateIntf \<Rightarrow> Worker \<Rightarrow> TxTracker \<Rightarrow>
    (Worker \<times> TxTracker option \<times> seq_error option) option" where
  "addTxTracker env st w tx =
     (case addTx_begin env w tx of
        Inl err \<Rightarrow> Some (w, None, Some err)
      | Inr (Some q) \<Rightarrow> addTx_finish w q tx
      | Inr None \<Rightarrow>
          (case addTx_newQueue env st tx of
             Inl err \<Rightarrow> Some (w, None, Some err)
           | Inr q \<Rightarrow> addTx_finish w q tx))"

section \<open>Account updates\<close>

definition applyAddressUpdate :: "worker_env \<Rightarrow> Worker \<Rightarrow> address \<Rightarrow> uint64 option \<Rightarrow> bigint option \<Rightarrow>
    (Worker \<times> TxTracker option \<times> TxTracker option \<times> TxTracker list) option" where
  "applyAddressUpdate env w from fromNonce fromBalance =
     (case map_of (pool w) (addr_str env from) of
        Some q \<Rightarrow>
          (let (q', newReadyTx, prevReadyTx, txsToDelete) = updateCurrentNonceBalance q fromNonce fromBalance;
               w = w\<lparr>pool := AList.update (addr_str env from) q' (pool w)\<rparr>
           in do {
             w \<leftarrow> update_sorted w q' newReadyTx prevReadyTx;
             Some (w, newReadyTx, prevReadyTx, txsToDelete)
           })
      | None \<Rightarrow> Some (w, None, None, []))"

fun update_touched :: "worker_env \<Rightarrow> address \<Rightarrow> (address, InfoReadWrite) gomap \<Rightarrow> Worker \<Rightarrow> TxTracker list \<Rightarrow>
    (Worker \<times> TxTracker list) option" where
  "update_touched env from [] w txsToDelete = Some (w, txsToDelete)"
| "update_touched env from ((addr, info) # rest) w txsToDelete =
     (if addr \<noteq> from then do {
        (w, _, _, temp) \<leftarrow> applyAddressUpdate env w addr None (irw_Balance info);
        update_touched env from rest w (txsToDelete @ temp)
      }
      else update_touched env from rest w txsToDelete)"

definition UpdateAfterSingleSuccessfulTxExecution ::
    "worker_env \<Rightarrow> Worker \<Rightarrow> address \<Rightarrow> (address, InfoReadWrite) gomap \<Rightarrow> (Worker \<times> TxTracker list) option" where
  "UpdateAfterSingleSuccessfulTxExecution env w from touchedAddresses = do {
     (w, txsToDelete) \<leftarrow>
       (case map_of touchedAddresses from of
          Some touchedFrom \<Rightarrow> do {
            (w, _, _, dels) \<leftarrow> applyAddressUpdate env w from (irw_Nonce touchedFrom) (irw_Balance touchedFrom);
            Some (w, dels)
          }
        | None \<Rightarrow> Some (w, []));
     update_touched env from touchedAddresses w txsToDelete
   }"

definition resetWipTx :: "Worker \<Rightarrow> hash \<Rightarrow> Worker" where
  "resetWipTx w txHash =
     (case wipTx w of Some wip \<Rightarrow> if Hash wip = txHash then w\<lparr>wipTx := None\<rparr> else w | None \<Rightarrow> w)"

definition MoveTxToNotReady :: "worker_env \<Rightarrow> Worker \<Rightarrow> hash \<Rightarrow> address \<Rightarrow> uint64 option \<Rightarrow> bigint option \<Rightarrow>
    (Worker \<times> TxTracker list) option" where
  "MoveTxToNotReady env w txHash from actualNonce actualBalance = do {
     let w = resetWipTx w txHash;
     (w, _, _, txsToDelete) \<leftarrow> applyAddressUpdate env w from actualNonce actualBalance;
     Some (w, txsToDelete)
   }"

section \<open>Deleting transactions\<close>

definition w_deleteTx :: "worker_env \<Rightarrow> Worker \<Rightarrow> hash \<Rightarrow> address \<Rightarrow> (Worker \<times> TxTracker option) option" where
  "w_deleteTx env w txHash addr =
     (case map_of (pool w) (addr_str env addr) of
        Some q \<Rightarrow>
          (let (q', deletedTx, isReady) = aq_deleteTx (hash_str env) q txHash;
               w = w\<lparr>pool := AList.update (addr_str env addr) q' (pool w)\<rparr>
           in case deletedTx of
                Some t \<Rightarrow>
                  if isReady then do {
                    (l, _) \<leftarrow> tsl_delete (w_sorted w) t;
                    Some (deleteReadyTxCounter (w\<lparr>w_sorted := l\<rparr>) (FromStr t), deletedTx)
                  }
                  else Some (w, deletedTx)
              | None \<Rightarrow> Some (w, None))
      | None \<Rightarrow> Some (w, None))"

definition DeleteTx :: "worker_env \<Rightarrow> Worker \<Rightarrow> hash \<Rightarrow> address \<Rightarrow> Worker option" where
  "DeleteTx env w txHash addr = do {
     (w, _) \<leftarrow> w_deleteTx env (resetWipTx w txHash) txHash addr;
     Some w
   }"

definition on_queue :: "worker_env \<Rightarrow> Worker \<Rightarrow> address \<Rightarrow> (addrQueue \<Rightarrow> addrQueue) \<Rightarrow> Worker" where
  "on_queue env w addr f =
     (case map_of (pool w) (addr_str env addr) of
        Some q \<Rightarrow> w\<lparr>pool := AList.update (addr_str env addr) (f q) (pool w)\<rparr>
      | None \<Rightarrow> w)"

definition AddForcedTx :: "worker_env \<Rightarrow> Worker \<Rightarrow> hash \<Rightarrow> address \<Rightarrow> Worker" where
  "AddForcedTx env w txHash addr = on_queue env w addr (\<lambda>q. aq_addForcedTx q txHash)"

definition DeleteForcedTx :: "worker_env \<Rightarrow> Worker \<Rightarrow> hash \<Rightarrow> address \<Rightarrow> Worker" where
  "DeleteForcedTx env w txHash addr = on_queue env w addr (\<lambda>q. aq_deleteForcedTx q txHash)"

section \<open>ZK counters\<close>

text \<open>Writing through a tracker's pointer reaches every holder of the object.\<close>

definition map_trackers :: "(TxTracker \<Rightarrow> TxTracker) \<Rightarrow> Worker \<Rightarrow> Worker" where
  "map_trackers f w = w\<lparr>
     pool := map (\<lambda>(k, q). (k, q\<lparr>readyTx := map_option f (readyTx q),
                                notReadyTxs := map (\<lambda>(n, t). (n, f t)) (notReadyTxs q)\<rparr>)) (pool w),
     w_sorted := \<lparr>tsl_list = (\<lambda>h. map_option f (tsl_list (w_sorted w) h)),
                  tsl_sorted = map f (tsl_sorted (w_sorted w))\<rparr>,
     pendingToStore := map f (pendingToStore w),
     reorgedTxs := map f (reorgedTxs w),
     wipTx := map_option f (wipTx w)\<rparr>"

definition UpdateTxZKCounters :: "worker_env \<Rightarrow> Worker \<Rightarrow> hash \<Rightarrow> address \<Rightarrow> ZKCounters \<Rightarrow> ZKCounters \<Rightarrow> Worker" where
  "UpdateTxZKCounters env w txHash addr used reserved =
     (case map_of (pool w) (addr_str env addr) of
        Some q \<Rightarrow>
          (case snd (aq_UpdateTxZKCounters (hash_str env) q txHash used reserved) of
             Some p \<Rightarrow> map_trackers (\<lambda>t. if tx_ptr t = p then updateZKCounters t used reserved else t) w
           | None \<Rightarrow> w)
      | None \<Rightarrow> w)"

section \<open>Transactions waiting to be stored\<close>

definition MoveTxPendingToStore :: "worker_env \<Rightarrow> Worker \<Rightarrow> hash \<Rightarrow> address \<Rightarrow> Worker option" where
  "MoveTxPendingToStore env w txHash addr = do {
     (w, deletedTx) \<leftarrow> w_deleteTx env w txHash addr;
     let w = (case deletedTx of
                Some t \<Rightarrow> w\<lparr>pendingToStore := pendingToStore w @ [t]\<rparr>
              | None \<Rightarrow> w);
     Some (on_queue env w addr (\<lambda>q. aq_addPendingTxToStore q txHash))
   }"

text \<open>
  The loop of \<open>DeleteTxPendingToStore\<close> ranges over the slice it shortens:
  \<open>append(s[:i], s[i+1:]...)\<close> moves the tail of the shared backing array \<open>arr\<close> one place down,
  while the range goes on over the original length. \<open>m\<close> is the length of the current slice;
  slicing beyond it is a panic.
\<close>

function pending_loop :: "hash \<Rightarrow> nat \<Rightarrow> TxTracker list \<Rightarrow> nat \<Rightarrow> bool \<Rightarrow> (TxTracker list \<times> bool) option" where
  "pending_loop txHash i arr m found =
     (if i < length arr then
        (if Hash (arr ! i) = txHash then
           (if i + 1 \<le> m then
              pending_loop txHash (i + 1) (take i arr @ take (m - (i + 1)) (drop (i + 1) arr) @ drop (m - 1) arr)
                (m - 1) True
            else None)
         else pending_loop txHash (i + 1) arr m found)
      else Some (take m arr, found))"
  by pat_completeness auto
termination
  by (relation "measure (\<lambda>(txHash, i, arr, m, found). length arr - i)") auto

declare pending_loop.simps [simp del]

definition DeleteTxPendingToStore :: "worker_env \<Rightarrow> Worker \<Rightarrow> hash \<Rightarrow> address \<Rightarrow> Worker option" where
  "DeleteTxPendingToStore env w txHash addr = do {
     (pending, _) \<leftarrow> pending_loop txHash 0 (pendingToStore w) (length (pendingToStore w)) False;
     Some (on_queue env (w\<lparr>pendingToStore := pending\<rparr>) addr (\<lambda>q. aq_deletePendingTxToStore q txHash))
   }"

text \<open>
  \<open>RestoreTxsPendingToStore\<close>. \<open>order\<close> is the order in which Go ranges over the set of the
  addresses of the pending transactions.
\<close>

fun restore_queues :: "worker_env \<Rightarrow> address list \<Rightarrow> Worker \<Rightarrow> TxTracker list \<Rightarrow> (Worker \<times> TxTracker list) option" where
  "restore_queues env [] w txsList = Some (w, txsList)"
| "restore_queues env (addr # order) w txsList =
     (case map_of (pool w) (addr_str env addr) of
        Some q \<Rightarrow> do {
          let txsList = txsList @ aq_getTransactions q;
          w \<leftarrow> (case readyTx q of
                  Some r \<Rightarrow> do { (l, _) \<leftarrow> tsl_delete (w_sorted w) r; Some (w\<lparr>w_sorted := l\<rparr>) }
                | None \<Rightarrow> Some w);
          restore_queues env order (w\<lparr>pool := AList.delete (addr_str env addr) (pool w)\<rparr>) txsList
        }
      | None \<Rightarrow> restore_queues env order w txsList)"

fun restore_txs :: "worker_env \<Rightarrow> stateIntf \<Rightarrow> TxTracker list \<Rightarrow> Worker \<Rightarrow> TxTracker list \<Rightarrow> TxTracker list \<Rightarrow>
    (Worker \<times> TxTracker list \<times> TxTracker list) option" where
  "restore_txs env st [] w droppedTxs replacedTxs = Some (w, droppedTxs, replacedTxs)"
| "restore_txs env st (restoredTx # rest) w droppedTxs replacedTxs = do {
     (w, replacedTx, dropReason) \<leftarrow> addTxTracker env st w restoredTx;
     let droppedTxs = (if dropReason \<noteq> None then droppedTxs @ [restoredTx] else droppedTxs);
     let droppedTxs = (if replacedTx \<noteq> None then replacedTxs @ [restoredTx] else droppedTxs);
     restore_txs env st rest w droppedTxs replacedTxs
   }"

definition RestoreTxsPendingToStore :: "worker_env \<Rightarrow> stateIntf \<Rightarrow> address list \<Rightarrow> Worker \<Rightarrow>
    (Worker \<times> TxTracker list \<times> TxTracker list) option" where
  "RestoreTxsPendingToStore env st order w = do {
     let txsList = pendingToStore w;
     let w = w\<lparr>reorgedTxs := pendingToStore w\<rparr>;
     (w, txsList) \<leftarrow> restore_queues env order w txsList;
     let w = w\<lparr>pendingToStore := [], wipTx := None\<rparr>;
     restore_txs env st txsList w [] []
   }"

section \<open>Expiry and the gas price of claims\<close>

fun expire_queues :: "(TxTracker \<Rightarrow> go_time) \<Rightarrow> int \<Rightarrow> (string, addrQueue) gomap \<Rightarrow> Worker \<Rightarrow> TxTracker list \<Rightarrow>
    (Worker \<times> TxTracker list) option" where
  "expire_queues now maxTime [] w txs = Some (w, txs)"
| "expire_queues now maxTime ((k, q) # rest) w txs =
     (let (q', subTxs, prevReadyTx) = aq_ExpireTransactions now maxTime q;
          w = w\<lparr>pool := AList.update k q' (pool w)\<rparr>
      in do {
        w \<leftarrow> (case prevReadyTx of
                Some prev \<Rightarrow> do {
                  (l, _) \<leftarrow> tsl_delete (w_sorted w) prev;
                  Some (deleteReadyTxCounter (w\<lparr>w_sorted := l\<rparr>) (FromStr prev))
                }
              | None \<Rightarrow> Some w);
        expire_queues now maxTime rest w (txs @ subTxs)
      })"

definition w_ExpireTransactions :: "(TxTracker \<Rightarrow> go_time) \<Rightarrow> int \<Rightarrow> Worker \<Rightarrow> (Worker \<times> TxTracker list) option" where
  "w_ExpireTransactions now maxTime w = expire_queues now maxTime (pool w) w []"

definition getBaseClaimGp :: "Worker \<Rightarrow> bigint \<Rightarrow> Worker \<times> bigint" where
  "getBaseClaimGp w defaultGp =
     (let w = (if big_Cmp (claimGp w) defaultGp < 0 then w\<lparr>claimGp := defaultGp\<rparr> else w)
      in (w, claimGp w))"

end
