(* ===== verification/WorkerInv.thy ===== *)
theory WorkerInv
  imports Worker
begin

text \<open>
  The invariant of the worker and its preservation: the sorted list holds exactly the ready
  transactions of the address queues. The proofs use the sorted list and the queues only
  through their interfaces (\<open>ready_list\<close> and \<open>queue_op\<close>).

  \<open>sender_of\<close> is the sender that a transaction hash determines (the hash covers the
  signature), in the string form the pool is keyed by.
\<close>

section \<open>The invariant\<close>

text \<open>What a caller guarantees about a tracker (\<open>newTxTracker\<close> builds it so).\<close>

definition tracker_ok :: "worker_env \<Rightarrow> (string \<Rightarrow> string) \<Rightarrow> TxTracker \<Rightarrow> bool" where
  "tracker_ok env so tx \<longleftrightarrow> FromStr tx = addr_str env (From tx) \<and> so (HashStr tx) = FromStr tx"

definition ready_set :: "Worker \<Rightarrow> TxTracker set" where
  "ready_set w = {t. \<exists>k q. map_of (pool w) k = Some q \<and> readyTx q = Some t}"

definition queue_ok :: "worker_env \<Rightarrow> (string \<Rightarrow> string) \<Rightarrow> string \<Rightarrow> addrQueue \<Rightarrow> bool" where
  "queue_ok env sender_of k q \<longleftrightarrow> aq_wf q \<and> fromStr q = k \<and>
     (\<forall>t \<in> set (aq_getTransactions q). tracker_ok env sender_of t \<and> FromStr t = k)"

definition w_wf :: "worker_env \<Rightarrow> (string \<Rightarrow> string) \<Rightarrow> Worker \<Rightarrow> bool" where
  "w_wf env sender_of w \<longleftrightarrow> gomap_wf (pool w) \<and> tsl_wf (w_sorted w) \<and>
     (\<forall>k q. map_of (pool w) k = Some q \<longrightarrow> queue_ok env sender_of k q) \<and>
     set (tsl_sorted (w_sorted w)) = ready_set w \<and>
     (\<forall>t \<in> set (pendingToStore w). tracker_ok env sender_of t)"

lemma w_wfD [wf_dests]:
  assumes "w_wf env so w"
  shows "gomap_wf (pool w)" "tsl_wf (w_sorted w)"
    "map_of (pool w) k = Some q \<Longrightarrow> queue_ok env so k q"
    "set (tsl_sorted (w_sorted w)) = ready_set w"
    "t \<in> set (pendingToStore w) \<Longrightarrow> tracker_ok env so t"
  using assms by (simp_all add: w_wf_def)

lemma w_wf_new: "w_wf env so (NewWorker c)"
  by (simp add: w_wf_def NewWorker_def ready_set_def newTxSortedList_def tsl_wf_def)

lemma queue_ok_ready:
  assumes "queue_ok env so k q" and "readyTx q = Some t"
  shows "FromStr t = k" "so (HashStr t) = k" "ready_ok q t"
proof -
  show "ready_ok q t" using assms aq_wfD(4) unfolding queue_ok_def by blast
  then show "FromStr t = k" using assms(1) by (simp add: queue_ok_def ready_ok_def)
  show "so (HashStr t) = k" using assms by (auto simp: queue_ok_def aq_getTransactions_def tracker_ok_def)
qed

lemma ready_set_from:
  assumes "w_wf env so w" and "t \<in> ready_set w"
  shows "so (HashStr t) = FromStr t"
  using assms queue_ok_ready(1,2) unfolding ready_set_def by (force dest: w_wfD(3))

lemma ready_set_key:
  assumes "w_wf env so w"
  shows "{t \<in> ready_set w. FromStr t = k} = (case map_of (pool w) k of None \<Rightarrow> {} | Some q \<Rightarrow> set_option (readyTx q))"
  using assms queue_ok_ready(1) unfolding ready_set_def by (force dest: w_wfD(3) split: option.split)

lemma ready_set_update:
  assumes "w_wf env so w"
  shows "ready_set (w\<lparr>pool := AList.update k q' (pool w)\<rparr>) = {t \<in> ready_set w. FromStr t \<noteq> k} \<union> set_option (readyTx q')"
proof -
  have "FromStr t = k'" if "map_of (pool w) k' = Some q" "readyTx q = Some t" for k' q t
    using queue_ok_ready(1) [OF w_wfD(3) [OF assms that(1)] that(2)] .
  then show ?thesis by (auto simp: ready_set_def)
qed

section \<open>Keeping the sorted list in step\<close>

lemma update_sorted_prev:
  assumes "tsl_wf (w_sorted w)"
  shows "\<exists>w'. (case prev of
             Some p \<Rightarrow> do {
               (l, _) \<leftarrow> tsl_delete (w_sorted w) p;
               Some (deleteReadyTxCounter (w\<lparr>w_sorted := l\<rparr>) (FromStr p))
             }
           | None \<Rightarrow> Some w) = Some w' \<and>
     (\<exists>l c. w' = w\<lparr>w_sorted := l, readyTxCounter := c\<rparr>) \<and> tsl_wf (w_sorted w') \<and>
     tsl_sorted (w_sorted w') = filter (\<lambda>t. \<forall>p. prev = Some p \<longrightarrow> HashStr t \<noteq> HashStr p) (tsl_sorted (w_sorted w))"
proof (cases prev)
  case None
  have "\<exists>l c. w = w\<lparr>w_sorted := l, readyTxCounter := c\<rparr>"
    by (rule exI [of _ "w_sorted w"], rule exI [of _ "readyTxCounter w"]) simp
  then show ?thesis using None assms by simp
next
  case (Some p)
  obtain l ok where "tsl_delete (w_sorted w) p = Some (l, ok)" "tsl_wf l"
    "tsl_sorted l = filter (\<lambda>t. HashStr t \<noteq> HashStr p) (tsl_sorted (w_sorted w))"
    using tsl.del_total [OF assms, of p] by blast
  then show ?thesis using Some by (auto simp: deleteReadyTxCounter_def)
qed

lemma addTxToSortedList_spec:
  assumes "tsl_wf (w_sorted w)"
  shows "\<exists>l s. addTxToSortedList w t = Some (w\<lparr>w_sorted := l, readySignals := s\<rparr>) \<and> tsl_wf l \<and>
     tsl_sorted l = (if HashStr t \<in> HashStr ` set (tsl_sorted (w_sorted w)) then tsl_sorted (w_sorted w)
       else insert_by_price t (tsl_sorted (w_sorted w)))"
proof -
  obtain l ok where l: "tsl_add (w_sorted w) t = Some (l, ok)" "tsl_wf l"
    "tsl_sorted l = (if HashStr t \<in> HashStr ` set (tsl_sorted (w_sorted w)) then tsl_sorted (w_sorted w)
       else insert_by_price t (tsl_sorted (w_sorted w)))"
    using tsl.add_total [OF assms, of t] by blast
  have "addTxToSortedList w t =
     Some (w\<lparr>w_sorted := l, readySignals := (if tsl_len l = 1 then readySignals w + 1 else readySignals w)\<rparr>)"
    using l(1) by (simp add: addTxToSortedList_def)
  then show ?thesis using l by blast
qed

text \<open>
  The two steps together, for a queue whose ready transaction changed as \<open>ready_sync\<close> says.
\<close>

lemma update_sorted_spec:
  assumes wf: "tsl_wf (w_sorted w)"
    and snd_ok: "\<And>t. t \<in> set (tsl_sorted (w_sorted w)) \<Longrightarrow> so (HashStr t) = FromStr t"
    and old: "{t \<in> set (tsl_sorted (w_sorted w)). FromStr t = k} = set_option (readyTx q)"
    and sync: "ready_sync q q' new prev"
    and new: "\<And>t. new = Some t \<Longrightarrow> so (HashStr t) = k \<and> FromStr t = k"
  shows "\<exists>l c s. update_sorted w q' new prev = Some (w\<lparr>w_sorted := l, readyTxCounter := c, readySignals := s\<rparr>) \<and>
     tsl_wf l \<and> set (tsl_sorted l) = {t \<in> set (tsl_sorted (w_sorted w)). FromStr t \<noteq> k} \<union> set_option (readyTx q')"
proof -
  let ?S = "set (tsl_sorted (w_sorted w))"
  obtain l1 c1 where 1: "(case prev of
             Some p \<Rightarrow> do {
               (l, _) \<leftarrow> tsl_delete (w_sorted w) p;
               Some (deleteReadyTxCounter (w\<lparr>w_sorted := l\<rparr>) (FromStr p))
             }
           | None \<Rightarrow> Some w) = Some (w\<lparr>w_sorted := l1, readyTxCounter := c1\<rparr>)"
    "tsl_wf l1" "set (tsl_sorted l1) = {t \<in> ?S. \<forall>p. prev = Some p \<longrightarrow> HashStr t \<noteq> HashStr p}"
    using update_sorted_prev [OF wf, of prev] by auto
  have S1: "set (tsl_sorted l1) = (if prev = None then ?S else {t \<in> ?S. FromStr t \<noteq> k})"
  proof (cases prev)
    case None
    then show ?thesis using 1(3) by simp
  next
    case (Some p)
    then have "readyTx q = Some p" using sync by (auto simp: ready_sync_def)
    then have p: "\<And>t. t \<in> ?S \<and> FromStr t = k \<longleftrightarrow> t = p" using old by auto
    have "HashStr t = HashStr p \<longleftrightarrow> FromStr t = k" if "t \<in> ?S" for t
      using tsl.elems_inj [OF wf that, of p] p [of t] p [of p] that by metis
    then show ?thesis using 1(3) Some by auto
  qed
  show ?thesis
  proof (cases new)
    case None
    have "update_sorted w q' new prev = Some (w\<lparr>w_sorted := l1, readyTxCounter := c1, readySignals := readySignals w\<rparr>)"
      using 1(1) None by (simp add: update_sorted_def)
    moreover have "set (tsl_sorted l1) = {t \<in> ?S. FromStr t \<noteq> k} \<union> set_option (readyTx q')"
      using S1 old sync None by (cases prev) (auto simp: ready_sync_def)
    ultimately show ?thesis using 1(2) by blast
  next
    case (Some t)
    have t: "so (HashStr t) = k" "FromStr t = k" using new [OF Some] by simp_all
    have q': "readyTx q' = Some t" using sync Some by (simp add: ready_sync_def)
    have clash: "u = t \<and> prev = None" if "u \<in> set (tsl_sorted l1)" "HashStr u = HashStr t" for u
    proof -
      have u: "u \<in> ?S" "FromStr u = k" using that S1 snd_ok [of u] t by (auto split: if_splits)
      then have "prev = None" using that(1) S1 by (auto split: if_splits)
      then have "readyTx q = None \<or> readyTx q = Some t" using sync Some by (auto simp: ready_sync_def)
      then show ?thesis using old u \<open>prev = None\<close> by auto
    qed
    define w1 where "w1 = w\<lparr>w_sorted := l1, readyTxCounter := c1\<rparr>"
    have l1: "w_sorted w1 = l1" by (simp add: w1_def)
    obtain l2 s2 where 2: "addTxToSortedList w1 t = Some (w1\<lparr>w_sorted := l2, readySignals := s2\<rparr>)" "tsl_wf l2"
      "tsl_sorted l2 = (if HashStr t \<in> HashStr ` set (tsl_sorted l1) then tsl_sorted l1
         else insert_by_price t (tsl_sorted l1))"
      using addTxToSortedList_spec [of w1 t] 1(2) unfolding l1 by blast
    have "set (tsl_sorted l2) = insert t (set (tsl_sorted l1))"
      using 2(3) clash by (auto split: if_splits)
    also have "\<dots> = {t \<in> ?S. FromStr t \<noteq> k} \<union> set_option (readyTx q')"
    proof (cases "prev = None")
      case False
      then show ?thesis using S1 q' by auto
    next
      case True
      then have "readyTx q = None \<or> readyTx q = Some t" using sync Some by (auto simp: ready_sync_def)
      then show ?thesis using S1 True old q' by auto
    qed
    finally have set_l2: "set (tsl_sorted l2) = {t \<in> ?S. FromStr t \<noteq> k} \<union> set_option (readyTx q')" .
    have "update_sorted w q' new prev = Some (w\<lparr>w_sorted := l2,
        readyTxCounter := AList.update (fromStr q') (aq_GetTxCount q') c1, readySignals := s2\<rparr>)"
      using 1(1) 2(1) Some by (simp add: update_sorted_def setReadyTxCounter_def w1_def)
    then show ?thesis using 2(2) set_l2 by blast
  qed
qed

section \<open>Every queue operation keeps the invariant\<close>

lemma w_wf_frame:
  assumes "w_wf env so w" and "pool w' = pool w" and "w_sorted w' = w_sorted w"
    and "set (pendingToStore w') \<subseteq> set (pendingToStore w)"
  shows "w_wf env so w'"
  using assms by (auto simp: w_wf_def ready_set_def)

lemma w_wf_put:
  assumes "w_wf env so w" and "queue_ok env so k q'"
    and "tsl_wf l" and "set (tsl_sorted l) = {t \<in> ready_set w. FromStr t \<noteq> k} \<union> set_option (readyTx q')"
    and "pool w' = AList.update k q' (pool w)" and "w_sorted w' = l"
    and "pendingToStore w' = pendingToStore w"
  shows "w_wf env so w'"
proof -
  have "ready_set w' = ready_set (w\<lparr>pool := AList.update k q' (pool w)\<rparr>)"
    using assms(5) by (simp add: ready_set_def)
  then have "set (tsl_sorted l) = ready_set w'"
    using ready_set_update [OF assms(1)] assms(4) by simp
  then show ?thesis using assms w_wfD [OF assms(1)] by (auto simp: w_wf_def)
qed

text \<open>The queue of an address, or a fresh one that is not in the pool yet.\<close>

definition queue_of :: "Worker \<Rightarrow> string \<Rightarrow> addrQueue \<Rightarrow> bool" where
  "queue_of w k q \<longleftrightarrow> map_of (pool w) k = Some q \<or> map_of (pool w) k = None \<and> readyTx q = None"

lemma queue_of_ready:
  "w_wf env so w \<Longrightarrow> queue_of w k q \<Longrightarrow> {t \<in> ready_set w. FromStr t = k} = set_option (readyTx q)"
  using ready_set_key [of env so w k] by (auto simp: queue_of_def split: option.splits)

lemma w_wf_same_ready:
  assumes "w_wf env so w" and "queue_of w k q" and "queue_ok env so k q'" and "readyTx q' = readyTx q"
    and "pool w' = AList.update k q' (pool w)" and "w_sorted w' = w_sorted w"
    and "pendingToStore w' = pendingToStore w"
  shows "w_wf env so w'"
proof (rule w_wf_put [OF assms(1,3) w_wfD(2) [OF assms(1)] _ assms(5,6,7)])
  have "ready_set w = {t \<in> ready_set w. FromStr t \<noteq> k} \<union> {t \<in> ready_set w. FromStr t = k}" by blast
  then show "set (tsl_sorted (w_sorted w)) = {t \<in> ready_set w. FromStr t \<noteq> k} \<union> set_option (readyTx q')"
    using queue_of_ready [OF assms(1,2)] assms(4) w_wfD(4) [OF assms(1)] by simp
qed

context queue_op
begin

lemma queue_ok_step:
  assumes "queue_ok env so k q" and "pre q" and "\<And>t. t \<in> extra \<Longrightarrow> tracker_ok env so t \<and> FromStr t = k"
  shows "queue_ok env so k (fst (qop q))"
  using assms keeps_wf [of q] keeps_from [of q] txs [of q] by (fastforce simp: queue_ok_def)

text \<open>
  The worker applies the operation to the queue of an address and brings the sorted list up to
  date: no panic, and the invariant holds again.
\<close>

lemma worker_step:
  assumes wf: "w_wf env so w" and q: "queue_of w k q" and ok: "queue_ok env so k q" and p: "pre q"
    and ex: "\<And>t. t \<in> extra \<Longrightarrow> tracker_ok env so t \<and> FromStr t = k"
    and eq: "qop q = (q', new, prev)"
  shows "\<exists>l c s. update_sorted (w\<lparr>pool := AList.update k q' (pool w)\<rparr>) q' new prev =
      Some (w\<lparr>pool := AList.update k q' (pool w), w_sorted := l, readyTxCounter := c, readySignals := s\<rparr>) \<and>
    w_wf env so (w\<lparr>pool := AList.update k q' (pool w), w_sorted := l, readyTxCounter := c, readySignals := s\<rparr>)"
proof -
  let ?w = "w\<lparr>pool := AList.update k q' (pool w)\<rparr>"
  have ok': "queue_ok env so k q'" using queue_ok_step [OF ok p ex] eq by simp
  have sync': "ready_sync q q' new prev" using sync [of q] eq by simp
  have "so (HashStr t) = k \<and> FromStr t = k" if "new = Some t" for t
  proof -
    have "readyTx q' = Some t" using sync' that by (simp add: ready_sync_def)
    then show ?thesis using queue_ok_ready [OF ok'] by blast
  qed
  then obtain l c s where l: "update_sorted ?w q' new prev =
      Some (?w\<lparr>w_sorted := l, readyTxCounter := c, readySignals := s\<rparr>)" "tsl_wf l"
    "set (tsl_sorted l) = {t \<in> ready_set w. FromStr t \<noteq> k} \<union> set_option (readyTx q')"
    using update_sorted_spec [of ?w so k q q' new prev] w_wfD [OF wf] queue_of_ready [OF wf q]
      ready_set_from [OF wf] sync' by auto
  have "w_wf env so (w\<lparr>pool := AList.update k q' (pool w), w_sorted := l, readyTxCounter := c, readySignals := s\<rparr>)"
    by (rule w_wf_put [OF wf ok' l(2,3)]) simp_all
  then show ?thesis using l(1) by auto
qed

end

section \<open>The operations of the worker\<close>

lemma queue_ok_new: "queue_ok env so (addr_str env a) (newAddrQueue (addr_str env) a n b)"
  by (simp add: queue_ok_def aq_wf_new) (simp add: newAddrQueue_def aq_getTransactions_def)

lemma addTx_finish_wf:
  assumes "w_wf env so w" and "queue_of w (FromStr tx) q" and "queue_ok env so (FromStr tx) q"
    and "tracker_ok env so tx"
  shows "\<exists>w' rep err. addTx_finish w q tx = Some (w', rep, err) \<and> w_wf env so w' \<and>
     pendingToStore w' = pendingToStore w"
proof -
  obtain q' new prev rep err where eq: "aq_addTx q tx = (q', new, prev, rep, err)"
    by (metis surj_pair)
  have op: "addTx_op tx q = (q', new, prev)" by (simp add: addTx_op_def eq)
  have pre: "FromStr tx = fromStr q" using assms(3) by (simp add: queue_ok_def)
  show ?thesis
  proof (cases "err = None")
    case True
    have "\<exists>l c s. update_sorted (w\<lparr>pool := AList.update (FromStr tx) q' (pool w)\<rparr>) q' new prev =
        Some (w\<lparr>pool := AList.update (FromStr tx) q' (pool w), w_sorted := l, readyTxCounter := c, readySignals := s\<rparr>) \<and>
      w_wf env so (w\<lparr>pool := AList.update (FromStr tx) q' (pool w), w_sorted := l, readyTxCounter := c, readySignals := s\<rparr>)"
      by (rule addTx_op.worker_step [OF assms(1,2,3) pre _ op]) (use assms(4) in simp)
    then show ?thesis using True by (auto simp: addTx_finish_def eq)
  next
    case False
    then have "q' = q" using eq by (auto simp: aq_addTx_def Let_def split: if_splits option.splits)
    then have "w_wf env so (w\<lparr>pool := AList.update (FromStr tx) q' (pool w)\<rparr>)"
      by (intro w_wf_same_ready [OF assms(1,2,3)]) simp_all
    then show ?thesis using False by (simp add: addTx_finish_def eq)
  qed
qed

lemma addTxTracker_wf:
  assumes wf: "w_wf env so w" and tx: "tracker_ok env so tx"
  shows "\<exists>w' rep err. addTxTracker env st w tx = Some (w', rep, err) \<and> w_wf env so w' \<and>
     pendingToStore w' = pendingToStore w"
proof (cases "addTx_begin env w tx")
  case (Inl err)
  then show ?thesis using wf by (simp add: addTxTracker_def)
next
  case (Inr found)
  then have found: "found = map_of (pool w) (FromStr tx)"
    by (auto simp: addTx_begin_def split: if_splits)
  show ?thesis
  proof (cases found)
    case (Some q)
    then have "queue_of w (FromStr tx) q" "queue_ok env so (FromStr tx) q"
      using found w_wfD(3) [OF wf] by (simp_all add: queue_of_def)
    then show ?thesis using addTx_finish_wf [OF wf _ _ tx] Inr Some by (simp add: addTxTracker_def)
  next
    case None
    show ?thesis
    proof (cases "addTx_newQueue env st tx")
      case (Inl err)
      then show ?thesis using Inr None wf by (simp add: addTxTracker_def)
    next
      case (Inr q)
      then obtain n b where "q = newAddrQueue (addr_str env) (From tx) n b"
        by (auto simp: addTx_newQueue_def split: sum.splits)
      then have "queue_of w (FromStr tx) q" "queue_ok env so (FromStr tx) q"
        using found None tx queue_ok_new
        by (auto simp: queue_of_def newAddrQueue_def tracker_ok_def)
      then show ?thesis
        using addTx_finish_wf [OF wf _ _ tx] Inr None \<open>addTx_begin env w tx = Inr found\<close>
        by (simp add: addTxTracker_def)
    qed
  qed
qed

lemma applyAddressUpdate_wf:
  assumes "w_wf env so w"
  shows "\<exists>w' new prev dels. applyAddressUpdate env w from n b = Some (w', new, prev, dels) \<and> w_wf env so w'"
proof (cases "map_of (pool w) (addr_str env from)")
  case None
  then show ?thesis using assms by (simp add: applyAddressUpdate_def)
next
  case (Some q)
  obtain q' new prev dels where eq: "updateCurrentNonceBalance q n b = (q', new, prev, dels)"
    by (metis surj_pair)
  have op: "update_op n b q = (q', new, prev)" by (simp add: update_op_def eq)
  have "queue_of w (addr_str env from) q" using Some by (simp add: queue_of_def)
  from update_op.worker_step [OF assms this w_wfD(3) [OF assms Some] TrueI _ op]
  show ?thesis using Some by (auto simp: applyAddressUpdate_def eq)
qed

lemma update_touched_wf:
  "w_wf env so w \<Longrightarrow> \<exists>w' ds. update_touched env from touched w dels = Some (w', ds) \<and> w_wf env so w'"
proof (induction touched arbitrary: w dels)
  case Nil
  then show ?case by simp
next
  case (Cons x touched)
  obtain addr info where x: "x = (addr, info)" by (cases x)
  show ?case
  proof (cases "addr = from")
    case True
    then show ?thesis using Cons x by simp
  next
    case False
    obtain w1 new prev temp where 1: "applyAddressUpdate env w addr None (irw_Balance info) = Some (w1, new, prev, temp)"
      "w_wf env so w1"
      using applyAddressUpdate_wf [OF Cons.prems] by blast
    then show ?thesis using Cons.IH [OF 1(2)] False x by simp
  qed
qed

lemma UpdateAfterSingleSuccessfulTxExecution_wf:
  assumes "w_wf env so w"
  shows "\<exists>w' ds. UpdateAfterSingleSuccessfulTxExecution env w from touched = Some (w', ds) \<and> w_wf env so w'"
proof (cases "map_of touched from")
  case None
  then show ?thesis using update_touched_wf [OF assms] by (simp add: UpdateAfterSingleSuccessfulTxExecution_def)
next
  case (Some info)
  obtain w1 new prev dels where 1: "applyAddressUpdate env w from (irw_Nonce info) (irw_Balance info) = Some (w1, new, prev, dels)"
    "w_wf env so w1"
    using applyAddressUpdate_wf [OF assms] by blast
  then show ?thesis using Some update_touched_wf [OF 1(2)]
    by (simp add: UpdateAfterSingleSuccessfulTxExecution_def)
qed

lemma resetWipTx_wf: "w_wf env so w \<Longrightarrow> w_wf env so (resetWipTx w h)"
  by (erule w_wf_frame) (simp_all add: resetWipTx_def split: option.split)

lemma MoveTxToNotReady_wf:
  assumes "w_wf env so w"
  shows "\<exists>w' ds. MoveTxToNotReady env w h from n b = Some (w', ds) \<and> w_wf env so w'"
  using applyAddressUpdate_wf [OF resetWipTx_wf [OF assms, of h], of "from" n b]
  by (auto simp: MoveTxToNotReady_def)

lemma w_deleteTx_wf:
  assumes "w_wf env so w"
  shows "\<exists>w' d. w_deleteTx env w h addr = Some (w', d) \<and> w_wf env so w'"
proof (cases "map_of (pool w) (addr_str env addr)")
  case None
  then show ?thesis using assms by (simp add: w_deleteTx_def)
next
  case (Some q)
  obtain q' d r where eq: "aq_deleteTx (hash_str env) q h = (q', d, r)" by (metis surj_pair)
  have op: "deleteTx_op (hash_str env) h q = (q', None, if r then d else None)"
    by (simp add: deleteTx_op_def eq)
  have "queue_of w (addr_str env addr) q" using Some by (simp add: queue_of_def)
  from deleteTx_op.worker_step [OF assms this w_wfD(3) [OF assms Some] TrueI _ op]
  obtain l c s where "update_sorted (w\<lparr>pool := AList.update (addr_str env addr) q' (pool w)\<rparr>) q' None (if r then d else None) =
      Some (w\<lparr>pool := AList.update (addr_str env addr) q' (pool w), w_sorted := l, readyTxCounter := c, readySignals := s\<rparr>)"
    "w_wf env so (w\<lparr>pool := AList.update (addr_str env addr) q' (pool w), w_sorted := l, readyTxCounter := c, readySignals := s\<rparr>)"
    by blast
  then show ?thesis using Some eq
    by (cases d; cases r) (auto simp: w_deleteTx_def update_sorted_def split: prod.splits)
qed

lemma DeleteTx_wf: "w_wf env so w \<Longrightarrow> \<exists>w'. DeleteTx env w h addr = Some w' \<and> w_wf env so w'"
  using w_deleteTx_wf [OF resetWipTx_wf [of env so w h], of h addr] by (auto simp: DeleteTx_def)

lemma on_queue_wf:
  assumes "w_wf env so w"
    and "\<And>q. aq_wf q \<Longrightarrow> aq_wf (f q)" and "\<And>q. fromStr (f q) = fromStr q"
    and "\<And>q. readyTx (f q) = readyTx q" and "\<And>q. notReadyTxs (f q) = notReadyTxs q"
  shows "w_wf env so (on_queue env w addr f)"
proof (cases "map_of (pool w) (addr_str env addr)")
  case None
  then show ?thesis using assms(1) by (simp add: on_queue_def)
next
  case (Some q)
  then have "queue_of w (addr_str env addr) q" "queue_ok env so (addr_str env addr) (f q)"
    using w_wfD(3) [OF assms(1) Some] assms(2-5)
    by (simp_all add: queue_of_def queue_ok_def aq_getTransactions_def)
  then show ?thesis using Some assms(4)
    by (auto simp: on_queue_def intro: w_wf_same_ready [OF assms(1)])
qed

lemma queue_sets_wf:
  assumes "w_wf env so w"
  shows "w_wf env so (AddForcedTx env w h addr)" "w_wf env so (DeleteForcedTx env w h addr)"
    "w_wf env so (on_queue env w addr (\<lambda>q. aq_addPendingTxToStore q h))"
    "w_wf env so (on_queue env w addr (\<lambda>q. aq_deletePendingTxToStore q h))"
  unfolding AddForcedTx_def DeleteForcedTx_def
  by (intro on_queue_wf [OF assms] aq_sets_wf, assumption;
      simp add: aq_addForcedTx_def aq_deleteForcedTx_def aq_addPendingTxToStore_def
        aq_deletePendingTxToStore_def split: option.split)+

section \<open>Pending transactions, counters, expiry\<close>

lemma w_deleteTx_deleted:
  assumes "w_wf env so w" and "w_deleteTx env w h addr = Some (w', Some t)"
  shows "tracker_ok env so t \<and> pendingToStore w' = pendingToStore w"
proof -
  obtain q where q: "map_of (pool w) (addr_str env addr) = Some q"
    using assms(2) by (auto simp: w_deleteTx_def split: option.splits)
  obtain q' d r where eq: "aq_deleteTx (hash_str env) q h = (q', d, r)" by (metis surj_pair)
  have d: "d = Some t" "pendingToStore w' = pendingToStore w"
    using assms(2) q eq
    by (auto simp: w_deleteTx_def deleteReadyTxCounter_def Let_def split: option.splits if_splits prod.splits)
  have "t \<in> set (aq_getTransactions q)"
    using eq d(1)
    by (auto simp: aq_deleteTx_def Let_def aq_getTransactions_def dest!: find_SomeD
        split: option.splits if_splits intro: rev_image_eqI)
  then show ?thesis using w_wfD(3) [OF assms(1) q] d(2) by (simp add: queue_ok_def)
qed

lemma MoveTxPendingToStore_wf:
  assumes "w_wf env so w"
  shows "\<exists>w'. MoveTxPendingToStore env w h addr = Some w' \<and> w_wf env so w'"
proof -
  obtain w1 d where 1: "w_deleteTx env w h addr = Some (w1, d)" "w_wf env so w1"
    using w_deleteTx_wf [OF assms] by blast
  define w2 where "w2 = (case d of Some t \<Rightarrow> w1\<lparr>pendingToStore := pendingToStore w1 @ [t]\<rparr> | None \<Rightarrow> w1)"
  have "w_wf env so w2"
    using 1 w_deleteTx_deleted [OF assms] w_wfD(5) [OF 1(2)]
    by (cases d) (auto simp: w2_def w_wf_def ready_set_def)
  then show ?thesis using 1(1) queue_sets_wf(3) by (simp add: MoveTxPendingToStore_def w2_def)
qed

text \<open>
  The range over the shrinking slice: as long as at most one pending transaction has the hash, at most one entry is
  taken out, and the loop neither panics nor skips an entry.
\<close>

lemma pending_loop_none:
  assumes "\<And>j. i \<le> j \<Longrightarrow> j < length arr \<Longrightarrow> Hash (arr ! j) \<noteq> h"
  shows "pending_loop h i arr m found = Some (take m arr, found)"
  using assms
proof (induction h i arr m found rule: pending_loop.induct)
  case (1 h i arr m found)
  show ?case
  proof (cases "i < length arr")
    case True
    then have h: "Hash (arr ! i) \<noteq> h" using "1.prems" by simp
    then have "pending_loop h i arr m found = pending_loop h (i + 1) arr m found"
      using True by (subst pending_loop.simps) simp
    also have "\<dots> = Some (take m arr, found)" using True h "1.prems" by (intro "1.IH"(2)) auto
    finally show ?thesis .
  next
    case False
    then show ?thesis by (subst pending_loop.simps) simp
  qed
qed

lemma pending_loop_skip:
  assumes "i \<le> k" and "k \<le> length arr" and "\<And>j. i \<le> j \<Longrightarrow> j < k \<Longrightarrow> Hash (arr ! j) \<noteq> h"
  shows "pending_loop h i arr m found = pending_loop h k arr m found"
  using assms
proof (induction "k - i" arbitrary: i)
  case 0
  then show ?case by simp
next
  case (Suc d)
  have "i < length arr" "Hash (arr ! i) \<noteq> h" using Suc.hyps(2) Suc.prems by auto
  then have "pending_loop h i arr m found = pending_loop h (i + 1) arr m found"
    by (subst pending_loop.simps) simp
  also have "\<dots> = pending_loop h k arr m found"
  proof (rule Suc.hyps(1))
    show "d = k - (i + 1)" "i + 1 \<le> k" using Suc.hyps(2) by simp_all
  qed (use Suc.prems in auto)
  finally show ?case .
qed

definition pending_count :: "hash \<Rightarrow> TxTracker list \<Rightarrow> nat" where
  "pending_count h txs = length (filter (\<lambda>t. Hash t = h) txs)"

lemma pending_once_unique:
  assumes "pending_count h txs \<le> 1" and "j < length txs" and "k < length txs" and "Hash (txs ! j) = h" and "Hash (txs ! k) = h"
  shows "j = k"
proof -
  have "card {i. i < length txs \<and> Hash (txs ! i) = h} \<le> Suc 0"
    using assms(1) by (simp add: pending_count_def length_filter_conv_card)
  then show ?thesis using assms(2-5) by (simp add: card_le_Suc0_iff_eq)
qed

lemma pending_loop_once:
  assumes "pending_count h txs \<le> 1"
  shows "pending_loop h 0 txs (length txs) False =
    Some (filter (\<lambda>t. Hash t \<noteq> h) txs, h \<in> Hash ` set txs)"
proof (cases "h \<in> Hash ` set txs")
  case False
  then have "pending_loop h 0 txs (length txs) False = Some (txs, False)"
    using pending_loop_none [of 0 txs h "length txs" False] image_neq [OF False nth_mem] by simp
  then show ?thesis using False image_neq [OF False] by (simp add: filter_id_conv)
next
  case True
  then obtain k where k: "k < length txs" "Hash (txs ! k) = h" by (auto simp: in_set_conv_nth)
  have uniq: "Hash (txs ! j) \<noteq> h" if "j < length txs" "j \<noteq> k" for j
    using pending_once_unique [OF assms that(1) k(1) _ k(2)] that(2) by blast
  let ?arr = "take k txs @ drop (k + 1) txs @ drop (length txs - 1) txs"
  have len: "length ?arr = length txs" using k(1) by simp
  have "pending_loop h 0 txs (length txs) False = pending_loop h k txs (length txs) False"
    using uniq k(1) by (intro pending_loop_skip) auto
  also have "\<dots> = pending_loop h (k + 1) ?arr (length txs - 1) True"
    using k by (subst pending_loop.simps) simp
  also have "\<dots> = Some (take (length txs - 1) ?arr, True)"
  proof (rule pending_loop_none)
    fix j assume j: "k + 1 \<le> j" "j < length ?arr"
    show "Hash (?arr ! j) \<noteq> h"
    proof (cases "j < length txs - 1")
      case True
      then have "?arr ! j = txs ! (j + 1)" using j(1) k(1) by (simp add: nth_append)
      then show ?thesis using uniq [of "j + 1"] True j(1) by simp
    next
      case False
      then have "j = length txs - 1" using j len by simp
      then have "?arr ! j = txs ! (length txs - 1)" using j(1) k(1) by (simp add: nth_append)
      then show ?thesis using uniq [of "length txs - 1"] j len by simp
    qed
  qed
  also have "take (length txs - 1) ?arr = remove_nth k txs"
    using k(1) by (simp add: remove_nth_def)
  also have "\<dots> = filter (\<lambda>t. Hash t \<noteq> h) txs"
  proof -
    have txs: "txs = take k txs @ txs ! k # drop (Suc k) txs" using k(1) by (rule mset_split_nth)
    have "Hash t \<noteq> h" if t: "t \<in> set (take k txs)" for t
    proof -
      obtain i where "i < k" "t = txs ! i" using t k(1) by (auto simp: in_set_conv_nth)
      then show ?thesis using uniq [of i] k(1) by simp
    qed
    moreover have "Hash t \<noteq> h" if t: "t \<in> set (drop (Suc k) txs)" for t
    proof -
      obtain i where "i < length txs - Suc k" "t = txs ! (Suc k + i)" using t by (auto simp: in_set_conv_nth)
      then show ?thesis using uniq [of "Suc k + i"] by simp
    qed
    ultimately have "\<forall>t \<in> set (take k txs @ drop (Suc k) txs). Hash t \<noteq> h" by auto
    then have "filter (\<lambda>t. Hash t \<noteq> h) (take k txs @ txs ! k # drop (Suc k) txs) =
        take k txs @ drop (Suc k) txs"
      using k(2) by (simp add: filter_id_conv)
    then show ?thesis using txs by (simp add: remove_nth_def)
  qed
  finally show ?thesis using True by simp
qed

lemma DeleteTxPendingToStore_wf:
  assumes "w_wf env so w" and "pending_count h (pendingToStore w) \<le> 1"
  shows "\<exists>w'. DeleteTxPendingToStore env w h addr = Some w' \<and> w_wf env so w' \<and>
     pendingToStore w' = filter (\<lambda>t. Hash t \<noteq> h) (pendingToStore w)"
proof -
  let ?w = "w\<lparr>pendingToStore := filter (\<lambda>t. Hash t \<noteq> h) (pendingToStore w)\<rparr>"
  have "w_wf env so ?w" using assms(1) by (rule w_wf_frame) auto
  then have "w_wf env so (on_queue env ?w addr (\<lambda>q. aq_deletePendingTxToStore q h))"
    by (rule queue_sets_wf(4))
  moreover have "pendingToStore (on_queue env ?w addr f) = pendingToStore ?w" for f
    by (simp add: on_queue_def split: option.split)
  ultimately show ?thesis using pending_loop_once [OF assms(2)]
    by (simp add: DeleteTxPendingToStore_def)
qed

end
