(* ===== verification/WorkerSteps.thy ===== *)
theory WorkerSteps
  imports WorkerInv
begin

text \<open>
  The remaining operations of the worker keep its invariant: expiry, ZK counters, the replay of
  pending transactions.
\<close>

section \<open>Expiry\<close>

lemma expire_queues_wf:
  assumes "w_wf env so w" and "gomap_wf rest"
    and "\<And>k q. (k, q) \<in> set rest \<Longrightarrow> map_of (pool w) k = Some q"
  shows "\<exists>w' txs'. expire_queues now mx rest w txs = Some (w', txs') \<and> w_wf env so w' \<and>
     pendingToStore w' = pendingToStore w"
  using assms
proof (induction rest arbitrary: w txs)
  case Nil
  then show ?case by simp
next
  case (Cons x rest)
  obtain k q where x: "x = (k, q)" by (cases x)
  have kq: "map_of (pool w) k = Some q" using Cons.prems(3) x by simp
  obtain q' sub prev where eq: "aq_ExpireTransactions now mx q = (q', sub, prev)" by (metis surj_pair)
  have op: "expire_op now mx q = (q', None, prev)" by (simp add: expire_op_def eq)
  have "queue_of w k q" using kq by (simp add: queue_of_def)
  from expire_op.worker_step [OF Cons.prems(1) this w_wfD(3) [OF Cons.prems(1) kq] TrueI _ op]
  obtain l c s where us: "update_sorted (w\<lparr>pool := AList.update k q' (pool w)\<rparr>) q' None prev =
      Some (w\<lparr>pool := AList.update k q' (pool w), w_sorted := l, readyTxCounter := c, readySignals := s\<rparr>)"
    and wf': "w_wf env so (w\<lparr>pool := AList.update k q' (pool w), w_sorted := l, readyTxCounter := c, readySignals := s\<rparr>)"
    by blast
  define w1 where "w1 = w\<lparr>pool := AList.update k q' (pool w), w_sorted := l, readyTxCounter := c, readySignals := s\<rparr>"
  have step: "expire_queues now mx (x # rest) w txs = expire_queues now mx rest w1 (txs @ sub)"
    using us by (auto simp: x eq Let_def update_sorted_def w1_def)
  have "map_of (pool w1) k' = Some q2" if "(k', q2) \<in> set rest" for k' q2
  proof -
    have "k' \<noteq> k" using that Cons.prems(2) by (auto simp: x gomap_wf_def dest: image_neq [of k fst])
    then show ?thesis using that Cons.prems(3) by (simp add: w1_def)
  qed
  moreover have "gomap_wf rest" using Cons.prems(2) by (simp add: gomap_wf_def)
  ultimately obtain w' txs' where "expire_queues now mx rest w1 (txs @ sub) = Some (w', txs')"
    "w_wf env so w'" "pendingToStore w' = pendingToStore w1"
    using Cons.IH [of w1 "txs @ sub"] wf' unfolding w1_def by blast
  then show ?case unfolding step by (simp add: w1_def)
qed

lemma w_ExpireTransactions_wf:
  assumes "w_wf env so w"
  shows "\<exists>w' txs. w_ExpireTransactions now mx w = Some (w', txs) \<and> w_wf env so w' \<and>
     pendingToStore w' = pendingToStore w"
  unfolding w_ExpireTransactions_def
  by (rule expire_queues_wf [OF assms]) (use w_wfD(1) [OF assms] in \<open>simp_all add: gomap_wf_def\<close>)

section \<open>ZK counters\<close>

definition same_keys :: "(TxTracker \<Rightarrow> TxTracker) \<Rightarrow> bool" where
  "same_keys f \<longleftrightarrow> (\<forall>t. HashStr (f t) = HashStr t \<and> FromStr (f t) = FromStr t \<and> From (f t) = From t \<and>
     Nonce (f t) = Nonce t \<and> GasPrice (f t) = GasPrice t \<and> Cost (f t) = Cost t)"

lemma by_hash_map: "same_keys f \<Longrightarrow> by_hash (map f txs) h = map_option f (by_hash txs h)"
  by (induction txs) (auto simp: same_keys_def)

lemma tsl_wf_map:
  assumes "tsl_wf l" and "same_keys f"
  shows "tsl_wf \<lparr>tsl_list = (\<lambda>h. map_option f (tsl_list l h)), tsl_sorted = map f (tsl_sorted l)\<rparr>"
proof -
  have "by_hash (map f (tsl_sorted l)) = (\<lambda>h. map_option f (by_hash (tsl_sorted l) h))"
    using by_hash_map [OF assms(2)] by blast
  moreover have "map HashStr (map f (tsl_sorted l)) = map HashStr (tsl_sorted l)"
    using assms(2) by (simp add: same_keys_def)
  moreover have "price_desc (map f (tsl_sorted l)) = price_desc (tsl_sorted l)"
    using assms(2) by (simp add: same_keys_def sorted_wrt_map)
  ultimately show ?thesis using assms(1) unfolding tsl_wf_def txSortedList.select_convs
    by (elim conjE, intro conjI) (simp_all only:)
qed

definition map_queue :: "(TxTracker \<Rightarrow> TxTracker) \<Rightarrow> addrQueue \<Rightarrow> addrQueue" where
  "map_queue f q = q\<lparr>readyTx := map_option f (readyTx q), notReadyTxs := map (\<lambda>(n, t). (n, f t)) (notReadyTxs q)\<rparr>"

lemma map_queue_ready [simp]: "readyTx (map_queue f q) = map_option f (readyTx q)"
  by (simp add: map_queue_def)

lemma map_queue_txs: "aq_getTransactions (map_queue f q) = map f (aq_getTransactions q)"
  by (simp add: aq_getTransactions_def map_queue_def comp_def case_prod_unfold split: option.split)

lemma map_queue_wf:
  assumes wf: "aq_wf q" and f: "same_keys f"
  shows "aq_wf (map_queue f q)"
proof (rule aq_wfI)
  show "gomap_wf (notReadyTxs (map_queue f q))"
    using aq_wfD(1) [OF wf] by (simp add: map_queue_def gomap_wf_def comp_def case_prod_unfold)
  show "gomap_wf (forcedTxs (map_queue f q))" "gomap_wf (pendingTxsToStore (map_queue f q))"
    using aq_wfD(2,3) [OF wf] by (simp_all add: map_queue_def)
next
  fix t assume "readyTx (map_queue f q) = Some t"
  then obtain r where "readyTx q = Some r" "t = f r" by auto
  then show "ready_ok (map_queue f q) t"
    using aq_wfD(4) [OF wf] f by (simp add: ready_ok_def same_keys_def map_queue_def)
next
  fix k t assume "map_of (notReadyTxs (map_queue f q)) k = Some t"
  then obtain r where "map_of (notReadyTxs q) k = Some r" "t = f r"
    by (auto simp: map_queue_def map_of_map)
  then show "not_ready_ok (map_queue f q) k t"
    using aq_wfD(5) [OF wf] f by (simp add: not_ready_ok_def same_keys_def map_queue_def)
qed

lemma map_queue_ok:
  assumes "queue_ok env so k q" and "same_keys f"
  shows "queue_ok env so k (map_queue f q)"
proof -
  have "fromStr (map_queue f q) = fromStr q" by (simp add: map_queue_def)
  moreover have "tracker_ok env so (f t) \<and> FromStr (f t) = k" if "tracker_ok env so t \<and> FromStr t = k" for t
    using that assms(2) by (auto simp: tracker_ok_def same_keys_def)
  ultimately show ?thesis
    using assms map_queue_wf by (simp add: queue_ok_def map_queue_txs)
qed

lemma map_trackers_wf:
  assumes "w_wf env so w" and "same_keys f"
  shows "w_wf env so (map_trackers f w)"
proof -
  have lk: "map_of (pool (map_trackers f w)) k = map_option (map_queue f) (map_of (pool w) k)" for k
    by (simp add: map_trackers_def map_queue_def [abs_def] map_of_map)
  have "gomap_wf (pool (map_trackers f w))"
    using w_wfD(1) [OF assms(1)] by (simp add: map_trackers_def gomap_wf_def comp_def case_prod_unfold)
  moreover have "tsl_wf (w_sorted (map_trackers f w))"
    using tsl_wf_map [OF w_wfD(2) [OF assms(1)] assms(2)] by (simp add: map_trackers_def)
  moreover have "queue_ok env so k q" if "map_of (pool (map_trackers f w)) k = Some q" for k q
    using that lk map_queue_ok [OF w_wfD(3) [OF assms(1)] assms(2)] by auto
  moreover have "ready_set (map_trackers f w) = f ` ready_set w"
  proof (rule set_eqI, rule iffI)
    fix t assume "t \<in> ready_set (map_trackers f w)"
    then obtain k q r where "map_of (pool w) k = Some q" "readyTx q = Some r" "t = f r"
      by (auto simp: ready_set_def lk)
    then show "t \<in> f ` ready_set w" unfolding ready_set_def by blast
  next
    fix t assume "t \<in> f ` ready_set w"
    then obtain k q r where r: "map_of (pool w) k = Some q" "readyTx q = Some r" "t = f r"
      by (auto simp: ready_set_def)
    then have "map_of (pool (map_trackers f w)) k = Some (map_queue f q)" "readyTx (map_queue f q) = Some t"
      by (simp_all add: lk)
    then show "t \<in> ready_set (map_trackers f w)" unfolding ready_set_def by blast
  qed
  then have "set (tsl_sorted (w_sorted (map_trackers f w))) = ready_set (map_trackers f w)"
    using w_wfD(4) [OF assms(1)] by (simp add: map_trackers_def)
  moreover have "\<forall>t \<in> set (pendingToStore (map_trackers f w)). tracker_ok env so t"
    using w_wfD(5) [OF assms(1)] assms(2) by (auto simp: map_trackers_def tracker_ok_def same_keys_def)
  ultimately show ?thesis by (simp add: w_wf_def)
qed

lemma UpdateTxZKCounters_wf: "w_wf env so w \<Longrightarrow> w_wf env so (UpdateTxZKCounters env w h addr u r)"
  unfolding UpdateTxZKCounters_def
  by (simp split: option.split) (intro allI impI map_trackers_wf, simp_all add: same_keys_def)

section \<open>Replay of pending transactions\<close>

lemma w_wf_drop_queue:
  assumes wf: "w_wf env so w" and "tsl_wf l" and "set (tsl_sorted l) = {t \<in> ready_set w. FromStr t \<noteq> k}"
  shows "w_wf env so (w\<lparr>w_sorted := l, pool := AList.delete k (pool w)\<rparr>)"
proof -
  have "FromStr t = k'" if "map_of (pool w) k' = Some q" "readyTx q = Some t" for k' q t
    using queue_ok_ready(1) [OF w_wfD(3) [OF wf that(1)] that(2)] .
  then have "ready_set (w\<lparr>w_sorted := l, pool := AList.delete k (pool w)\<rparr>) = {t \<in> ready_set w. FromStr t \<noteq> k}"
    by (auto simp: ready_set_def split: if_splits)
  then show ?thesis using assms w_wfD [OF wf] by (auto simp: w_wf_def split: if_splits)
qed

lemma restore_queues_wf:
  assumes "w_wf env so w" and "\<forall>t \<in> set txs. tracker_ok env so t"
  shows "\<exists>w' txs'. restore_queues env order w txs = Some (w', txs') \<and> w_wf env so w' \<and>
     (\<forall>t \<in> set txs'. tracker_ok env so t)"
  using assms
proof (induction order arbitrary: w txs)
  case Nil
  then show ?case by simp
next
  case (Cons addr order)
  let ?k = "addr_str env addr"
  show ?case
  proof (cases "map_of (pool w) ?k")
    case None
    then show ?thesis using Cons by simp
  next
    case (Some q)
    have ok: "queue_ok env so ?k q" using w_wfD(3) [OF Cons.prems(1) Some] .
    have txs: "\<forall>t \<in> set (txs @ aq_getTransactions q). tracker_ok env so t"
      using Cons.prems(2) ok by (auto simp: queue_ok_def)
    have key: "{t \<in> ready_set w. FromStr t = ?k} = set_option (readyTx q)"
      using ready_set_key [OF Cons.prems(1), of ?k] Some by simp
    have "\<exists>l. (case readyTx q of
             Some r \<Rightarrow> do { (l, _) \<leftarrow> tsl_delete (w_sorted w) r; Some (w\<lparr>w_sorted := l\<rparr>) }
           | None \<Rightarrow> Some w) = Some (w\<lparr>w_sorted := l\<rparr>) \<and> tsl_wf l \<and>
        set (tsl_sorted l) = {t \<in> ready_set w. FromStr t \<noteq> ?k}"
    proof (cases "readyTx q")
      case None
      then show ?thesis using key w_wfD(2,4) [OF Cons.prems(1)]
        by (auto intro!: exI [of _ "w_sorted w"])
    next
      case (Some r)
      obtain l ok where l: "tsl_delete (w_sorted w) r = Some (l, ok)" "tsl_wf l"
        "tsl_sorted l = filter (\<lambda>t. HashStr t \<noteq> HashStr r) (tsl_sorted (w_sorted w))"
        using tsl.del_total [OF w_wfD(2) [OF Cons.prems(1)], of r] by blast
      have r: "\<And>t. t \<in> ready_set w \<and> FromStr t = ?k \<longleftrightarrow> t = r" using key Some by auto
      have "HashStr t = HashStr r \<longleftrightarrow> FromStr t = ?k" if "t \<in> ready_set w" for t
        using tsl.elems_inj [OF w_wfD(2) [OF Cons.prems(1)], of t r] w_wfD(4) [OF Cons.prems(1)]
          r [of t] r [of r] that by metis
      then have "set (tsl_sorted l) = {t \<in> ready_set w. FromStr t \<noteq> ?k}"
        using l(3) w_wfD(4) [OF Cons.prems(1)] by auto
      then show ?thesis using Some l(1,2) by auto
    qed
    then obtain l where l: "(case readyTx q of
             Some r \<Rightarrow> do { (l, _) \<leftarrow> tsl_delete (w_sorted w) r; Some (w\<lparr>w_sorted := l\<rparr>) }
           | None \<Rightarrow> Some w) = Some (w\<lparr>w_sorted := l\<rparr>)" "tsl_wf l"
      "set (tsl_sorted l) = {t \<in> ready_set w. FromStr t \<noteq> ?k}" by blast
    have "w_wf env so (w\<lparr>w_sorted := l, pool := AList.delete ?k (pool w)\<rparr>)"
      by (rule w_wf_drop_queue [OF Cons.prems(1) l(2,3)])
    from Cons.IH [OF this txs] show ?thesis using Some l(1) by simp
  qed
qed

lemma restore_txs_wf:
  assumes "w_wf env so w" and "\<forall>t \<in> set txs. tracker_ok env so t"
  shows "\<exists>w' d r. restore_txs env st txs w dropped replaced = Some (w', d, r) \<and> w_wf env so w' \<and> r = replaced"
  using assms
proof (induction txs arbitrary: w dropped)
  case Nil
  then show ?case by simp
next
  case (Cons t txs)
  obtain w1 rep err where 1: "addTxTracker env st w t = Some (w1, rep, err)" "w_wf env so w1"
    using addTxTracker_wf [OF Cons.prems(1)] Cons.prems(2) by fastforce
  then show ?case using Cons.IH [OF 1(2)] Cons.prems(2) by (simp add: Let_def)
qed

lemma RestoreTxsPendingToStore_wf:
  assumes "w_wf env so w"
  shows "\<exists>w' d r. RestoreTxsPendingToStore env st order w = Some (w', d, r) \<and> w_wf env so w' \<and> r = []"
proof -
  have "w_wf env so (w\<lparr>reorgedTxs := pendingToStore w\<rparr>)" using assms by (rule w_wf_frame) auto
  then obtain w1 txs where 1: "restore_queues env order (w\<lparr>reorgedTxs := pendingToStore w\<rparr>) (pendingToStore w) = Some (w1, txs)"
    "w_wf env so w1" "\<forall>t \<in> set txs. tracker_ok env so t"
    using restore_queues_wf [of env so] w_wfD(5) [OF assms] by blast
  have "w_wf env so (w1\<lparr>pendingToStore := [], wipTx := None\<rparr>)" using 1(2) by (rule w_wf_frame) auto
  then show ?thesis using restore_txs_wf 1 by (simp add: RestoreTxsPendingToStore_def)
qed

end
