(* ===== verification/BestFit.thy ===== *)
theory BestFit
  imports Worker
begin

text \<open>
  The search for the best transaction (\<open>GetBestFittingTx\<close> of \<open>sequencer/worker.go\<close>): as many
  goroutines as CPUs walk the sorted list in strides and share the index found so far. The
  goroutines are a step relation with an arbitrary interleaving; each step is one critical
  section or one access to the list (which does not change while the worker's mutex is held).
  Every schedule ends, and with the same result: the first transaction of the list that fits.
\<close>

section \<open>Goroutines\<close>

text \<open>
  Where a goroutine is, with the value of its loop variable: at the head of the loop, about to
  examine the candidate, about to store the index it found, or returned.
\<close>

datatype pc = AtLoop nat | AtExamine nat | AtStore nat | Done nat

fun pc_idx :: "pc \<Rightarrow> nat" where
  "pc_idx (AtLoop i) = i"
| "pc_idx (AtExamine i) = i"
| "pc_idx (AtStore i) = i"
| "pc_idx (Done i) = i"

fun is_done :: "pc \<Rightarrow> bool" where
  "is_done (Done i) = True"
| "is_done _ = False"

text \<open>The shared variables: \<open>foundAt\<close> (\<open>None\<close> is -1), the candidate, the out-of-counters list.\<close>

record search =
  foundAt :: "nat option"
  found_tx :: "TxTracker option"
  oocTxs :: "TxTracker list"
  pcs :: "pc list"

definition candidate_fits :: "BatchResources \<Rightarrow> ZKCounters \<Rightarrow> TxTracker \<Rightarrow> bool" where
  "candidate_fits bresources highReservedCounters txCandidate =
     (let (needed, _) = getNeededZKCounters highReservedCounters (UsedZKCounters txCandidate)
                          (ReservedZKCounters txCandidate);
          (fits, _) = br_Fits bresources \<lparr>br_ZKCounters = needed, br_Bytes = Bytes txCandidate\<rparr>
      in fits)"

definition search_init :: "nat \<Rightarrow> search" where
  "search_init nGoRoutines = \<lparr>foundAt = None, found_tx = None, oocTxs = [], pcs = map AtLoop [0..<nGoRoutines]\<rparr>"

text \<open>
  One step of goroutine \<open>g\<close>: \<open>txs\<close> is the sorted list, \<open>fits\<close> the resource check,
  \<open>firstEmpty\<close> the parameter that asks for the transactions that never fit, \<open>n\<close> the
  number of goroutines.
\<close>

inductive search_step :: "TxTracker list \<Rightarrow> (TxTracker \<Rightarrow> bool) \<Rightarrow> bool \<Rightarrow> nat \<Rightarrow> search \<Rightarrow> search \<Rightarrow> bool"
  for txs fits firstEmpty n where
  loop_end: "g < length (pcs s) \<Longrightarrow> pcs s ! g = AtLoop i \<Longrightarrow> \<not> i < length txs \<Longrightarrow>
     search_step txs fits firstEmpty n s (s\<lparr>pcs := (pcs s)[g := Done i]\<rparr>)"
| loop_found: "g < length (pcs s) \<Longrightarrow> pcs s ! g = AtLoop i \<Longrightarrow> i < length txs \<Longrightarrow> foundAt s = Some k \<Longrightarrow> i > k \<Longrightarrow>
     search_step txs fits firstEmpty n s (s\<lparr>pcs := (pcs s)[g := Done i]\<rparr>)"
| loop_go: "g < length (pcs s) \<Longrightarrow> pcs s ! g = AtLoop i \<Longrightarrow> i < length txs \<Longrightarrow>
     (\<forall>k. foundAt s = Some k \<longrightarrow> \<not> i > k) \<Longrightarrow>
     search_step txs fits firstEmpty n s (s\<lparr>pcs := (pcs s)[g := AtExamine i]\<rparr>)"
| examine_skip: "g < length (pcs s) \<Longrightarrow> pcs s ! g = AtExamine i \<Longrightarrow> \<not> fits (txs ! i) \<Longrightarrow>
     search_step txs fits firstEmpty n s
       (s\<lparr>oocTxs := (if firstEmpty then oocTxs s @ [txs ! i] else oocTxs s), pcs := (pcs s)[g := AtLoop (i + n)]\<rparr>)"
| examine_fit: "g < length (pcs s) \<Longrightarrow> pcs s ! g = AtExamine i \<Longrightarrow> fits (txs ! i) \<Longrightarrow>
     search_step txs fits firstEmpty n s (s\<lparr>pcs := (pcs s)[g := AtStore i]\<rparr>)"
| store_better: "g < length (pcs s) \<Longrightarrow> pcs s ! g = AtStore i \<Longrightarrow> (\<forall>k. foundAt s = Some k \<longrightarrow> k > i) \<Longrightarrow>
     search_step txs fits firstEmpty n s
       (s\<lparr>foundAt := Some i, found_tx := Some (txs ! i), pcs := (pcs s)[g := Done i]\<rparr>)"
| store_worse: "g < length (pcs s) \<Longrightarrow> pcs s ! g = AtStore i \<Longrightarrow> foundAt s = Some k \<Longrightarrow> \<not> k > i \<Longrightarrow>
     search_step txs fits firstEmpty n s (s\<lparr>pcs := (pcs s)[g := Done i]\<rparr>)"

inductive search_run :: "TxTracker list \<Rightarrow> (TxTracker \<Rightarrow> bool) \<Rightarrow> bool \<Rightarrow> nat \<Rightarrow> search \<Rightarrow> bool"
  for txs fits firstEmpty n where
  start: "search_run txs fits firstEmpty n (search_init n)"
| step: "search_run txs fits firstEmpty n s \<Longrightarrow> search_step txs fits firstEmpty n s s' \<Longrightarrow>
     search_run txs fits firstEmpty n s'"

definition all_done :: "search \<Rightarrow> bool" where
  "all_done s \<longleftrightarrow> list_all is_done (pcs s)"

section \<open>The method\<close>

text \<open>The loop over the transactions of a reorganisation.\<close>

fun reorg_next :: "(string, addrQueue) gomap \<Rightarrow> TxTracker list \<Rightarrow> TxTracker list \<times> TxTracker option" where
  "reorg_next queues [] = ([], None)"
| "reorg_next queues (reorgedTx # rest) =
     (case map_of queues (FromStr reorgedTx) of
        Some q \<Rightarrow>
          (case readyTx q of
             Some r \<Rightarrow> if Hash r = Hash reorgedTx then (rest, Some reorgedTx) else reorg_next queues rest
           | None \<Rightarrow> reorg_next queues rest)
      | None \<Rightarrow> reorg_next queues rest)"

text \<open>What the method returns after the goroutines have finished.\<close>

definition best_fit_result :: "Worker \<Rightarrow> search \<Rightarrow> Worker \<times> TxTracker option \<times> TxTracker list \<times> seq_error option" where
  "best_fit_result w s =
     (case foundAt s of
        Some _ \<Rightarrow>
          (let w = w\<lparr>wipTx := found_tx s\<rparr>;
               w = (case found_tx s of
                      Some tx \<Rightarrow> if \<not> IsClaimTx tx then w\<lparr>claimGp := GasPrice tx\<rparr> else w
                    | None \<Rightarrow> w)
           in (w, found_tx s, oocTxs s, None))
      | None \<Rightarrow>
          if tsl_len (w_sorted w) = length (oocTxs s)
          then (w, None, oocTxs s, Some ErrTransactionsListEmpty)
          else (w, None, oocTxs s, Some ErrNoFittingTransaction))"

text \<open>
  \<open>GetBestFittingTx\<close> with its possible outcomes, one for each schedule of the goroutines.
  The results are the worker, the transaction, the out-of-counters list and the error.
\<close>

inductive GetBestFittingTx :: "nat \<Rightarrow> Worker \<Rightarrow> BatchResources \<Rightarrow> ZKCounters \<Rightarrow> bool \<Rightarrow>
    Worker \<times> TxTracker option \<times> TxTracker list \<times> seq_error option \<Rightarrow> bool" where
  reorged: "reorg_next (pool w) (reorgedTxs w) = (rest, Some tx) \<Longrightarrow>
     GetBestFittingTx nCPU w remaining high first
       (w\<lparr>wipTx := None, reorgedTxs := rest\<rparr>, Some tx, [], None)"
| empty_list: "reorg_next (pool w) (reorgedTxs w) = (rest, None) \<Longrightarrow> tsl_len (w_sorted w) = 0 \<Longrightarrow>
     GetBestFittingTx nCPU w remaining high first
       (w\<lparr>wipTx := None, reorgedTxs := rest\<rparr>, None, [], Some ErrTransactionsListEmpty)"
| searched: "reorg_next (pool w) (reorgedTxs w) = (rest, None) \<Longrightarrow> tsl_len (w_sorted w) \<noteq> 0 \<Longrightarrow>
     search_run (tsl_sorted (w_sorted w)) (candidate_fits remaining high) first nCPU s \<Longrightarrow> all_done s \<Longrightarrow>
     GetBestFittingTx nCPU w remaining high first
       (best_fit_result (w\<lparr>wipTx := None, reorgedTxs := rest\<rparr>) s)"

section \<open>Invariant of the search\<close>

definition pc_ok :: "TxTracker list \<Rightarrow> (TxTracker \<Rightarrow> bool) \<Rightarrow> nat option \<Rightarrow> pc \<Rightarrow> bool" where
  "pc_ok txs fits found p \<longleftrightarrow>
     (case p of
        AtLoop i \<Rightarrow> True
      | AtExamine i \<Rightarrow> i < length txs
      | AtStore i \<Rightarrow> i < length txs \<and> fits (txs ! i)
      | Done i \<Rightarrow> length txs \<le> i \<or> (\<exists>k. found = Some k \<and> k \<le> i))"

definition search_inv :: "TxTracker list \<Rightarrow> (TxTracker \<Rightarrow> bool) \<Rightarrow> nat \<Rightarrow> search \<Rightarrow> bool" where
  "search_inv txs fits n s \<longleftrightarrow>
     length (pcs s) = n \<and>
     (\<forall>g < n. pc_idx (pcs s ! g) mod n = g \<and> pc_ok txs fits (foundAt s) (pcs s ! g) \<and>
        (\<forall>j. j mod n = g \<and> j < pc_idx (pcs s ! g) \<and> j < length txs \<longrightarrow> \<not> fits (txs ! j))) \<and>
     (\<forall>k. foundAt s = Some k \<longrightarrow> k < length txs \<and> fits (txs ! k) \<and> found_tx s = Some (txs ! k))"

lemma search_inv_init: "search_inv txs fits n (search_init n)"
  by (auto simp: search_inv_def search_init_def pc_ok_def)
    (meson mod_less_eq_dividend not_less)

lemma stride_unique:
  fixes i j n :: nat
  assumes "j mod n = i mod n" and "\<not> j < i" and "j < i + n"
  shows "j = i"
proof -
  have "n dvd j - i" using assms by (simp add: mod_eq_dvd_iff_nat)
  moreover have "j - i < n" using assms by linarith
  ultimately have "j - i = 0" by (meson gr0I nat_dvd_not_less)
  then show ?thesis using assms by simp
qed

text \<open>A step moves one goroutine; the others keep what the invariant says of them.\<close>

lemma search_inv_move:
  assumes inv: "search_inv txs fits n s" and g: "g < n"
    and pcs': "pcs s' = (pcs s)[g := p]"
    and found: "foundAt s' = foundAt s \<or> (\<exists>i. foundAt s' = Some i \<and> (\<forall>k. foundAt s = Some k \<longrightarrow> i \<le> k))"
    and found_ok: "\<forall>k. foundAt s' = Some k \<longrightarrow> k < length txs \<and> fits (txs ! k) \<and> found_tx s' = Some (txs ! k)"
    and p: "pc_idx p mod n = g" "pc_ok txs fits (foundAt s') p"
    and seen: "\<And>j. j mod n = g \<Longrightarrow> j < pc_idx p \<Longrightarrow> j < length txs \<Longrightarrow> \<not> fits (txs ! j)"
  shows "search_inv txs fits n s'"
  unfolding search_inv_def
proof (intro conjI allI impI)
  show "length (pcs s') = n" using inv pcs' by (simp add: search_inv_def)
next
  fix h assume h: "h < n"
  have keep: "pc_ok txs fits (foundAt s') q" if "pc_ok txs fits (foundAt s) q" for q
    using that found by (cases q) (auto simp: pc_ok_def dest: order_trans)
  show "pc_idx (pcs s' ! h) mod n = h" "pc_ok txs fits (foundAt s') (pcs s' ! h)"
    using inv h p pcs' keep by (cases "h = g"; simp add: search_inv_def)+
  fix j assume j: "j mod n = h \<and> j < pc_idx (pcs s' ! h) \<and> j < length txs"
  show "\<not> fits (txs ! j)"
  proof (cases "h = g")
    case True
    then show ?thesis using seen j pcs' g inv by (simp add: search_inv_def)
  next
    case False
    then show ?thesis using j pcs' h inv by (simp add: search_inv_def)
  qed
qed (use found_ok in auto)

lemma search_invD:
  assumes "search_inv txs fits n s" and "g < length (pcs s)"
  shows "g < n" "pc_idx (pcs s ! g) mod n = g" "pc_ok txs fits (foundAt s) (pcs s ! g)"
    "\<And>j. j mod n = g \<Longrightarrow> j < pc_idx (pcs s ! g) \<Longrightarrow> j < length txs \<Longrightarrow> \<not> fits (txs ! j)"
    "\<forall>k. foundAt s = Some k \<longrightarrow> k < length txs \<and> fits (txs ! k) \<and> found_tx s = Some (txs ! k)"
  using assms by (simp_all add: search_inv_def)

lemma search_inv_step:
  assumes "search_step txs fits firstEmpty n s s'" and "search_inv txs fits n s" and "0 < n"
  shows "search_inv txs fits n s'"
  using assms
proof (induction rule: search_step.induct)
  case (loop_end g s i)
  note I = search_invD [OF loop_end(4,1), unfolded loop_end(2) pc_idx.simps]
  show ?case
    by (rule search_inv_move [OF loop_end(4) I(1), where p = "Done i"])
      (use I loop_end(3) in \<open>simp_all add: pc_ok_def\<close>)
next
  case (loop_found g s i k)
  note I = search_invD [OF loop_found(6,1), unfolded loop_found(2) pc_idx.simps]
  show ?case
    by (rule search_inv_move [OF loop_found(6) I(1), where p = "Done i"])
      (use I loop_found(4,5) in \<open>simp_all add: pc_ok_def\<close>)
next
  case (loop_go g s i)
  note I = search_invD [OF loop_go(5,1), unfolded loop_go(2) pc_idx.simps]
  show ?case
    by (rule search_inv_move [OF loop_go(5) I(1), where p = "AtExamine i"])
      (use I loop_go(3) in \<open>simp_all add: pc_ok_def\<close>)
next
  case (examine_skip g s i)
  note I = search_invD [OF examine_skip(4,1), unfolded examine_skip(2) pc_idx.simps]
  have seen: "\<not> fits (txs ! j)" if j: "j mod n = g" "j < i + n" "j < length txs" for j
    using I(4) [of j] stride_unique [of j n i] j I(2) examine_skip(3) by (cases "j < i") auto
  show ?case
    by (rule search_inv_move [OF examine_skip(4) I(1), where p = "AtLoop (i + n)"])
      (use I(2,5) seen in \<open>simp_all add: pc_ok_def\<close>)
next
  case (examine_fit g s i)
  note I = search_invD [OF examine_fit(4,1), unfolded examine_fit(2) pc_idx.simps]
  show ?case
    by (rule search_inv_move [OF examine_fit(4) I(1), where p = "AtStore i"])
      (use I examine_fit(3) in \<open>simp_all add: pc_ok_def\<close>)
next
  case (store_better g s i)
  note I = search_invD [OF store_better(4,1), unfolded store_better(2) pc_idx.simps]
  show ?case
    by (rule search_inv_move [OF store_better(4) I(1), where p = "Done i"])
      (use I store_better(3) in \<open>simp_all add: pc_ok_def less_imp_le\<close>)
next
  case (store_worse g s i k)
  note I = search_invD [OF store_worse(5,1), unfolded store_worse(2) pc_idx.simps]
  show ?case
    by (rule search_inv_move [OF store_worse(5) I(1), where p = "Done i"])
      (use I store_worse(3,4) in \<open>simp_all add: pc_ok_def\<close>)
qed

lemma search_run_inv:
  assumes "search_run txs fits firstEmpty n s" and "0 < n"
  shows "search_inv txs fits n s"
  using assms by (induction) (simp_all add: search_inv_init search_inv_step)

section \<open>The out-of-counters list\<close>

definition examined :: "TxTracker list \<Rightarrow> nat \<Rightarrow> search \<Rightarrow> nat set" where
  "examined txs n s = {j. j < length txs \<and> j < pc_idx (pcs s ! (j mod n))}"

lemma examined_move:
  assumes "pcs s' = (pcs s)[g := p]" and "pc_idx p = pc_idx (pcs s ! g)"
  shows "examined txs n s' = examined txs n s"
proof -
  have "pc_idx (pcs s' ! h) = pc_idx (pcs s ! h)" for h
    using assms by (cases "h = g"; cases "g < length (pcs s)") (simp_all add: list_update_beyond)
  then show ?thesis by (simp add: examined_def)
qed

lemma examined_skip:
  assumes "search_inv txs fits n s" and g: "g < length (pcs s)" and pc: "pcs s ! g = AtExamine i"
    and pcs': "pcs s' = (pcs s)[g := AtLoop (i + n)]"
  shows "examined txs n s' = insert i (examined txs n s)" and "i \<notin> examined txs n s" and "i < length txs"
proof -
  note I = search_invD [OF assms(1) g, unfolded pc pc_idx.simps]
  show "i < length txs" using I(3) by (simp add: pc_ok_def)
  then show "i \<notin> examined txs n s" using I(2) pc by (simp add: examined_def)
  have "j \<in> examined txs n s' \<longleftrightarrow> j = i \<or> j \<in> examined txs n s" for j
    using stride_unique [of j n i] I(1,2) pc pcs' g \<open>i < length txs\<close>
    by (cases "j mod n = g") (auto simp: examined_def)
  then show "examined txs n s' = insert i (examined txs n s)" by auto
qed

definition ooc_inv :: "TxTracker list \<Rightarrow> bool \<Rightarrow> nat \<Rightarrow> search \<Rightarrow> bool" where
  "ooc_inv txs firstEmpty n s \<longleftrightarrow>
     mset (oocTxs s) = (if firstEmpty then image_mset (\<lambda>j. txs ! j) (mset_set (examined txs n s)) else {#})"

lemma ooc_inv_move:
  assumes "ooc_inv txs firstEmpty n s" and "oocTxs s' = oocTxs s"
    and "pcs s' = (pcs s)[g := p]" and "pc_idx p = pc_idx (pcs s ! g)"
  shows "ooc_inv txs firstEmpty n s'"
  using assms examined_move [OF assms(3,4)] by (simp add: ooc_inv_def)

lemma search_run_ooc:
  assumes "search_run txs fits firstEmpty n s" and "0 < n"
  shows "ooc_inv txs firstEmpty n s"
  using assms
proof (induction)
  case start
  have "examined txs n (search_init n) = {}"
    using \<open>0 < n\<close> by (auto simp: examined_def search_init_def) (meson mod_less_eq_dividend not_less)
  then show ?case by (simp add: ooc_inv_def search_init_def)
next
  case (step s s')
  note inv = search_run_inv [OF step(1) \<open>0 < n\<close>]
  from step(2) show ?case
  proof (cases rule: search_step.cases)
    case (examine_skip g i)
    note ex = examined_skip [OF inv examine_skip(2,3), of s']
    have "finite (examined txs n s)" by (simp add: examined_def)
    then show ?thesis using step.IH \<open>0 < n\<close> ex examine_skip(1)
      by (cases firstEmpty) (simp_all add: ooc_inv_def)
  qed (use step.IH \<open>0 < n\<close> in \<open>auto intro: ooc_inv_move\<close>)
qed

section \<open>Result\<close>

lemma all_done_nth: "all_done s \<Longrightarrow> g < length (pcs s) \<Longrightarrow> \<exists>i. pcs s ! g = Done i"
  by (cases "pcs s ! g") (auto simp: all_done_def list_all_length)

lemma search_done:
  assumes run: "search_run txs fits firstEmpty n s" and "0 < n" and "all_done s"
    and j: "j < length txs" "foundAt s = None \<or> fits (txs ! j)"
  shows "(case foundAt s of None \<Rightarrow> \<not> fits (txs ! j) \<and> j \<in> examined txs n s | Some k \<Rightarrow> k \<le> j)"
proof -
  note inv = search_run_inv [OF run \<open>0 < n\<close>]
  then have g: "j mod n < length (pcs s)" using \<open>0 < n\<close> by (simp add: search_inv_def)
  then obtain i where i: "pcs s ! (j mod n) = Done i" using \<open>all_done s\<close> all_done_nth by blast
  note I = search_invD [OF inv g, unfolded i pc_idx.simps]
  show ?thesis using I(3) I(4) [of j] j i
    by (cases "j < i") (auto simp: pc_ok_def examined_def split: option.splits)
qed

text \<open>Every schedule finds what a sequential scan of the list finds.\<close>

lemma search_found:
  assumes run: "search_run txs fits firstEmpty n s" and "0 < n" and "all_done s"
  shows "(case foundAt s of None \<Rightarrow> None | Some _ \<Rightarrow> found_tx s) = find fits txs"
proof (cases "foundAt s")
  case None
  then have "\<not> fits (txs ! j)" if "j < length txs" for j
    using search_done [OF assms that] by simp
  then have "find fits txs = None" by (auto simp: find_None_iff in_set_conv_nth)
  then show ?thesis using None by simp
next
  case (Some k)
  have k: "k < length txs" "fits (txs ! k)" "found_tx s = Some (txs ! k)"
    using search_run_inv [OF run \<open>0 < n\<close>] Some by (simp_all add: search_inv_def)
  have "\<not> fits (txs ! j)" if "j < k" for j
    using search_done [OF assms, of j] that k Some by auto
  then have "find fits txs = Some (txs ! k)" using k by (auto simp: find_Some_iff)
  then show ?thesis using Some k by simp
qed

lemma search_found_None_iff:
  assumes "search_run txs fits firstEmpty n s" and "0 < n" and "all_done s"
  shows "foundAt s = None \<longleftrightarrow> find fits txs = None"
  using search_found [OF assms] search_run_inv [OF assms(1,2)]
  by (cases "foundAt s") (auto simp: search_inv_def)

lemma search_ooc_all:
  assumes "search_run txs fits firstEmpty n s" and "0 < n" and "all_done s" and "find fits txs = None"
  shows "mset (oocTxs s) = (if firstEmpty then mset txs else {#})"
proof -
  have None: "foundAt s = None" using search_found_None_iff [OF assms(1-3)] assms(4) by simp
  have "examined txs n s = {0..<length txs}"
    using search_done [OF assms(1-3)] None by (auto simp: examined_def)
  then have "image_mset (\<lambda>j. txs ! j) (mset_set (examined txs n s)) = mset txs"
    by (simp add: mset_map [symmetric] map_nth flip: mset_upt)
  then show ?thesis using search_run_ooc [OF assms(1,2)] by (simp add: ooc_inv_def)
qed

lemma search_ooc_unfit:
  assumes "search_run txs fits firstEmpty n s" and "0 < n" and "t \<in> set (oocTxs s)"
  shows "t \<in> set txs" and "\<not> fits t"
proof -
  note inv = search_run_inv [OF assms(1,2)]
  have fin: "finite (examined txs n s)" by (simp add: examined_def)
  have "mset (oocTxs s) = image_mset (\<lambda>j. txs ! j) (mset_set (examined txs n s))"
    using search_run_ooc [OF assms(1,2)] assms(3) by (cases firstEmpty) (auto simp: ooc_inv_def)
  then have "t \<in># image_mset (\<lambda>j. txs ! j) (mset_set (examined txs n s))"
    using assms(3) by (metis set_mset_mset)
  then obtain j where j: "j \<in> examined txs n s" and t: "t = txs ! j" using fin by auto
  then show "t \<in> set txs" by (simp add: examined_def)
  have "j mod n < length (pcs s)" using inv \<open>0 < n\<close> by (simp add: search_inv_def)
  from search_invD(4) [OF inv this] show "\<not> fits t" using j t by (simp add: examined_def)
qed

section \<open>Termination\<close>

fun pc_weight :: "nat \<Rightarrow> pc \<Rightarrow> nat" where
  "pc_weight len (AtLoop i) = 3 * (len - i) + 1"
| "pc_weight len (AtExamine i) = 3 * (len - i)"
| "pc_weight len (AtStore i) = 1"
| "pc_weight len (Done i) = 0"

definition search_weight :: "TxTracker list \<Rightarrow> search \<Rightarrow> nat" where
  "search_weight txs s = sum_list (map (pc_weight (length txs)) (pcs s))"

lemma search_weight_move:
  assumes "g < length (pcs s)" and "pcs s' = (pcs s)[g := p]"
    and "pc_weight (length txs) p < pc_weight (length txs) (pcs s ! g)"
  shows "search_weight txs s' < search_weight txs s"
proof -
  define ws where "ws = map (pc_weight (length txs)) (pcs s)"
  have g: "g < length ws" and w: "ws ! g = pc_weight (length txs) (pcs s ! g)"
    using assms(1) by (simp_all add: ws_def)
  have "search_weight txs s' = sum_list (ws[g := pc_weight (length txs) p])"
    by (simp add: search_weight_def assms(2) ws_def map_update)
  also have "\<dots> < sum_list ws"
    using assms(3) g w elem_le_sum_list [OF g] by (simp add: sum_list_update)
  finally show ?thesis by (simp add: search_weight_def ws_def)
qed

lemma search_weight_step:
  assumes "search_step txs fits firstEmpty n s s'" and "search_inv txs fits n s" and "0 < n"
  shows "search_weight txs s' < search_weight txs s"
  using assms(1)
proof (cases rule: search_step.cases)
  case (examine_skip g i)
  have "i < length txs" using search_invD(3) [OF assms(2) examine_skip(2)] examine_skip(3)
    by (simp add: pc_ok_def)
  then show ?thesis using examine_skip \<open>0 < n\<close>
    by (intro search_weight_move [where g = g and p = "AtLoop (i + n)"]) auto
next
  case (examine_fit g i)
  have "i < length txs" using search_invD(3) [OF assms(2) examine_fit(2)] examine_fit(3)
    by (simp add: pc_ok_def)
  then show ?thesis using examine_fit
    by (intro search_weight_move [where g = g and p = "AtStore i"]) auto
qed (auto intro: search_weight_move)

lemma search_progress:
  assumes "\<not> all_done s"
  shows "\<exists>s'. search_step txs fits firstEmpty n s s'"
proof -
  obtain g where g: "g < length (pcs s)" "\<not> is_done (pcs s ! g)"
    using assms by (auto simp: all_done_def list_all_length)
  show ?thesis
  proof (cases "pcs s ! g")
    case (AtLoop i)
    show ?thesis
    proof (cases "i < length txs \<and> (\<forall>k. foundAt s = Some k \<longrightarrow> \<not> i > k)")
      case True
      then show ?thesis using loop_go [OF g(1) AtLoop] by blast
    next
      case False
      then show ?thesis using loop_end [OF g(1) AtLoop] loop_found [OF g(1) AtLoop] by blast
    qed
  next
    case (AtExamine i)
    then show ?thesis using examine_skip [OF g(1) AtExamine] examine_fit [OF g(1) AtExamine] by blast
  next
    case (AtStore i)
    then show ?thesis using store_better [OF g(1) AtStore] store_worse [OF g(1) AtStore] by blast
  next
    case (Done i)
    then show ?thesis using g by simp
  qed
qed

lemma search_completes:
  assumes "search_run txs fits firstEmpty n s" and "0 < n"
  shows "\<exists>s'. search_run txs fits firstEmpty n s' \<and> all_done s'"
  using assms(1)
proof (induction "search_weight txs s" arbitrary: s rule: less_induct)
  case less
  show ?case
  proof (cases "all_done s")
    case True
    then show ?thesis using less.prems by blast
  next
    case False
    then obtain s' where s': "search_step txs fits firstEmpty n s s'" using search_progress by blast
    then show ?thesis
      using less.hyps [OF search_weight_step [OF s' search_run_inv [OF less.prems \<open>0 < n\<close>] \<open>0 < n\<close>]]
        less.prems search_run.step by blast
  qed
qed

lemma GetBestFittingTx_returns:
  assumes "0 < nCPU"
  shows "\<exists>r. GetBestFittingTx nCPU w remaining high first r"
proof -
  obtain rest tx where r: "reorg_next (pool w) (reorgedTxs w) = (rest, tx)" by fastforce
  obtain s where "search_run (tsl_sorted (w_sorted w)) (candidate_fits remaining high) first nCPU s" "all_done s"
    using search_completes [OF search_run.start assms] by blast
  then show ?thesis using r
    by (cases tx; cases "tsl_len (w_sorted w) = 0") (blast intro: GetBestFittingTx.intros)+
qed

section \<open>What the method returns\<close>

lemma reorg_next_ready:
  assumes "reorg_next queues txs = (rest, Some tx)"
  shows "tx \<in> set txs" and "set rest \<subseteq> set txs"
    and "\<exists>q r. map_of queues (FromStr tx) = Some q \<and> readyTx q = Some r \<and> Hash r = Hash tx"
  using assms by (induction txs) (auto split: option.splits if_splits)

lemma reorg_next_None:
  assumes "reorg_next queues txs = (rest, None)"
  shows "rest = []"
  using assms by (induction queues txs rule: reorg_next.induct) (auto split: option.splits if_splits)

text \<open>
  When no transaction of a reorganisation is returned, the method returns the first transaction
  of the sorted list that fits, and the error tells why there is none.
\<close>

lemma GetBestFittingTx_result:
  assumes call: "GetBestFittingTx nCPU w remaining high first (w', tx, ooc, err)" and n: "0 < nCPU"
    and noreorg: "snd (reorg_next (pool w) (reorgedTxs w)) = None"
  defines "txs \<equiv> tsl_sorted (w_sorted w)"
  shows "tx = find (candidate_fits remaining high) txs"
    and "err = (if tx \<noteq> None then None
                else if first \<or> txs = [] then Some ErrTransactionsListEmpty
                else Some ErrNoFittingTransaction)"
    and "wipTx w' = tx" and "reorgedTxs w' = []"
    and "set ooc \<subseteq> {t \<in> set txs. first \<and> \<not> candidate_fits remaining high t}"
    and "tx = None \<Longrightarrow> first \<Longrightarrow> mset ooc = mset txs"
proof -
  let ?P = "tx = find (candidate_fits remaining high) txs \<and>
    err = (if tx \<noteq> None then None else if first \<or> txs = [] then Some ErrTransactionsListEmpty
           else Some ErrNoFittingTransaction) \<and> wipTx w' = tx \<and> reorgedTxs w' = [] \<and>
    set ooc \<subseteq> {t \<in> set txs. first \<and> \<not> candidate_fits remaining high t} \<and>
    (tx = None \<longrightarrow> first \<longrightarrow> mset ooc = mset txs)"
  from call have ?P
  proof (cases rule: GetBestFittingTx.cases)
    case (reorged rest)
    then show ?thesis using noreorg by simp
  next
    case (empty_list rest)
    then show ?thesis using reorg_next_None [OF empty_list(5)] by (simp add: txs_def tsl_len_def)
  next
    case (searched rest s)
    note run = searched(4) [folded txs_def]
    have ooc: "set (oocTxs s) \<subseteq> {t \<in> set txs. first \<and> \<not> candidate_fits remaining high t}"
      using search_ooc_unfit [OF run n] search_run_ooc [OF run n] by (cases first) (auto simp: ooc_inv_def)
    have rest: "rest = []" using reorg_next_None [OF searched(2)] .
    have len: "length (oocTxs s) = (if first then length txs else 0)" if "foundAt s = None"
      using search_ooc_all [OF run n searched(5)] that search_found_None_iff [OF run n searched(5)]
      by (cases first) (auto dest: mset_eq_length)
    show ?thesis
    proof (cases "foundAt s")
      case None
      then have "find (candidate_fits remaining high) txs = None"
        using search_found_None_iff [OF run n searched(5)] by simp
      then show ?thesis using search_ooc_all [OF run n searched(5)] None searched(1,3) ooc rest len
        by (auto simp: best_fit_result_def tsl_len_def txs_def split: if_splits)
    next
      case (Some k)
      then have "found_tx s = find (candidate_fits remaining high) txs" "found_tx s \<noteq> None"
        using search_found [OF run n searched(5)] search_run_inv [OF run n] by (auto simp: search_inv_def)
      then show ?thesis using Some searched(1) ooc rest
        by (auto simp: best_fit_result_def Let_def split: option.splits if_splits)
    qed
  qed
  then show "tx = find (candidate_fits remaining high) txs"
    and "err = (if tx \<noteq> None then None
                else if first \<or> txs = [] then Some ErrTransactionsListEmpty
                else Some ErrNoFittingTransaction)"
    and "wipTx w' = tx" and "reorgedTxs w' = []"
    and "set ooc \<subseteq> {t \<in> set txs. first \<and> \<not> candidate_fits remaining high t}"
    and "tx = None \<Longrightarrow> first \<Longrightarrow> mset ooc = mset txs"
    by blast+
qed

text \<open>The worker afterwards is determined by the transaction that is returned.\<close>

lemma GetBestFittingTx_worker:
  assumes call: "GetBestFittingTx nCPU w remaining high first (w', tx, ooc, err)" and n: "0 < nCPU"
    and noreorg: "snd (reorg_next (pool w) (reorgedTxs w)) = None"
  shows "w' = w\<lparr>wipTx := tx, reorgedTxs := [],
     claimGp := (case tx of Some t \<Rightarrow> if IsClaimTx t then claimGp w else GasPrice t | None \<Rightarrow> claimGp w)\<rparr>"
  using call
proof (cases rule: GetBestFittingTx.cases)
  case (reorged rest)
  then show ?thesis using noreorg by simp
next
  case (empty_list rest)
  then show ?thesis using reorg_next_None [OF empty_list(5)] by simp
next
  case (searched rest s)
  have "foundAt s = Some k \<Longrightarrow> found_tx s \<noteq> None" for k
    using search_run_inv [OF searched(4) n] by (auto simp: search_inv_def)
  then show ?thesis using searched(1) reorg_next_None [OF searched(2)]
    by (auto simp: best_fit_result_def Let_def split: option.splits if_splits)
qed

lemma GetBestFittingTx_reorged:
  assumes "GetBestFittingTx nCPU w remaining high first (w', tx, ooc, err)"
    and "snd (reorg_next (pool w) (reorgedTxs w)) = Some t"
  shows "w' = w\<lparr>wipTx := None, reorgedTxs := fst (reorg_next (pool w) (reorgedTxs w))\<rparr> \<and> tx = Some t \<and> err = None"
  using assms by (cases rule: GetBestFittingTx.cases) auto

end
