(* ===== verification/WorkerMachine.thy ===== *)
theory WorkerMachine
  imports WorkerSteps BestFit
begin

text \<open>
  The worker as a state machine: the calls that the pool loader, the finalizer and the
  synchronizer make, in any order, with any account data and any order of ranging over the
  queues. Every call is one step: the calls hold the mutex of the worker. \<open>AddTxTracker\<close> gives it up
  while it reads the account of a new address; it has one caller, the goroutine that loads the pool.
\<close>

section \<open>Calls\<close>

datatype worker_call =
    CallAddTx stateIntf TxTracker
  | CallUpdateAfter address "(address, InfoReadWrite) gomap"
  | CallMoveToNotReady hash address "uint64 option" "bigint option"
  | CallDeleteTx hash address
  | CallAddForced hash address
  | CallDeleteForced hash address
  | CallUpdateCounters hash address ZKCounters ZKCounters
  | CallMovePending hash address
  | CallDeletePending hash address
  | CallRestore stateIntf "address list"
  | CallExpire "TxTracker \<Rightarrow> go_time" int
  | CallClaimGp bigint

fun run_call :: "worker_env \<Rightarrow> worker_call \<Rightarrow> Worker \<Rightarrow> Worker option" where
  "run_call env (CallAddTx st tx) w = map_option fst (addTxTracker env st w tx)"
| "run_call env (CallUpdateAfter a touched) w =
     map_option fst (UpdateAfterSingleSuccessfulTxExecution env w a touched)"
| "run_call env (CallMoveToNotReady h a n b) w = map_option fst (MoveTxToNotReady env w h a n b)"
| "run_call env (CallDeleteTx h a) w = DeleteTx env w h a"
| "run_call env (CallAddForced h a) w = Some (AddForcedTx env w h a)"
| "run_call env (CallDeleteForced h a) w = Some (DeleteForcedTx env w h a)"
| "run_call env (CallUpdateCounters h a u r) w = Some (UpdateTxZKCounters env w h a u r)"
| "run_call env (CallMovePending h a) w = MoveTxPendingToStore env w h a"
| "run_call env (CallDeletePending h a) w = DeleteTxPendingToStore env w h a"
| "run_call env (CallRestore st order) w = map_option fst (RestoreTxsPendingToStore env st order w)"
| "run_call env (CallExpire now mx) w = map_option fst (w_ExpireTransactions now mx w)"
| "run_call env (CallClaimGp gp) w = Some (fst (getBaseClaimGp w gp))"

text \<open>What the callers guarantee: a tracker that is added was built by \<open>newTxTracker\<close>.\<close>

fun call_ok :: "worker_env \<Rightarrow> (string \<Rightarrow> string) \<Rightarrow> worker_call \<Rightarrow> bool" where
  "call_ok env so (CallAddTx st tx) = tracker_ok env so tx"
| "call_ok env so _ = True"

text \<open>
  The only call that can panic is the deletion of a pending transaction, when two pending
  transactions have its hash.
\<close>

fun no_panic_pre :: "worker_call \<Rightarrow> Worker \<Rightarrow> bool" where
  "no_panic_pre (CallDeletePending h a) w = (pending_count h (pendingToStore w) \<le> 1)"
| "no_panic_pre _ w = True"

lemma pending_loop_subset:
  "pending_loop h i arr m found = Some (p, f) \<Longrightarrow> set p \<subseteq> set arr"
proof (induction h i arr m found rule: pending_loop.induct)
  case (1 h i arr m found)
  define arr' where "arr' = take i arr @ take (m - (i + 1)) (drop (i + 1) arr) @ drop (m - 1) arr"
  have sub: "set arr' \<subseteq> set arr"
    by (auto simp: arr'_def dest: in_set_takeD in_set_dropD)
  have IH: "i < length arr \<Longrightarrow> Hash (arr ! i) = h \<Longrightarrow> i + 1 \<le> m \<Longrightarrow>
      pending_loop h (i + 1) arr' (m - 1) True = Some (p, f) \<Longrightarrow> set p \<subseteq> set arr'"
    using 1(1) unfolding arr'_def by blast
  show ?case
    using 1(2,3) IH sub unfolding pending_loop.simps [of h i arr m found] arr'_def [symmetric]
    by (auto split: if_splits dest: in_set_takeD)
qed

lemma DeleteTxPendingToStore_keeps:
  assumes "w_wf env so w" and "DeleteTxPendingToStore env w h a = Some w'"
  shows "w_wf env so w'"
proof -
  obtain p f where p: "pending_loop h 0 (pendingToStore w) (length (pendingToStore w)) False = Some (p, f)"
    and w': "w' = on_queue env (w\<lparr>pendingToStore := p\<rparr>) a (\<lambda>q. aq_deletePendingTxToStore q h)"
    using assms(2) by (auto simp: DeleteTxPendingToStore_def)
  have "w_wf env so (w\<lparr>pendingToStore := p\<rparr>)"
    by (rule w_wf_frame [OF assms(1)]) (use pending_loop_subset [OF p] in simp_all)
  then show ?thesis unfolding w' by (rule queue_sets_wf(4))
qed

lemma getBaseClaimGp_wf: "w_wf env so w \<Longrightarrow> w_wf env so (fst (getBaseClaimGp w gp))"
  by (erule w_wf_frame) (simp_all add: getBaseClaimGp_def Let_def)

lemma run_call_wf:
  assumes "w_wf env so w" and "call_ok env so c" and "run_call env c w = Some w'"
  shows "w_wf env so w'"
proof (cases c)
  case (CallAddTx st tx)
  then show ?thesis using assms addTxTracker_wf [OF assms(1), of tx st] by auto
next
  case (CallUpdateAfter a touched)
  then show ?thesis using assms UpdateAfterSingleSuccessfulTxExecution_wf [OF assms(1), of a touched] by auto
next
  case (CallMoveToNotReady h a n b)
  then show ?thesis using assms MoveTxToNotReady_wf [OF assms(1), of h a n b] by auto
next
  case (CallDeleteTx h a)
  then show ?thesis using assms DeleteTx_wf [OF assms(1), of h a] by auto
next
  case (CallMovePending h a)
  then show ?thesis using assms MoveTxPendingToStore_wf [OF assms(1), of h a] by auto
next
  case (CallRestore st order)
  then show ?thesis using assms RestoreTxsPendingToStore_wf [OF assms(1), of st order] by auto
next
  case (CallExpire now mx)
  then show ?thesis using assms w_ExpireTransactions_wf [OF assms(1), of now mx] by auto
qed (use assms queue_sets_wf UpdateTxZKCounters_wf DeleteTxPendingToStore_keeps getBaseClaimGp_wf in auto)

lemma run_call_returns:
  assumes "w_wf env so w" and "call_ok env so c" and "no_panic_pre c w"
  shows "\<exists>w'. run_call env c w = Some w'"
proof (cases c)
  case (CallAddTx st tx)
  then show ?thesis using assms addTxTracker_wf [OF assms(1), of tx st] by auto
next
  case (CallUpdateAfter a touched)
  then show ?thesis using UpdateAfterSingleSuccessfulTxExecution_wf [OF assms(1), of a touched] by auto
next
  case (CallMoveToNotReady h a n b)
  then show ?thesis using MoveTxToNotReady_wf [OF assms(1), of h a n b] by auto
next
  case (CallDeleteTx h a)
  then show ?thesis using DeleteTx_wf [OF assms(1), of h a] by auto
next
  case (CallMovePending h a)
  then show ?thesis using MoveTxPendingToStore_wf [OF assms(1), of h a] by auto
next
  case (CallDeletePending h a)
  then show ?thesis using DeleteTxPendingToStore_wf [OF assms(1), of h a] assms(3) by (auto simp: pending_count_def)
next
  case (CallRestore st order)
  then show ?thesis using RestoreTxsPendingToStore_wf [OF assms(1), of st order] by auto
next
  case (CallExpire now mx)
  then show ?thesis using w_ExpireTransactions_wf [OF assms(1), of now mx] by auto
qed auto

section \<open>The sequential machine\<close>

inductive worker_reach :: "worker_env \<Rightarrow> (string \<Rightarrow> string) \<Rightarrow> Worker \<Rightarrow> bool" for env so where
  init: "worker_reach env so (NewWorker c)"
| call: "worker_reach env so w \<Longrightarrow> call_ok env so c \<Longrightarrow> run_call env c w = Some w' \<Longrightarrow> worker_reach env so w'"
| pick: "worker_reach env so w \<Longrightarrow> GetBestFittingTx nCPU w remaining high first (w', r) \<Longrightarrow> worker_reach env so w'"
| reorder: "worker_reach env so w \<Longrightarrow> mset p = mset (pool w) \<Longrightarrow> worker_reach env so (w\<lparr>pool := p\<rparr>)"

lemma GetBestFittingTx_frame:
  assumes "GetBestFittingTx nCPU w remaining high first (w', r)"
  shows "pool w' = pool w \<and> w_sorted w' = w_sorted w \<and> pendingToStore w' = pendingToStore w"
  using assms
  by (cases rule: GetBestFittingTx.cases) (auto simp: best_fit_result_def Let_def split: option.splits if_splits)

lemma w_wf_reorder:
  assumes "w_wf env so w" and "mset p = mset (pool w)"
  shows "w_wf env so (w\<lparr>pool := p\<rparr>)"
proof -
  have wf: "gomap_wf p"
    using w_wfD(1) [OF assms(1)] assms(2)
    by (metis gomap_wf_def mset_eq_imp_distinct_iff mset_map)
  have "map_of p = map_of (pool w)"
    using wf w_wfD(1) [OF assms(1)] mset_eq_setD [OF assms(2)]
    unfolding gomap_wf_def by (metis map_of_inject_set)
  then show ?thesis using assms(1) wf by (simp add: w_wf_def ready_set_def)
qed

lemma worker_reach_wf: "worker_reach env so w \<Longrightarrow> w_wf env so w"
proof (induction rule: worker_reach.induct)
  case (pick w nCPU remaining high first w' r)
  then show ?case using GetBestFittingTx_frame [OF pick(2)] by (auto intro: w_wf_frame)
qed (auto intro: w_wf_new run_call_wf w_wf_reorder)

section \<open>A concrete worker\<close>

definition race_env :: worker_env where
  "race_env = \<lparr>hash_str = (\<lambda>h. if h = 1 then ''h1'' else ''h2''), addr_str = (\<lambda>_. ''A''), validIP = (\<lambda>_. True)\<rparr>"

definition race_state :: stateIntf where
  "race_state = \<lparr>GetLastStateRoot = Inr 0, GetNonceByStateRoot = (\<lambda>_ _. Inr 0), GetBalanceByStateRoot = (\<lambda>_ _. Inr 10)\<rparr>"

definition race_worker :: Worker where
  "race_worker = NewWorker \<lparr>MaxTxsPerBatch = 0, MaxBatchBytesSize = 0, MaxCumulativeGasUsed = 0, MaxKeccakHashes = 0,
     MaxPoseidonHashes = 0, MaxPoseidonPaddings = 0, MaxMemAligns = 0, MaxArithmetics = 0, MaxBinaries = 0,
     MaxSteps = 0, MaxSHA256Hashes = 0\<rparr>"

abbreviation "race_t1 \<equiv> sample_tx 1 ''h1'' 0 5 10"
abbreviation "race_t2 \<equiv> sample_tx 2 ''h2'' 0 5 10"

end
