(* ===== verification/QueueSpec.thy ===== *)
theory QueueSpec
  imports AddrQueue
begin

text \<open>
  What the address queue promises beyond its invariant: no transaction is lost when the account
  moves forward, the transaction that can be executed is the ready one, and the outcome of
  adding a transaction is decided by the transactions of the same nonce.
\<close>

section \<open>Counting transactions\<close>

definition queue_hashes :: "addrQueue \<Rightarrow> string multiset" where
  "queue_hashes a = mset (map HashStr (aq_getTransactions a))"

lemma mset_delete_key:
  assumes "gomap_wf m" and "map_of m k = Some v"
  shows "mset (map snd m) = add_mset v (mset (map snd (AList.delete k m)))"
  using assms
proof (induction m)
  case Nil
  then show ?case by simp
next
  case (Cons x m)
  obtain k' v' where x: "x = (k', v')" by (cases x)
  have wf: "gomap_wf m" using Cons.prems(1) by (simp add: gomap_wf_def)
  show ?case
  proof (cases "k' = k")
    case True
    then have "map_of m k = None" using Cons.prems(1) x by (simp add: gomap_wf_def map_of_eq_None_iff)
    then show ?thesis using Cons.prems True x by (simp add: gomap_delete_lookup_None)
  next
    case False
    then show ?thesis using Cons.IH [OF wf] Cons.prems(2) x by simp
  qed
qed

lemma fold_delete_filter:
  "fold (\<lambda>t m. AList.delete (Nonce t) m) ts m = filter (\<lambda>(k, _). k \<notin> Nonce ` set ts) m"
proof (induction ts arbitrary: m)
  case Nil
  then show ?case by (simp add: case_prod_unfold)
next
  case (Cons t ts)
  then show ?case by (auto simp: AList.delete_eq intro!: filter_cong)
qed

lemma mset_map_partition:
  "mset (map f xs) = mset (map f (filter (\<lambda>x. \<not> P x) xs)) + mset (map f (filter P xs))"
  by (induction xs) simp_all

lemma update_nonce_hashes:
  assumes "aq_wf a" and "(a1, dels) = update_nonce_balance a nonce balance"
  shows "queue_hashes a = queue_hashes a1 + mset (map HashStr dels)"
proof (cases "\<exists>n. nonce = Some n \<and> n \<noteq> currentNonce a")
  case True
  then obtain n where n: "nonce = Some n" "n \<noteq> currentNonce a" by blast
  let ?m = "notReadyTxs a" and ?low = "\<lambda>t. Nonce t < n"
  have key: "Nonce t = k" if "(k, t) \<in> set ?m" for k t
    using that aq_wfD(5) [OF assms(1)] gomap_lookup_iff [OF aq_wfD(1) [OF assms(1)]]
    by (simp add: not_ready_ok_def)
  have eq: "dels = map set_invalid_nonce (filter ?low (map snd ?m))"
    "notReadyTxs a1 = fold (\<lambda>t m. AList.delete (Nonce t) m) (filter ?low (map snd ?m)) ?m"
    "readyTx a1 = readyTx a"
    using assms(2) n
    by (auto simp: update_nonce_balance_def Let_def fold_map comp_def split: option.splits)
  have "fst x \<in> Nonce ` set (filter ?low (map snd ?m)) \<longleftrightarrow> ?low (snd x)" if x: "x \<in> set ?m" for x
    using key [of "fst x" "snd x"] imageI [of "snd x" "set (filter ?low (map snd ?m))" Nonce] x by auto
  then have "notReadyTxs a1 = filter (\<lambda>kt. \<not> ?low (snd kt)) ?m"
    unfolding eq(2) fold_delete_filter by (intro filter_cong refl) (simp only: split_beta)
  then have "map snd (notReadyTxs a1) = filter (\<lambda>t. \<not> ?low t) (map snd ?m)"
    by (simp add: filter_map comp_def)
  moreover have "mset (map HashStr (map snd ?m)) =
      mset (map HashStr (filter (\<lambda>t. \<not> ?low t) (map snd ?m))) + mset (map HashStr (filter ?low (map snd ?m)))"
    by (rule mset_map_partition)
  moreover have "map HashStr dels = map HashStr (filter ?low (map snd ?m))" by (simp add: eq(1))
  ultimately show ?thesis
    by (simp add: queue_hashes_def aq_getTransactions_def eq(3) split: option.split)
next
  case False
  then show ?thesis using assms(2)
    by (cases nonce; cases balance)
      (auto simp: update_nonce_balance_def queue_hashes_def aq_getTransactions_def split: option.splits)
qed

lemma demote_hashes:
  "demote_ready a = (a2, oldR) \<Longrightarrow> queue_hashes a = queue_hashes a2 + mset (map HashStr (case oldR of Some r \<Rightarrow> [r] | None \<Rightarrow> []))"
  by (auto simp: demote_ready_def queue_hashes_def aq_getTransactions_def split: option.splits if_splits)

lemma promote_hashes: "aq_wf a \<Longrightarrow> queue_hashes (promote_ready a) = queue_hashes a"
proof -
  assume wf: "aq_wf a"
  have "mset (map HashStr (map snd (notReadyTxs a))) =
      add_mset (HashStr t) (mset (map HashStr (map snd (AList.delete k (notReadyTxs a)))))"
    if "map_of (notReadyTxs a) k = Some t" for k t
    using mset_delete_key [OF aq_wfD(1) [OF wf] that] by (metis image_mset_add_mset mset_map)
  then show ?thesis
    by (simp add: promote_ready_def queue_hashes_def aq_getTransactions_def split: option.split)
qed

lemma promote_simps [simp]:
  "currentNonce (promote_ready a) = currentNonce a" "currentBalance (promote_ready a) = currentBalance a"
  by (simp_all add: promote_ready_def split: option.split)

lemma demote_simps:
  assumes "demote_ready a = (a2, oldR)"
  shows "currentNonce a2 = currentNonce a" "currentBalance a2 = currentBalance a"
    "oldR = Some r \<Longrightarrow> readyTx a = Some r \<and> readyTx a2 = None \<and>
       (Nonce r \<noteq> currentNonce a \<or> currentBalance a < Cost r)"
  using assms by (auto simp: demote_ready_def big_Cmp_simps split: option.splits if_splits)

lemma update_conserves:
  assumes wf: "aq_wf a" and up: "updateCurrentNonceBalance a nonce balance = (a', new, prev, dels)"
    and fwd: "\<And>n. nonce = Some n \<Longrightarrow> currentNonce a \<le> n"
  shows "queue_hashes a = queue_hashes a' + mset (map HashStr dels)"
proof -
  obtain a1 d1 where 1: "(a1, d1) = update_nonce_balance a nonce balance" by (metis surj_pair)
  obtain a2 oldR where 2: "demote_ready a1 = (a2, oldR)" by fastforce
  have wf2: "aq_wf a2" using demote_ready_wf [OF update_nonce_wf [OF wf 1]] 2 by simp
  have le: "currentNonce a \<le> currentNonce a1"
    using fwd update_nonce_simps(5) [OF 1] by (auto split: option.split)
  have old: "\<not> Nonce r > currentNonce (promote_ready a2)" if "oldR = Some r" for r
    using demote_simps(1,3) [OF 2] that le update_nonce_simps(1) [OF 1] aq_wfD(4) [OF wf]
    by (simp add: ready_ok_def)
  have a': "a' = promote_ready a2"
    and dels: "dels = d1 @ map set_invalid_nonce (case oldR of Some r \<Rightarrow> [r] | None \<Rightarrow> [])"
    using up old by (auto simp: updateCurrentNonceBalance_def 1 [symmetric] 2 Let_def split: option.splits)
  show ?thesis
    using update_nonce_hashes [OF wf 1] demote_hashes [OF 2] promote_hashes [OF wf2]
    by (simp add: a' dels comp_def ac_simps)
qed

lemma update_promotes:
  assumes up: "updateCurrentNonceBalance a nonce balance = (a', new, prev, dels)"
    and none: "readyTx a' = None" and t: "map_of (notReadyTxs a') (currentNonce a') = Some t"
  shows "currentBalance a' < Cost t"
proof -
  obtain a1 d1 where 1: "(a1, d1) = update_nonce_balance a nonce balance" by (metis surj_pair)
  obtain a2 oldR where 2: "demote_ready a1 = (a2, oldR)" by fastforce
  have "readyTx (promote_ready a2) = None" "map_of (notReadyTxs (promote_ready a2)) (currentNonce a2) = Some t"
    "currentBalance a' = currentBalance a2"
    using up none t
    by (auto simp: updateCurrentNonceBalance_def 1 [symmetric] 2 Let_def split: option.splits if_splits)
  then show ?thesis by (auto simp: promote_ready_def big_Cmp_simps split: option.splits if_splits)
qed

lemma update_nonce_dels:
  assumes "(a1, dels) = update_nonce_balance a nonce balance" and "t \<in> set dels"
  shows "Nonce t < currentNonce a1 \<and> FailedReason t = Some invalid_nonce_reason"
  using assms
  by (auto simp: update_nonce_balance_def Let_def set_invalid_nonce_def split: option.splits if_splits)

text \<open>Why a transaction is handed back for deletion.\<close>

lemma update_dels:
  assumes up: "updateCurrentNonceBalance a nonce balance = (a', new, prev, dels)" and t: "t \<in> set dels"
  shows "FailedReason t = Some invalid_nonce_reason"
    and "Nonce t < currentNonce a' \<or> Nonce t = currentNonce a' \<and> currentBalance a' < Cost t"
proof -
  obtain a1 d1 where 1: "(a1, d1) = update_nonce_balance a nonce balance" by (metis surj_pair)
  obtain a2 oldR where 2: "demote_ready a1 = (a2, oldR)" by fastforce
  have cur: "currentNonce a' = currentNonce a1" "currentBalance a' = currentBalance a1"
    using up demote_simps(1,2) [OF 2]
    by (auto simp: updateCurrentNonceBalance_def 1 [symmetric] 2 Let_def split: option.splits if_splits)
  have cases: "t \<in> set d1 \<or> (\<exists>r. oldR = Some r \<and> t = set_invalid_nonce r \<and> \<not> Nonce r > currentNonce a')"
    using up t cur(1) demote_simps(1) [OF 2]
    by (auto simp: updateCurrentNonceBalance_def 1 [symmetric] 2 Let_def split: option.splits if_splits)
  then show "FailedReason t = Some invalid_nonce_reason"
    using update_nonce_dels [OF 1] by (auto simp: set_invalid_nonce_def)
  show "Nonce t < currentNonce a' \<or> Nonce t = currentNonce a' \<and> currentBalance a' < Cost t"
    using cases update_nonce_dels [OF 1] demote_simps(3) [OF 2] cur by auto
qed

section \<open>Adding\<close>

lemma update_sets:
  assumes "updateCurrentNonceBalance a nonce balance = (a', newReady, prevReady, toDelete)"
  shows "currentNonce a' = (case nonce of Some n \<Rightarrow> n | None \<Rightarrow> currentNonce a)"
    and "currentBalance a' = (case balance of Some b \<Rightarrow> b | None \<Rightarrow> currentBalance a)"
    and "prevReady = (case readyTx a of
      Some t \<Rightarrow> if Nonce t = currentNonce a' \<and> Cost t \<le> currentBalance a' then None else Some t
    | None \<Rightarrow> None)"
proof -
  obtain a1 d1 where 1: "(a1, d1) = update_nonce_balance a nonce balance" by (metis surj_pair)
  obtain a2 oldR where 2: "demote_ready a1 = (a2, oldR)" by fastforce
  have a1: "currentNonce a1 = (case nonce of Some n \<Rightarrow> n | None \<Rightarrow> currentNonce a)"
    "currentBalance a1 = (case balance of Some b \<Rightarrow> b | None \<Rightarrow> currentBalance a)" "readyTx a1 = readyTx a"
    using 1 by (auto simp: update_nonce_balance_def Let_def split: option.splits if_splits)
  have a': "currentNonce a' = currentNonce a1" "currentBalance a' = currentBalance a1" "prevReady = oldR"
    using assms demote_simps(1,2) [OF 2]
    by (auto simp: updateCurrentNonceBalance_def 1 [symmetric] 2 Let_def split: option.splits if_splits)
  show "currentNonce a' = (case nonce of Some n \<Rightarrow> n | None \<Rightarrow> currentNonce a)"
    "currentBalance a' = (case balance of Some b \<Rightarrow> b | None \<Rightarrow> currentBalance a)" using a' a1 by simp_all
  show "prevReady = (case readyTx a of
      Some t \<Rightarrow> if Nonce t = currentNonce a' \<and> Cost t \<le> currentBalance a' then None else Some t
    | None \<Rightarrow> None)"
    using 2 a1(3) unfolding a' by (auto simp: demote_ready_def big_Cmp_simps split: option.splits if_splits)
qed

text \<open>The transaction of the queue that holds a nonce, if any: the ready one first.\<close>

definition holder :: "addrQueue \<Rightarrow> uint64 \<Rightarrow> TxTracker option" where
  "holder a n = (case readyTx a of
       Some r \<Rightarrow> if Nonce r = n then Some r else map_of (notReadyTxs a) n
     | None \<Rightarrow> map_of (notReadyTxs a) n)"

lemma holder_current:
  assumes "aq_wf a" and "n \<noteq> currentNonce a"
  shows "holder a n = map_of (notReadyTxs a) n"
  using assms(2) aq_wfD(4) [OF assms(1)] by (auto simp: holder_def ready_ok_def split: option.split)

text \<open>
  The transaction that a new one competes with: the ready one at the current nonce, the waiting one at a later nonce. A
  transaction that waits for balance at the current nonce does not compete, see \<open>addTx_silent_replace\<close>.
\<close>

definition rival :: "addrQueue \<Rightarrow> TxTracker \<Rightarrow> TxTracker option" where
  "rival a tx = (if Nonce tx = currentNonce a then readyTx a else map_of (notReadyTxs a) (Nonce tx))"

lemma addTx_drop_reason:
  assumes add: "aq_addTx a tx = (a', new, prev, rep, dropReason)"
  shows "dropReason = (if Nonce tx < currentNonce a then Some ErrIntrinsicInvalidNonce
      else case rival a tx of
        Some r \<Rightarrow> if GasPrice tx < GasPrice r then Some ErrDuplicatedNonce else None
      | None \<Rightarrow> None)"
proof (cases "Nonce tx = currentNonce a")
  case True
  then show ?thesis using add
    by (cases "readyTx a") (auto simp: aq_addTx_def Let_def rival_def big_Cmp_simps split: if_splits)
next
  case False
  then show ?thesis using add
    by (cases "map_of (notReadyTxs a) (Nonce tx)")
      (auto simp: aq_addTx_def big_Cmp_simps rival_def eq_commute [of "currentNonce a"] split: if_splits)
qed

lemma addTx_dropped:
  assumes add: "aq_addTx a tx = (a', new, prev, rep, Some e)"
  shows "a' = a \<and> new = None \<and> prev = None \<and> rep = None"
proof (cases "Nonce tx = currentNonce a")
  case True
  then show ?thesis using add
    by (cases "readyTx a") (simp_all add: aq_addTx_def Let_def big_Cmp_simps split: if_splits)
next
  case False
  then show ?thesis using add
    by (cases "map_of (notReadyTxs a) (Nonce tx)")
      (simp_all add: aq_addTx_def big_Cmp_simps eq_commute [of "currentNonce a"] split: if_splits)
qed

lemma addTx_added:
  assumes wf: "aq_wf a" and add: "aq_addTx a tx = (a', new, prev, rep, None)"
  shows "holder a' (Nonce tx) = Some tx \<and> (\<forall>k. k \<noteq> Nonce tx \<longrightarrow> holder a' k = holder a k) \<and>
    new = (if Nonce tx = currentNonce a \<and> Cost tx \<le> currentBalance a then Some tx else None) \<and>
    readyTx a' = (if Nonce tx = currentNonce a then new else readyTx a)"
proof (cases "Nonce tx = currentNonce a")
  case True
  then show ?thesis using add aq_wfD(4) [OF wf]
    by (cases "readyTx a") (auto simp: aq_addTx_def Let_def holder_def big_Cmp_simps ready_ok_def split: if_splits)
next
  case False
  then have "holder a (Nonce tx) = map_of (notReadyTxs a) (Nonce tx)" by (rule holder_current [OF wf])
  moreover have "\<And>r. readyTx a = Some r \<Longrightarrow> Nonce r \<noteq> Nonce tx"
    using aq_wfD(4) [OF wf] False by (auto simp: ready_ok_def)
  ultimately show ?thesis using add False
    by (cases "map_of (notReadyTxs a) (Nonce tx)"; cases "readyTx a")
      (auto simp: aq_addTx_def big_Cmp_simps holder_def not_less eq_commute [of "currentNonce a"] split: if_splits)
qed

lemma addTx_reported:
  assumes add: "aq_addTx a tx = (a', new, prev, rep, None)"
  shows "prev = (if Nonce tx = currentNonce a then readyTx a else None) \<and>
    rep = (case rival a tx of Some r \<Rightarrow> if HashStr r \<noteq> HashStr tx then Some r else None | None \<Rightarrow> None) \<and>
    currentNonce a' = currentNonce a \<and> currentBalance a' = currentBalance a \<and> forcedTxs a' = forcedTxs a \<and>
    pendingTxsToStore a' = pendingTxsToStore a"
proof (cases "Nonce tx = currentNonce a")
  case True
  then show ?thesis using add
    by (cases "readyTx a") (auto simp: aq_addTx_def Let_def rival_def big_Cmp_simps split: if_splits)
next
  case False
  then show ?thesis using add
    by (cases "map_of (notReadyTxs a) (Nonce tx)")
      (auto simp: aq_addTx_def big_Cmp_simps rival_def eq_commute [of "currentNonce a"] split: if_splits)
qed

text \<open>
  A transaction that waits for balance at the current nonce is replaced by any other one,
  whatever the prices, and is not reported.
\<close>

lemma addTx_silent_replace:
  assumes "readyTx a = None" and "Nonce tx = currentNonce a" and "currentBalance a < Cost tx"
  shows "aq_addTx a tx =
    (a\<lparr>readyTx := None, notReadyTxs := AList.update (Nonce tx) tx (notReadyTxs a)\<rparr>, None, None, None, None)"
  using assms by (simp add: aq_addTx_def big_Cmp_simps not_le)

end
