(* ===== verification/SequencerSpec.thy ===== *)
theory SequencerSpec
  imports WorkerMachine QueueSpec
begin

text \<open>
  The properties of the sequencer's worker and of the structures it is built from. The proofs
  use the lemmas of the component theories; the examples are the transactions and the worker
  of the theories \<open>TxTracking\<close> and \<open>WorkerMachine\<close>.
\<close>

section \<open>The worker\<close>

text \<open>
  C2. In every state the worker can reach by any sequence of its calls, the sorted list holds
  exactly the ready transactions of the address queues, each hash once, in descending order of
  gas price; and a ready transaction is the one its account can execute now: its nonce is the
  current nonce of the account and its cost is covered by the balance.
\<close>

theorem worker_reachable_sync:
  assumes "worker_reach env sender_of w"
  shows "set (tsl_sorted (w_sorted w)) = ready_set w \<and>
    distinct (map HashStr (tsl_sorted (w_sorted w))) \<and>
    sorted_wrt (\<lambda>a b. GasPrice b \<le> GasPrice a) (tsl_sorted (w_sorted w)) \<and>
    (\<forall>t. t \<in> ready_set w \<longrightarrow> (\<exists>q. map_of (pool w) (FromStr t) = Some q \<and> readyTx q = Some t \<and>
           Nonce t = currentNonce q \<and> Cost t \<le> currentBalance q))"
proof (intro conjI)
  note wf = worker_reach_wf [OF assms]
  show "set (tsl_sorted (w_sorted w)) = ready_set w" using w_wfD(4) [OF wf] .
  show "distinct (map HashStr (tsl_sorted (w_sorted w)))" using tsl.wf_distinct [OF w_wfD(2) [OF wf]] .
  show "sorted_wrt (\<lambda>a b. GasPrice b \<le> GasPrice a) (tsl_sorted (w_sorted w))"
    using tsl.wf_sorted [OF w_wfD(2) [OF wf]] .
  show "\<forall>t. t \<in> ready_set w \<longrightarrow> (\<exists>q. map_of (pool w) (FromStr t) = Some q \<and> readyTx q = Some t \<and>
           Nonce t = currentNonce q \<and> Cost t \<le> currentBalance q)"
    using queue_ok_ready [OF w_wfD(3) [OF wf]] unfolding ready_set_def ready_ok_def by fastforce
qed

text \<open>The example worker after one transaction was added.\<close>

definition sample_worker :: Worker where
  "sample_worker = (case run_call race_env (CallAddTx race_state race_t1) race_worker of
     Some w \<Rightarrow> w | None \<Rightarrow> race_worker)"

lemma sample_worker_reach: "worker_reach race_env (\<lambda>_. ''A'') sample_worker"
proof -
  have init: "worker_reach race_env (\<lambda>_. ''A'') race_worker" unfolding race_worker_def by (rule worker_reach.init)
  have "call_ok race_env (\<lambda>_. ''A'') (CallAddTx race_state race_t1)" by (simp add: tracker_ok_def race_env_def)
  from worker_reach.call [OF init this] init show ?thesis
    by (simp add: sample_worker_def split: option.split)
qed

lemma sample_worker_sorted: "map HashStr (tsl_sorted (w_sorted sample_worker)) = [''h1'']"
  by code_simp

theorem worker_reachable_sync_witness:
  "set (tsl_sorted (w_sorted sample_worker)) = ready_set sample_worker \<and>
   map HashStr (tsl_sorted (w_sorted sample_worker)) = [''h1'']"
  using worker_reachable_sync [OF sample_worker_reach] sample_worker_sorted by simp

text \<open>
  C13. In a reachable state the only call of the worker that can panic is \<open>DeleteTxPendingToStore\<close>, for a hash that
  two pending transactions have: every other call returns, the binary searches find what they look for and no
  slice is cut out of range. The loop of \<open>DeleteTxPendingToStore\<close> shortens the slice it ranges over.
\<close>

theorem worker_calls_return:
  assumes "worker_reach env sender_of w" and "call_ok env sender_of c"
  shows "(\<exists>w'. run_call env c w = Some w' \<and> worker_reach env sender_of w') \<or>
    (\<exists>h a. c = CallDeletePending h a \<and> 2 \<le> length (filter (\<lambda>t. Hash t = h) (pendingToStore w)))"
proof (cases "no_panic_pre c w")
  case True
  then show ?thesis using run_call_returns [OF worker_reach_wf [OF assms(1)] assms(2) True] worker_reach.call [OF assms(1,2)] by blast
next
  case False
  then show ?thesis by (cases c) (auto simp: pending_count_def)
qed

text \<open>The example transaction is added, goes to the pending ones, and so once more.\<close>

definition pending_calls :: "worker_call list" where
  "pending_calls = [CallAddTx race_state race_t1, CallMovePending 1 0]"

fun run_calls :: "worker_call list \<Rightarrow> Worker \<Rightarrow> Worker option" where
  "run_calls [] w = Some w"
| "run_calls (c # cs) w = (case run_call race_env c w of None \<Rightarrow> None | Some w \<Rightarrow> run_calls cs w)"

lemma run_calls_reach:
  "worker_reach race_env so w \<Longrightarrow> \<forall>c \<in> set cs. call_ok race_env so c \<Longrightarrow> run_calls cs w = Some w' \<Longrightarrow> worker_reach race_env so w'"
  by (induction cs arbitrary: w) (auto split: option.splits intro: worker_reach.call)

theorem worker_calls_return_witness:
  "\<exists>w1 w2. run_calls pending_calls race_worker = Some w1 \<and> run_call race_env (CallDeletePending 1 0) w1 = Some w2 \<and>
     worker_reach race_env (\<lambda>_. ''A'') w2 \<and> length (pendingToStore w1) = 1 \<and>
     (case run_calls (pending_calls @ pending_calls) race_worker of
        Some w \<Rightarrow> run_call race_env (CallDeletePending 1 0) w = None | None \<Rightarrow> False)"
proof -
  have ok: "\<forall>c \<in> set pending_calls. call_ok race_env (\<lambda>_. ''A'') c" by (simp add: pending_calls_def tracker_ok_def race_env_def)
  have "(case run_calls pending_calls race_worker of
      Some w \<Rightarrow> length (pendingToStore w) = 1 \<and> length (filter (\<lambda>t. Hash t = 1) (pendingToStore w)) = 1 | None \<Rightarrow> False)"
    by code_simp
  then obtain w1 where w1: "run_calls pending_calls race_worker = Some w1" "length (pendingToStore w1) = 1"
    "length (filter (\<lambda>t. Hash t = 1) (pendingToStore w1)) = 1" by (auto split: option.splits)
  have "worker_reach race_env (\<lambda>_. ''A'') race_worker" unfolding race_worker_def by (rule worker_reach.init)
  note r = run_calls_reach [OF this ok w1(1)]
  have twice: "(case run_calls (pending_calls @ pending_calls) race_worker of
      Some w \<Rightarrow> (case run_call race_env (CallDeletePending 1 0) w of None \<Rightarrow> True | Some _ \<Rightarrow> False) | None \<Rightarrow> False)"
    by code_simp
  then have twice': "case run_calls (pending_calls @ pending_calls) race_worker of
      Some w \<Rightarrow> run_call race_env (CallDeletePending 1 0) w = None | None \<Rightarrow> False" by (simp split: option.splits)
  from worker_calls_return [OF r, of "CallDeletePending 1 0"] w1 twice' show ?thesis by simp
qed

section \<open>The search for the best transaction\<close>

text \<open>
  C3. In a reachable state, with no transaction of a reorganisation to replay,
  \<open>GetBestFittingTx\<close> returns a ready transaction that fits in the remaining resources and has
  the highest gas price among all ready transactions that fit, whatever the number and the
  schedule of the goroutines; if none fits it says so, and with the right error.
\<close>

theorem best_fitting_optimal:
  assumes "worker_reach env sender_of w"
    and "GetBestFittingTx nCPU w remaining high first (w', tx, ooc, err)" and "0 < nCPU"
    and "snd (reorg_next (pool w) (reorgedTxs w)) = None"
  shows "case tx of
      Some t \<Rightarrow> err = None \<and> wipTx w' = Some t \<and> t \<in> ready_set w \<and> candidate_fits remaining high t \<and>
        (\<forall>u. u \<in> ready_set w \<and> candidate_fits remaining high u \<longrightarrow> GasPrice u \<le> GasPrice t)
    | None \<Rightarrow> wipTx w' = None \<and> (\<forall>u. u \<in> ready_set w \<longrightarrow> \<not> candidate_fits remaining high u) \<and>
        err = Some (if first \<or> ready_set w = {} then ErrTransactionsListEmpty else ErrNoFittingTransaction)"
proof -
  note wf = worker_reach_wf [OF assms(1)]
  let ?txs = "tsl_sorted (w_sorted w)" and ?fits = "candidate_fits remaining high"
  have set: "set ?txs = ready_set w" using w_wfD(4) [OF wf] .
  have desc: "price_desc ?txs" using tsl.wf_sorted [OF w_wfD(2) [OF wf]] .
  note res = GetBestFittingTx_result [OF assms(2-4)]
  show ?thesis
  proof (cases tx)
    case None
    then have "\<forall>u. u \<in> ready_set w \<longrightarrow> \<not> ?fits u" using res(1) set by (metis find_None_iff)
    moreover have "?txs = [] \<longleftrightarrow> ready_set w = {}" using set by (metis set_empty)
    ultimately show ?thesis using res(2,3) None by simp
  next
    case (Some t)
    obtain i where i: "i < length ?txs" "?fits (?txs ! i)" "t = ?txs ! i" "\<And>j. j < i \<Longrightarrow> \<not> ?fits (?txs ! j)"
      using res(1) Some by (metis find_Some_iff)
    have "GasPrice u \<le> GasPrice t" if "u \<in> set ?txs" "?fits u" for u
    proof -
      obtain j where j: "j < length ?txs" "u = ?txs ! j" using \<open>u \<in> set ?txs\<close> by (auto simp: in_set_conv_nth)
      then have "i \<le> j" using i(4) [of j] that(2) by (cases "j < i") auto
      then show ?thesis using price_desc_nth [OF desc _ j(1)] i(3) j(2) by simp
    qed
    then show ?thesis using Some res(2,3) i set nth_mem [OF i(1)] by auto
  qed
qed

definition sample_resources :: BatchResources where
  "sample_resources = \<lparr>br_ZKCounters = zero_counters, br_Bytes = 5\<rparr>"

theorem best_fitting_optimal_witness:
  "\<exists>w' tx ooc err. GetBestFittingTx 2 sample_worker sample_resources zero_counters True (w', tx, ooc, err) \<and>
     (tx = None \<longrightarrow> (\<forall>u. u \<in> ready_set sample_worker \<longrightarrow> \<not> candidate_fits sample_resources zero_counters u))"
proof -
  obtain w' tx ooc err where r: "GetBestFittingTx 2 sample_worker sample_resources zero_counters True (w', tx, ooc, err)"
    using GetBestFittingTx_returns [of 2 sample_worker] by (metis surj_pair zero_less_numeral)
  have "reorgedTxs sample_worker = []" by code_simp
  then have "snd (reorg_next (pool sample_worker) (reorgedTxs sample_worker)) = None" by simp
  from best_fitting_optimal [OF sample_worker_reach r _ this] r show ?thesis by (auto split: option.splits)
qed



text \<open>
  C16. The search ends: no step of any schedule can be repeated forever, since each makes a
  natural number smaller, a step is possible as long as a goroutine has not returned, and so
  the method always returns.
\<close>

theorem best_fitting_terminates:
  assumes "0 < nCPU"
  shows "(\<exists>r. GetBestFittingTx nCPU w remaining high first r) \<and>
    (\<forall>txs fits s s'. search_run txs fits first nCPU s \<and> search_step txs fits first nCPU s s' \<longrightarrow>
       search_weight txs s' < search_weight txs s) \<and>
    (\<forall>txs fits s. \<not> all_done s \<longrightarrow> (\<exists>s'. search_step txs fits first nCPU s s'))"
  using GetBestFittingTx_returns [OF assms] search_weight_step [OF _ search_run_inv [OF _ assms] assms] search_progress
  by blast

theorem best_fitting_terminates_witness:
  "\<exists>r. GetBestFittingTx 3 sample_worker sample_resources zero_counters False r"
  using best_fitting_terminates [of 3] by simp

section \<open>Address queues\<close>

text \<open>
  C18. When the nonce of an account does not go back, \<open>updateCurrentNonceBalance\<close> loses no
  transaction: each one of the queue is afterwards either still in it or in the list to
  delete, exactly once.
\<close>

theorem update_loses_nothing:
  assumes "aq_wf a" and "updateCurrentNonceBalance a nonce balance = (a', newReady, prevReady, toDelete)"
    and "\<And>n. nonce = Some n \<Longrightarrow> currentNonce a \<le> n"
  shows "mset (map HashStr (aq_getTransactions a)) =
     mset (map HashStr (aq_getTransactions a')) + mset (map HashStr toDelete)"
  using update_conserves [OF assms] by (simp add: queue_hashes_def)

definition sample_queue :: addrQueue where
  "sample_queue = \<lparr>aq_from = 0, fromStr = ''A'', currentNonce = 3, currentBalance = 10, readyTx = Some (sample_tx 1 ''h1'' 3 5 10),
      notReadyTxs = [(4, sample_tx 2 ''h2'' 4 5 7), (6, sample_tx 3 ''h3'' 6 5 7)], forcedTxs = [], pendingTxsToStore = []\<rparr>"

lemma sample_queue_wf: "aq_wf sample_queue"
  by (simp add: sample_queue_def aq_wf_def gomap_wf_def ready_ok_def not_ready_ok_def)

theorem update_loses_nothing_witness:
  "mset (map HashStr (aq_getTransactions sample_queue)) =
     (case updateCurrentNonceBalance sample_queue (Some 4) (Some 8) of (a', newReady, prevReady, toDelete) \<Rightarrow>
        mset (map HashStr (aq_getTransactions a')) + mset (map HashStr toDelete))"
proof -
  obtain a' new prev dels where eq: "updateCurrentNonceBalance sample_queue (Some 4) (Some 8) = (a', new, prev, dels)"
    by (metis surj_pair)
  have "\<And>n. Some 4 = Some n \<Longrightarrow> currentNonce sample_queue \<le> n" by (auto simp: sample_queue_def)
  from update_loses_nothing [OF sample_queue_wf eq this] show ?thesis by (simp add: eq)
qed

text \<open>
  C19. \<open>updateCurrentNonceBalance\<close> sets the nonce and the balance it is given and leaves the queue well formed for
  them. The transaction it reports as new ready one is the ready one; the one it reports as previous ready one is the
  one that was ready and cannot be executed any more; a transaction that could be executed now is never left waiting;
  and every transaction to delete cannot be executed: its nonce is too low, or it is the next one and the
  balance does not cover it.
\<close>

theorem update_postcondition:
  assumes "aq_wf a" and "updateCurrentNonceBalance a nonce balance = (a', newReady, prevReady, toDelete)"
  shows "currentNonce a' = (case nonce of Some n \<Rightarrow> n | None \<Rightarrow> currentNonce a) \<and>
    currentBalance a' = (case balance of Some b \<Rightarrow> b | None \<Rightarrow> currentBalance a) \<and>
    aq_wf a' \<and> newReady = readyTx a' \<and>
    prevReady = (case readyTx a of
      Some t \<Rightarrow> if Nonce t = currentNonce a' \<and> Cost t \<le> currentBalance a' then None else Some t
    | None \<Rightarrow> None) \<and>
    (readyTx a' = None \<longrightarrow> (\<forall>t. map_of (notReadyTxs a') (currentNonce a') = Some t \<longrightarrow> currentBalance a' < Cost t)) \<and>
    (\<forall>t. t \<in> set toDelete \<longrightarrow> Nonce t < currentNonce a' \<or> Nonce t = currentNonce a' \<and> currentBalance a' < Cost t)"
proof -
  have "newReady = readyTx a'"
    using assms(2) by (auto simp: updateCurrentNonceBalance_def Let_def split: prod.splits option.splits if_splits)
  then show ?thesis
    using updateCurrentNonceBalance_wf [OF assms] update_promotes [OF assms(2)] update_dels(2) [OF assms(2)]
      update_sets [OF assms(2)] by blast
qed

theorem update_postcondition_witness:
  "(case updateCurrentNonceBalance sample_queue (Some 4) (Some 8) of (a', newReady, prevReady, toDelete) \<Rightarrow>
     aq_wf a' \<and> currentNonce a' = 4 \<and> currentBalance a' = 8 \<and> prevReady = Some (sample_tx 1 ''h1'' 3 5 10))"
proof -
  obtain a' new prev dels where eq: "updateCurrentNonceBalance sample_queue (Some 4) (Some 8) = (a', new, prev, dels)"
    by (metis surj_pair)
  from update_postcondition [OF sample_queue_wf eq] show ?thesis by (simp add: eq) (simp add: sample_queue_def)
qed



section \<open>The sorted list\<close>

text \<open>
  C17. \<open>add\<close> refines the insertion into a list sorted by price: it never panics, puts a new
  transaction behind all transactions with the same or a higher price and before all cheaper
  ones, and refuses a hash that is already there; \<open>delete\<close>, which finds the position by binary
  search, removes exactly the entry with the given hash; both keep the list well formed.
\<close>

theorem sorted_list_refines:
  assumes "tsl_wf e"
  shows "(\<exists>e'. tsl_add e tx = Some (e', HashStr tx \<notin> HashStr ` set (tsl_sorted e)) \<and> tsl_wf e' \<and>
       tsl_sorted e' = (if HashStr tx \<in> HashStr ` set (tsl_sorted e) then tsl_sorted e
         else filter (\<lambda>t. GasPrice tx \<le> GasPrice t) (tsl_sorted e) @ tx #
              filter (\<lambda>t. GasPrice t < GasPrice tx) (tsl_sorted e))) \<and>
    (\<exists>e'. tsl_delete e tx = Some (e', HashStr tx \<in> HashStr ` set (tsl_sorted e)) \<and> tsl_wf e' \<and>
       tsl_sorted e' = filter (\<lambda>t. HashStr t \<noteq> HashStr tx) (tsl_sorted e))"
  by (intro conjI tsl.add_total [OF assms, of tx, unfolded insert_by_price_def] tsl.del_total [OF assms, of tx])

theorem sorted_list_refines_witness:
  "\<exists>e'. tsl_add newTxSortedList race_t1 = Some (e', True) \<and> tsl_wf e' \<and> tsl_sorted e' = [race_t1]"
  using sorted_list_refines [OF tsl_wf_new, of race_t1] by (simp add: newTxSortedList_def)

text \<open>
  C25. Adding a new transaction to the sorted list and deleting it again gives the same
  sequence of transactions, also among equal prices.
\<close>

theorem sorted_list_add_delete:
  assumes "tsl_wf e" and "HashStr tx \<notin> HashStr ` set (tsl_sorted e)"
  shows "\<exists>e1 e2. tsl_add e tx = Some (e1, True) \<and> tsl_delete e1 tx = Some (e2, True) \<and> tsl_wf e2 \<and>
    tsl_sorted e2 = tsl_sorted e"
  using tsl.add_del [OF assms] .

theorem sorted_list_add_delete_witness:
  "\<exists>e1 e2. tsl_add newTxSortedList race_t1 = Some (e1, True) \<and> tsl_delete e1 race_t1 = Some (e2, True) \<and> tsl_wf e2 \<and>
    tsl_sorted e2 = tsl_sorted newTxSortedList"
  by (rule sorted_list_add_delete [OF tsl_wf_new]) (simp add: newTxSortedList_def)

section \<open>Resources\<close>

text \<open>
  C26. \<open>Sub\<close> of batch resources fails exactly when the amount does not \<open>Fit\<close>, and then changes
  nothing, although it works field by field; when it succeeds no field has wrapped around, and
  \<open>SumUp\<close> of the same amount restores the resources.
\<close>

theorem resources_sub_contract:
  "(let (r', overflow, name) = br_Sub r x in
     overflow = (\<not> fst (br_Fits r x)) \<and>
     (if overflow then r' = r
      else br_SumUp r' x = r \<and> br_le r' r \<and> unat (br_Bytes r') = unat (br_Bytes r) - unat (br_Bytes x)))"
proof -
  have "unat (br_Bytes (fst (br_Sub r x))) = unat (br_Bytes r) - unat (br_Bytes x)" if "\<not> fst (snd (br_Sub r x))"
    using that br_Sub_ok [of x r] by (simp add: br_Sub_flag br_le_def unat_sub word_le_nat_alt)
  then show ?thesis using brs.sub_contract [of r x] by (simp add: split_beta Let_def)
qed

text \<open>
  C27. The reservation of counters is sound and asks for no more than it has to. Let the reserved counters be at least
  the used ones, and let the counters that \<open>getNeededZKCounters\<close> asks for fit in the batch, with no wrap-around in their
  sum. After the used counters are taken, there is room for what earlier transactions reserved and for what
  this transaction reserves beyond its use; the new high reserved counters are the least that cover both.
\<close>

theorem reserved_counters_fit:
  assumes "zk_le used reserved" and "getNeededZKCounters high used reserved = (needed, newHigh)"
    and "zk_le used needed" and "fst (zk_Fits z needed)"
  shows "\<not> fst (snd (zk_Sub z used)) \<and> fst (zk_Fits (fst (zk_Sub z used)) high) \<and>
    fst (zk_Fits (fst (zk_Sub z used)) (fst (zk_Sub reserved used))) \<and>
    (\<forall>k. zk_le newHigh k \<longleftrightarrow> zk_le high k \<and> zk_le (fst (zk_Sub reserved used)) k)"
  using getNeeded_room [OF assms(1-3)] getNeeded_least [OF assms(1,2)] assms(4) by (simp add: zk_Fits_iff zk_Sub_flag)

theorem reserved_counters_fit_witness:
  "fst (zk_Fits (fst (zk_Sub (zero_counters\<lparr>Steps := 100, KeccakHashes := 9\<rparr>) (zero_counters\<lparr>Steps := 10, KeccakHashes := 2\<rparr>)))
     (zero_counters\<lparr>Steps := 90, KeccakHashes := 5\<rparr>))"
proof -
  let ?used = "zero_counters\<lparr>Steps := 10, KeccakHashes := 2\<rparr>" and ?reserved = "zero_counters\<lparr>Steps := 100, KeccakHashes := 3\<rparr>"
  have n: "getNeededZKCounters (zero_counters\<lparr>Steps := 30, KeccakHashes := 5\<rparr>) ?used ?reserved =
      (zero_counters\<lparr>Steps := 100, KeccakHashes := 7\<rparr>, zero_counters\<lparr>Steps := 90, KeccakHashes := 5\<rparr>)" by code_simp
  have le: "zk_le ?used ?reserved" "zk_le ?used (zero_counters\<lparr>Steps := 100, KeccakHashes := 7\<rparr>)"
    "fst (zk_Fits (zero_counters\<lparr>Steps := 100, KeccakHashes := 9\<rparr>) (zero_counters\<lparr>Steps := 100, KeccakHashes := 7\<rparr>))"
    by code_simp+
  from reserved_counters_fit [OF le(1) n le(2,3)] show ?thesis by (simp add: zk_Fits_iff)
qed

end
