(* ===== verification/L1InfoTree.thy ===== *)
theory L1InfoTree
  imports Prelude
begin

text \<open>
  The L1 info tree (\<open>l1infotree/tree.go\<close>, \<open>l1infotree/hash.go\<close>): an append-only Merkle tree
  of fixed height, with the root computed from all leaves, the Merkle proof of a leaf, and
  the incremental addition of a leaf that keeps only one sibling per level.

  The keccak hash of two nodes is the argument \<open>H\<close>. Leaves and nodes are hashes; a slice of
  hashes is a list. The reference is \<open>node\<close>: the tree whose missing leaves are zero.
\<close>

section \<open>Model\<close>

type_synonym hashfun = "hash \<Rightarrow> hash \<Rightarrow> hash"

fun generateZeroHashes :: "hashfun \<Rightarrow> nat \<Rightarrow> hash list" where
  "generateZeroHashes H 0 = [0]"
| "generateZeroHashes H (Suc h) =
     (let zeroHashes = generateZeroHashes H h in zeroHashes @ [H (zeroHashes ! h) (zeroHashes ! h)])"

record L1InfoTree =
  height :: nat
  zeroHashes :: "hash list"
  leaf_count :: uint32
  siblings :: "hash list"
  currentRoot :: hash

datatype tree_error = ErrMoreThanOneRoot | ErrMismatchedLeafCount | ErrLeavesLength

text \<open>One level up: \<open>None\<close> is the panic on a slice of odd length.\<close>

fun buildIntermediate :: "hashfun \<Rightarrow> hash list \<Rightarrow> hash list option" where
  "buildIntermediate H [] = Some []"
| "buildIntermediate H [l] = None"
| "buildIntermediate H (l # r # rest) = map_option ((#) (H l r)) (buildIntermediate H rest)"

definition pad_level :: "hash \<Rightarrow> hash list \<Rightarrow> hash list" where
  "pad_level z leaves = (if length leaves mod 2 = 1 then leaves @ [z] else leaves)"

text \<open>
  The loop of \<open>BuildL1InfoRoot\<close>, from level \<open>h\<close> on: the last component of the state is the
  number of nodes of the last level that was built (\<open>len(ns)\<close>).
\<close>

fun build_levels :: "hashfun \<Rightarrow> hash list \<Rightarrow> nat list \<Rightarrow> hash list \<Rightarrow> nat \<Rightarrow> (hash list \<times> nat) option" where
  "build_levels H zs [] leaves ns = Some (leaves, ns)"
| "build_levels H zs (h # hs) leaves ns = do {
     up \<leftarrow> buildIntermediate H (pad_level (zs ! h) leaves);
     build_levels H zs hs up (length up)
   }"

definition BuildL1InfoRoot :: "hashfun \<Rightarrow> L1InfoTree \<Rightarrow> hash list \<Rightarrow> (tree_error + hash) option" where
  "BuildL1InfoRoot H mt leaves = do {
     let leaves = (if leaves = [] then [zeroHashes mt ! 0] else leaves);
     (up, ns) \<leftarrow> build_levels H (zeroHashes mt) [0..<height mt] leaves 0;
     Some (if ns \<noteq> 1 then Inl ErrMoreThanOneRoot else Inr (up ! 0))
   }"

text \<open>
  The loop of \<open>ComputeMerkleProof\<close>. The index is compared with the number of nodes as a 32-bit value,
  which wraps around. The index of a 32-bit leaf is halved by a division of float64 values, which is exact for 32 bits.
\<close>

definition proof_sibling :: "hash \<Rightarrow> nat \<Rightarrow> hash list \<Rightarrow> hash" where
  "proof_sibling z index leaves =
     (if index \<ge> unat (word_of_nat (length leaves) :: uint32) then z
      else if index mod 2 = 1 then leaves ! (index - 1)
      else leaves ! (index + 1))"

fun proof_levels :: "hashfun \<Rightarrow> hash list \<Rightarrow> nat list \<Rightarrow> nat \<Rightarrow> hash list \<Rightarrow> hash list \<Rightarrow> nat \<Rightarrow>
    (hash list \<times> hash list \<times> nat) option" where
  "proof_levels H zs [] index leaves sibs ns = Some (sibs, leaves, ns)"
| "proof_levels H zs (h # hs) index leaves sibs ns = do {
     let leaves = pad_level (zs ! h) leaves;
     up \<leftarrow> buildIntermediate H leaves;
     proof_levels H zs hs (index div 2) up (sibs @ [proof_sibling (zs ! h) index leaves]) (length up)
   }"

definition ComputeMerkleProof :: "hashfun \<Rightarrow> L1InfoTree \<Rightarrow> uint32 \<Rightarrow> hash list \<Rightarrow>
    (tree_error + hash list \<times> hash) option" where
  "ComputeMerkleProof H mt gerIndex leaves = do {
     let leaves = (if leaves = [] then [zeroHashes mt ! 0] else leaves);
     (sibs, up, ns) \<leftarrow> proof_levels H (zeroHashes mt) [0..<height mt] (unat gerIndex) leaves [] 0;
     Some (if ns \<noteq> 1 then Inl ErrMoreThanOneRoot else Inr (sibs, up ! 0))
   }"

text \<open>
  The loop of \<open>AddLeaf\<close>: \<open>index & (1 << h)\<close> is the bit \<open>h\<close> of the index.
\<close>

fun add_levels :: "hashfun \<Rightarrow> hash list \<Rightarrow> uint32 \<Rightarrow> nat list \<Rightarrow> hash \<Rightarrow> bool \<Rightarrow> hash list \<Rightarrow> hash \<times> hash list" where
  "add_levels H zs index [] cur isFilledSubTree sibs = (cur, sibs)"
| "add_levels H zs index (h # hs) cur isFilledSubTree sibs =
     (if bit index h then add_levels H zs index hs (H (sibs ! h) cur) isFilledSubTree sibs
      else add_levels H zs index hs (H cur (zs ! h)) False
             (if isFilledSubTree then sibs[h := cur] else sibs))"

definition AddLeaf :: "hashfun \<Rightarrow> L1InfoTree \<Rightarrow> uint32 \<Rightarrow> hash \<Rightarrow> L1InfoTree \<times> (tree_error + hash)" where
  "AddLeaf H mt index leaf =
     (if index \<noteq> leaf_count mt then (mt, Inl ErrMismatchedLeafCount)
      else
        (let (cur, sibs) = add_levels H (zeroHashes mt) index [0..<height mt] leaf True (siblings mt)
         in (mt\<lparr>siblings := sibs, currentRoot := cur, leaf_count := leaf_count mt + 1\<rparr>, Inr cur)))"

definition initSiblings :: "hashfun \<Rightarrow> L1InfoTree \<Rightarrow> hash list \<Rightarrow> (tree_error + hash list \<times> hash) option" where
  "initSiblings H mt initialLeaves =
     (if leaf_count mt \<noteq> word_of_nat (length initialLeaves) then Some (Inl ErrLeavesLength)
      else if leaf_count mt = 0 then do {
        root \<leftarrow> BuildL1InfoRoot H mt initialLeaves;
        Some (case root of
                Inl e \<Rightarrow> Inl e
              | Inr r \<Rightarrow> Inr (map (\<lambda>h. zeroHashes mt ! h) [0..<height mt], r))
      }
      else ComputeMerkleProof H mt (leaf_count mt) initialLeaves)"

definition new_tree :: "hashfun \<Rightarrow> nat \<Rightarrow> hash list \<Rightarrow> (tree_error + L1InfoTree) option" where
  "new_tree H ht initialLeaves = do {
     let mt = \<lparr>height = ht, zeroHashes = generateZeroHashes H ht, leaf_count = word_of_nat (length initialLeaves),
               siblings = [], currentRoot = 0\<rparr>;
     r \<leftarrow> initSiblings H mt initialLeaves;
     Some (case r of
             Inl e \<Rightarrow> Inl e
           | Inr (sibs, root) \<Rightarrow> Inr (mt\<lparr>siblings := sibs, currentRoot := root\<rparr>))
   }"

text \<open>\<open>NewL1InfoTree\<close> takes the height as a byte; \<open>ResetL1InfoTree\<close> always builds height 32.\<close>

definition NewL1InfoTree :: "hashfun \<Rightarrow> byte \<Rightarrow> hash list \<Rightarrow> (tree_error + L1InfoTree) option" where
  "NewL1InfoTree H ht initialLeaves = new_tree H (unat ht) initialLeaves"

definition ResetL1InfoTree :: "hashfun \<Rightarrow> L1InfoTree \<Rightarrow> hash list \<Rightarrow> (tree_error + L1InfoTree) option" where
  "ResetL1InfoTree H mt initialLeaves = new_tree H 32 initialLeaves"

definition GetCurrentRootCountAndSiblings :: "L1InfoTree \<Rightarrow> hash \<times> uint32 \<times> hash list" where
  "GetCurrentRootCountAndSiblings mt = (currentRoot mt, leaf_count mt, siblings mt)"

section \<open>The reference tree\<close>

fun node :: "hashfun \<Rightarrow> hash list \<Rightarrow> nat \<Rightarrow> nat \<Rightarrow> hash" where
  "node H leaves 0 i = (if i < length leaves then leaves ! i else 0)"
| "node H leaves (Suc h) i = H (node H leaves h (2 * i)) (node H leaves h (2 * i + 1))"

text \<open>Checking a proof: hash the node with its siblings up to the root.\<close>

fun verify_up :: "hashfun \<Rightarrow> nat \<Rightarrow> hash \<Rightarrow> hash list \<Rightarrow> hash" where
  "verify_up H i cur [] = cur"
| "verify_up H i cur (s # ss) = verify_up H (i div 2) (if i mod 2 = 1 then H s cur else H cur s) ss"


primrec zero_at :: "hashfun \<Rightarrow> nat \<Rightarrow> hash" where
  "zero_at H 0 = 0"
| "zero_at H (Suc h) = H (zero_at H h) (zero_at H h)"

lemma length_zero_hashes [simp]: "length (generateZeroHashes H n) = Suc n"
  by (induction n) (simp_all add: Let_def)

lemma zero_hashes_nth: "h \<le> n \<Longrightarrow> generateZeroHashes H n ! h = zero_at H h"
  by (induction n arbitrary: h) (auto simp: Let_def nth_append le_Suc_eq)

lemma upt_two: "[0..<Suc (Suc n)] = 0 # 1 # map (\<lambda>i. i + 2) [0..<n]"
  by (rule nth_equalityI) (auto simp: nth_Cons' simp del: upt_Suc)

lemma node_zero: "length leaves \<le> i * 2 ^ h \<Longrightarrow> node H leaves h i = zero_at H h"
  by (induction h arbitrary: i) (simp_all add: algebra_simps)

lemma node_append:
  "(i + 1) * 2 ^ h \<le> length leaves \<Longrightarrow> node H (leaves @ xs) h i = node H leaves h i"
  by (induction h arbitrary: i) (simp_all add: nth_append algebra_simps)

section \<open>The levels\<close>

definition level :: "hashfun \<Rightarrow> hash list \<Rightarrow> nat \<Rightarrow> nat \<Rightarrow> hash list" where
  "level H leaves h m = map (node H leaves h) [0..<m]"

lemma length_level [simp]: "length (level H leaves h m) = m"
  by (simp add: level_def)

lemma level_nth [simp]: "i < m \<Longrightarrow> level H leaves h m ! i = node H leaves h i"
  by (simp add: level_def)

lemma buildIntermediate_map:
  "buildIntermediate H (map f [0..<2 * k]) = Some (map (\<lambda>i. H (f (2 * i)) (f (2 * i + 1))) [0..<k])"
proof (induction k arbitrary: f)
  case 0
  then show ?case by simp
next
  case (Suc k)
  have "map f [0..<2 * Suc k] = f 0 # f 1 # map (\<lambda>i. f (i + 2)) [0..<2 * k]"
    using upt_two [of "2 * k"] by (simp add: comp_def del: upt_Suc)
  moreover have "[0..<Suc k] = 0 # map Suc [0..<k]" by (simp add: upt_conv_Cons map_Suc_upt del: upt_Suc)
  ultimately show ?case using Suc [of "\<lambda>i. f (i + 2)"] by (simp add: comp_def del: upt_Suc)
qed

lemma pad_level_level:
  assumes "length leaves \<le> m * 2 ^ h"
  shows "pad_level (zero_at H h) (level H leaves h m) = level H leaves h (2 * ((m + 1) div 2))"
proof (cases "m mod 2 = 1")
  case True
  then have "2 * ((m + 1) div 2) = Suc m" by presburger
  then show ?thesis using True node_zero [OF assms] by (simp add: pad_level_def level_def)
next
  case False
  then have "2 * ((m + 1) div 2) = m" by presburger
  then show ?thesis using False by (simp add: pad_level_def)
qed

lemma build_level:
  assumes "length leaves \<le> m * 2 ^ h"
  shows "buildIntermediate H (pad_level (zero_at H h) (level H leaves h m)) = Some (level H leaves (Suc h) ((m + 1) div 2))"
    and "length leaves \<le> ((m + 1) div 2) * 2 ^ Suc h"
proof -
  show "buildIntermediate H (pad_level (zero_at H h) (level H leaves h m)) = Some (level H leaves (Suc h) ((m + 1) div 2))"
    unfolding pad_level_level [OF assms] by (simp add: level_def buildIntermediate_map del: upt_Suc)
  have "m \<le> 2 * ((m + 1) div 2)" by presburger
  then have "m * 2 ^ h \<le> 2 * ((m + 1) div 2) * 2 ^ h" by (rule mult_le_mono1)
  also have "\<dots> = ((m + 1) div 2) * 2 ^ Suc h" by simp
  finally show "length leaves \<le> ((m + 1) div 2) * 2 ^ Suc h" using assms by (rule le_trans [rotated])
qed

primrec nodes_after :: "nat \<Rightarrow> nat \<Rightarrow> nat" where
  "nodes_after 0 m = m"
| "nodes_after (Suc d) m = nodes_after d ((m + 1) div 2)"

lemma nodes_after_one: "0 < m \<Longrightarrow> nodes_after d m = 1 \<longleftrightarrow> m \<le> 2 ^ d"
proof (induction d arbitrary: m)
  case 0
  then show ?case by auto
next
  case (Suc d)
  have "0 < (m + 1) div 2" using Suc.prems by presburger
  then have "nodes_after d ((m + 1) div 2) = 1 \<longleftrightarrow> (m + 1) div 2 \<le> 2 ^ d" by (rule Suc.IH)
  also have "\<dots> \<longleftrightarrow> m \<le> 2 ^ Suc d" by (simp, presburger)
  finally show ?case by simp
qed

definition sib_of :: "nat \<Rightarrow> nat" where
  "sib_of i = (if i mod 2 = 1 then i - 1 else i + 1)"

lemma build_levels_spec:
  assumes "\<And>k. k < h + d \<Longrightarrow> zs ! k = zero_at H k" and "length leaves \<le> m * 2 ^ h"
  shows "build_levels H zs [h..<h + d] (level H leaves h m) ns =
     Some (level H leaves (h + d) (nodes_after d m), if d = 0 then ns else nodes_after d m)"
  using assms
proof (induction d arbitrary: h m ns)
  case 0
  then show ?case by simp
next
  case (Suc d)
  note b = build_level(1) [OF Suc.prems(2), of H] build_level(2) [OF Suc.prems(2)]
  have "build_levels H zs [Suc h..<Suc h + d] (level H leaves (Suc h) ((m + 1) div 2)) ((m + 1) div 2) =
      Some (level H leaves (Suc h + d) (nodes_after d ((m + 1) div 2)), nodes_after d ((m + 1) div 2))"
    using Suc.IH [of "Suc h" "(m + 1) div 2" "(m + 1) div 2"] Suc.prems(1) b(2) by simp
  then show ?case using b(1) Suc.prems(1) [of h] by (simp add: upt_conv_Cons del: upt_Suc)
qed

lemma proof_sib:
  assumes "length leaves \<le> m * 2 ^ h" and "m + 1 < 2 ^ 32"
  shows "proof_sibling (zero_at H h) index (pad_level (zero_at H h) (level H leaves h m)) = node H leaves h (sib_of index)"
proof -
  let ?m = "2 * ((m + 1) div 2)"
  have "m \<le> ?m" by presburger
  then have le: "length leaves \<le> ?m * 2 ^ h" using assms(1) by (meson le_trans mult_le_mono1)
  have "?m \<le> m + 1" by presburger
  then have "?m < 2 ^ 32" using assms(2) by (rule order_le_less_trans)
  then have u: "unat (word_of_nat ?m :: uint32) = ?m" by (simp only: unat_of_nat) (simp add: take_bit_nat_eq_self)
  show ?thesis
  proof (cases "index \<ge> ?m")
    case True
    then have "?m \<le> sib_of index" unfolding sib_of_def by presburger
    then have "length leaves \<le> sib_of index * 2 ^ h" using le by (meson le_trans mult_le_mono1)
    then show ?thesis using True u by (simp add: proof_sibling_def pad_level_level [OF assms(1)] node_zero del: of_nat_mult of_nat_add)
  next
    case False
    then have "sib_of index < ?m" unfolding sib_of_def by presburger
    then show ?thesis using False u
      by (simp add: proof_sibling_def pad_level_level [OF assms(1)] sib_of_def del: of_nat_mult of_nat_add split: if_splits)
  qed
qed

text \<open>The siblings are those of the tree as long as the number of nodes, padded, fits into 32 bits.\<close>

lemma proof_levels_spec:
  assumes "\<And>k. k < h + d \<Longrightarrow> zs ! k = zero_at H k" and "length leaves \<le> m * 2 ^ h"
  shows "\<exists>path. proof_levels H zs [h..<h + d] index (level H leaves h m) sibs ns =
       Some (sibs @ path, level H leaves (h + d) (nodes_after d m), if d = 0 then ns else nodes_after d m) \<and> length path = d \<and>
     (m + 1 < 2 ^ 32 \<longrightarrow> path = map (\<lambda>k. node H leaves (h + k) (sib_of (index div 2 ^ k))) [0..<d])"
  using assms
proof (induction d arbitrary: h m ns index sibs)
  case 0
  then show ?case by simp
next
  case (Suc d)
  let ?m = "(m + 1) div 2" and ?p = "proof_sibling (zero_at H h) index (pad_level (zero_at H h) (level H leaves h m))"
  note b = build_level(1) [OF Suc.prems(2), of H] build_level(2) [OF Suc.prems(2)]
  have z: "zs ! h = zero_at H h" using Suc.prems(1) [of h] by simp
  have "\<exists>path. proof_levels H zs [Suc h..<Suc h + d] (index div 2) (level H leaves (Suc h) ?m) (sibs @ [?p]) ?m =
      Some ((sibs @ [?p]) @ path, level H leaves (Suc h + d) (nodes_after d ?m), if d = 0 then ?m else nodes_after d ?m) \<and>
      length path = d \<and>
      (?m + 1 < 2 ^ 32 \<longrightarrow> path = map (\<lambda>k. node H leaves (Suc h + k) (sib_of (index div 2 div 2 ^ k))) [0..<d])"
    by (rule Suc.IH) (use Suc.prems(1) b(2) in simp_all)
  then obtain path where path: "proof_levels H zs [Suc h..<Suc h + d] (index div 2) (level H leaves (Suc h) ?m) (sibs @ [?p]) ?m =
      Some ((sibs @ [?p]) @ path, level H leaves (Suc h + d) (nodes_after d ?m), nodes_after d ?m)" "length path = d"
    "?m + 1 < 2 ^ 32 \<Longrightarrow> path = map (\<lambda>k. node H leaves (Suc h + k) (sib_of (index div 2 div 2 ^ k))) [0..<d]"
    by (cases d) auto
  have shift: "map (\<lambda>k. node H leaves (h + k) (sib_of (index div 2 ^ k))) [0..<Suc d] =
      node H leaves h (sib_of index) # map (\<lambda>k. node H leaves (Suc h + k) (sib_of (index div 2 div 2 ^ k))) [0..<d]"
    by (simp add: upt_conv_Cons map_Suc_upt [symmetric] comp_def div_mult2_eq del: upt_Suc)
  have "?p # path = map (\<lambda>k. node H leaves (h + k) (sib_of (index div 2 ^ k))) [0..<Suc d]" if m: "m + 1 < 2 ^ 32"
  proof -
    have "?m \<le> m" by presburger
    then have "?m + 1 < 2 ^ 32" using m by linarith
    then show ?thesis using path(3) proof_sib [OF Suc.prems(2) m, of H index] shift by simp
  qed
  moreover have "[h..<h + Suc d] = h # [Suc h..<Suc h + d]" by (simp add: upt_conv_Cons del: upt_Suc)
  ultimately show ?case
    using path(1,2) b(1) by (intro exI [of _ "?p # path"]) (simp add: z Let_def del: upt_Suc)
qed

section \<open>What the operations compute\<close>

definition tree_base :: "hashfun \<Rightarrow> L1InfoTree \<Rightarrow> bool" where
  "tree_base H mt \<longleftrightarrow> 0 < height mt \<and> zeroHashes mt = generateZeroHashes H (height mt)"

lemma tree_base_zero: "tree_base H mt \<Longrightarrow> k < height mt \<Longrightarrow> zeroHashes mt ! k = zero_at H k"
  by (simp add: tree_base_def zero_hashes_nth)

lemma first_level:
  assumes "tree_base H mt"
  shows "(if leaves = [] then [zeroHashes mt ! 0] else leaves) = level H leaves 0 (max 1 (length leaves))"
    and "length leaves \<le> max 1 (length leaves) * 2 ^ 0"
proof -
  have "zeroHashes mt ! 0 = 0" using assms zero_hashes_nth [of 0] by (simp add: tree_base_def)
  then show "(if leaves = [] then [zeroHashes mt ! 0] else leaves) = level H leaves 0 (max 1 (length leaves))"
    by (cases leaves) (auto simp: level_def intro!: nth_equalityI simp del: upt_Suc)
qed simp

lemma one_node: "nodes_after d (max 1 n) = 1 \<longleftrightarrow> n \<le> 2 ^ d"
  using nodes_after_one [of "max 1 n" d] by (simp add: max_def Suc_leI split: if_splits)

lemma BuildL1InfoRoot_spec:
  assumes base: "tree_base H mt"
  shows "BuildL1InfoRoot H mt leaves =
    Some (if length leaves \<le> 2 ^ height mt then Inr (node H leaves (height mt) 0) else Inl ErrMoreThanOneRoot)"
proof -
  note f = first_level [OF base, of leaves]
  have ht: "0 < height mt" using base by (simp add: tree_base_def)
  have "build_levels H (zeroHashes mt) [0..<height mt] (level H leaves 0 (max 1 (length leaves))) 0 =
      Some (level H leaves (height mt) (nodes_after (height mt) (max 1 (length leaves))),
            nodes_after (height mt) (max 1 (length leaves)))"
    using build_levels_spec [of 0 "height mt" "zeroHashes mt" H leaves] tree_base_zero [OF base] f(2) ht by simp
  then show ?thesis
    unfolding BuildL1InfoRoot_def f(1) Let_def
    using one_node [of "height mt" "length leaves"] by (cases "length leaves \<le> 2 ^ height mt") simp_all
qed

lemma ComputeMerkleProof_spec:
  assumes base: "tree_base H mt"
  shows "\<exists>path. ComputeMerkleProof H mt i leaves =
      Some (if length leaves \<le> 2 ^ height mt then Inr (path, node H leaves (height mt) 0) else Inl ErrMoreThanOneRoot) \<and>
    length path = height mt \<and>
    (length leaves + 1 < 2 ^ 32 \<longrightarrow> path = map (\<lambda>h. node H leaves h (sib_of (unat i div 2 ^ h))) [0..<height mt])"
proof -
  note f = first_level [OF base, of leaves]
  have ht: "0 < height mt" using base by (simp add: tree_base_def)
  have m: "max 1 (length leaves) + 1 < 2 ^ 32 \<longleftrightarrow> length leaves + 1 < 2 ^ 32" by (simp add: max_def)
  obtain path where "proof_levels H (zeroHashes mt) [0..<height mt] (unat i) (level H leaves 0 (max 1 (length leaves))) [] 0 =
      Some (path, level H leaves (height mt) (nodes_after (height mt) (max 1 (length leaves))),
            nodes_after (height mt) (max 1 (length leaves)))" "length path = height mt"
      "length leaves + 1 < 2 ^ 32 \<longrightarrow> path = map (\<lambda>h. node H leaves h (sib_of (unat i div 2 ^ h))) [0..<height mt]"
    using proof_levels_spec [of 0 "height mt" "zeroHashes mt" H leaves "max 1 (length leaves)" "unat i" "[]" 0]
      tree_base_zero [OF base] f(2) ht unfolding m by auto
  then show ?thesis
    unfolding ComputeMerkleProof_def f(1) Let_def
    using one_node [of "height mt" "length leaves"]
    by (intro exI [of _ path]) (cases "length leaves \<le> 2 ^ height mt"; simp)
qed

lemma half_odd: "odd (k::nat) \<Longrightarrow> k - 1 = 2 * (k div 2) \<and> k = 2 * (k div 2) + 1"
  by presburger

lemma half_even: "\<not> odd (k::nat) \<Longrightarrow> k = 2 * (k div 2)"
  by presburger

text \<open>A proof leads from its node to the root.\<close>

lemma verify_up_node:
  "verify_up H i (node H leaves h i) (map (\<lambda>k. node H leaves (h + k) (sib_of (i div 2 ^ k))) [0..<d]) =
   node H leaves (h + d) (i div 2 ^ d)"
proof (induction d arbitrary: h i)
  case 0
  then show ?case by simp
next
  case (Suc d)
  have shift: "map (\<lambda>k. node H leaves (h + k) (sib_of (i div 2 ^ k))) [0..<Suc d] =
      node H leaves h (sib_of i) # map (\<lambda>k. node H leaves (Suc h + k) (sib_of (i div 2 div 2 ^ k))) [0..<d]"
    by (simp add: upt_conv_Cons map_Suc_upt [symmetric] comp_def div_mult2_eq del: upt_Suc)
  have up: "(if i mod 2 = 1 then H (node H leaves h (sib_of i)) (node H leaves h i)
      else H (node H leaves h i) (node H leaves h (sib_of i))) = node H leaves (Suc h) (i div 2)"
  proof (cases "i mod 2 = 1")
    case True
    then obtain j where "i = 2 * j + 1" by (metis oddE odd_iff_mod_2_eq_one)
    then show ?thesis by (simp add: sib_of_def)
  next
    case False
    then obtain j where "i = 2 * j" by (metis evenE odd_iff_mod_2_eq_one)
    then show ?thesis by (simp add: sib_of_def)
  qed
  show ?case
    unfolding shift verify_up.simps up using Suc.IH [of "i div 2" "Suc h"] by (simp add: div_mult2_eq)
qed

section \<open>Adding leaves\<close>

text \<open>
  What the siblings hold: for every bit of the number of leaves that is set, the root of the
  complete subtree on the left. The other entries are never read before they are written.
\<close>

definition sibs_ok :: "hashfun \<Rightarrow> hash list \<Rightarrow> nat \<Rightarrow> hash list \<Rightarrow> bool" where
  "sibs_ok H leaves ht sibs \<longleftrightarrow> length sibs = ht \<and>
     (\<forall>h < ht. odd (length leaves div 2 ^ h) \<longrightarrow> sibs ! h = node H leaves h (length leaves div 2 ^ h - 1))"

text \<open>With one leaf less than fit into 32 bits the siblings of a new tree are wrong, so that only the root is known.\<close>

definition tree_ok :: "hashfun \<Rightarrow> L1InfoTree \<Rightarrow> hash list \<Rightarrow> bool" where
  "tree_ok H mt leaves \<longleftrightarrow> tree_base H mt \<and> leaf_count mt = word_of_nat (length leaves) \<and>
     length leaves \<le> 2 ^ height mt \<and> (length leaves + 1 < 2 ^ 32 \<longrightarrow> sibs_ok H leaves (height mt) (siblings mt)) \<and>
     currentRoot mt = node H leaves (height mt) 0"

lemma node_left:
  assumes "odd (length leaves div 2 ^ h)"
  shows "node H (leaves @ xs) h (length leaves div 2 ^ h - 1) = node H leaves h (length leaves div 2 ^ h - 1)"
proof (rule node_append)
  have eq: "length leaves div 2 ^ h - 1 + 1 = length leaves div 2 ^ h" using half_odd [OF assms] by linarith
  show "(length leaves div 2 ^ h - 1 + 1) * 2 ^ h \<le> length leaves" unfolding eq by (rule div_times_less_eq_dividend)
qed

lemma node_right:
  "node H (leaves @ [x]) h (length leaves div 2 ^ h + 1) = zero_at H h"
proof (rule node_zero)
  have "length leaves < (length leaves div 2 ^ h + 1) * 2 ^ h"
    using dividend_less_div_times [of "2 ^ h" "length leaves"] by (simp add: add_mult_distrib)
  then show "length (leaves @ [x]) \<le> (length leaves div 2 ^ h + 1) * 2 ^ h" by simp
qed

lemma carry_div:
  fixes n :: nat
  assumes "Suc n mod 2 ^ h = 0"
  shows "Suc n div 2 ^ h = n div 2 ^ h + 1"
  using assms by (simp add: div_Suc)

lemma no_carry_div:
  fixes n :: nat
  assumes "Suc n mod 2 ^ h \<noteq> 0"
  shows "Suc n div 2 ^ h = n div 2 ^ h"
  using assms by (simp add: div_Suc)

lemma carry_Suc:
  fixes n :: nat
  shows "Suc n mod 2 ^ Suc h = 0 \<longleftrightarrow> Suc n mod 2 ^ h = 0 \<and> odd (n div 2 ^ h)"
proof (cases "Suc n mod 2 ^ h = 0")
  case True
  then have "Suc n = (n div 2 ^ h + 1) * 2 ^ h" using carry_div [OF True] by (metis add.right_neutral div_mult_mod_eq)
  then have "Suc n mod 2 ^ Suc h = 0 \<longleftrightarrow> even (n div 2 ^ h + 1)"
    by (metis dvd_eq_mod_eq_0 dvd_times_right_cancel_iff power_Suc power_not_zero zero_neq_numeral)
  then show ?thesis using True by simp
next
  case False
  then have "\<not> 2 ^ h dvd Suc n" by (simp add: dvd_eq_mod_eq_0)
  then have "\<not> 2 ^ Suc h dvd Suc n" by (metis dvd_triv_right dvd_trans power_Suc)
  then show ?thesis using False by (simp add: dvd_eq_mod_eq_0)
qed

text \<open>One level of the loop, with the siblings that are already right for the longer list.\<close>

definition sibs_upto :: "hashfun \<Rightarrow> hash list \<Rightarrow> hash \<Rightarrow> nat \<Rightarrow> nat \<Rightarrow> hash list \<Rightarrow> bool" where
  "sibs_upto H leaves x ht h sibs \<longleftrightarrow> length sibs = ht \<and>
     (\<forall>j < h. odd (Suc (length leaves) div 2 ^ j) \<longrightarrow> sibs ! j = node H (leaves @ [x]) j (Suc (length leaves) div 2 ^ j - 1)) \<and>
     (\<forall>j < ht. h \<le> j \<and> odd (length leaves div 2 ^ j) \<longrightarrow> sibs ! j = node H (leaves @ [x]) j (length leaves div 2 ^ j - 1))"

lemma add_levels_spec:
  assumes "\<And>k. k < h + d \<Longrightarrow> zs ! k = zero_at H k" and "\<And>k. k < h + d \<Longrightarrow> bit index k \<longleftrightarrow> odd (length leaves div 2 ^ k)"
    and "cur = node H (leaves @ [x]) h (length leaves div 2 ^ h)" and "filled \<longleftrightarrow> Suc (length leaves) mod 2 ^ h = 0"
    and "sibs_upto H leaves x (h + d) h sibs"
  shows "\<exists>sibs'. add_levels H zs index [h..<h + d] cur filled sibs =
      (node H (leaves @ [x]) (h + d) (length leaves div 2 ^ (h + d)), sibs') \<and> sibs_upto H leaves x (h + d) (h + d) sibs'"
  using assms
proof (induction d arbitrary: h cur filled sibs)
  case 0
  then show ?case by simp
next
  case (Suc d)
  let ?n = "length leaves" and ?L = "leaves @ [x]"
  have cons: "[h..<h + Suc d] = h # [Suc h..<Suc h + d]" by (simp add: upt_conv_Cons del: upt_Suc)
  have z: "zs ! h = zero_at H h" using Suc.prems(1) [of h] by simp
  have bit: "bit index h \<longleftrightarrow> odd (?n div 2 ^ h)" using Suc.prems(2) [of h] by simp
  have half: "?n div 2 ^ Suc h = ?n div 2 ^ h div 2" by (metis div_mult2_eq power_Suc2)
  have len: "length sibs = h + Suc d" using Suc.prems(5) by (simp add: sibs_upto_def)
  show ?case
  proof (cases "odd (?n div 2 ^ h)")
    case True
    have left: "sibs ! h = node H ?L h (?n div 2 ^ h - 1)" using Suc.prems(5) True by (simp add: sibs_upto_def)
    moreover have "?n div 2 ^ h - 1 = 2 * (?n div 2 ^ Suc h)" "?n div 2 ^ h = 2 * (?n div 2 ^ Suc h) + 1"
      using half_odd [OF True] unfolding half by blast+
    ultimately have up: "H (sibs ! h) cur = node H ?L (Suc h) (?n div 2 ^ Suc h)"
      unfolding Suc.prems(3) node.simps by metis
    have fl: "filled \<longleftrightarrow> Suc ?n mod 2 ^ Suc h = 0" unfolding carry_Suc using Suc.prems(4) True by simp
    have "odd (Suc ?n div 2 ^ h) \<Longrightarrow> Suc ?n div 2 ^ h = ?n div 2 ^ h"
      using carry_div [of ?n h] no_carry_div [of ?n h] True by (cases "Suc ?n mod 2 ^ h = 0") auto
    then have ok: "sibs_upto H leaves x (Suc h + d) (Suc h) sibs"
      using Suc.prems(5) left unfolding sibs_upto_def less_Suc_eq by simp
    have "add_levels H zs index [h..<h + Suc d] cur filled sibs =
        add_levels H zs index [Suc h..<Suc h + d] (H (sibs ! h) cur) filled sibs"
      unfolding cons by (simp add: bit True del: upt_Suc)
    then show ?thesis
      using Suc.IH [of "Suc h", OF Suc.prems(1,2) up fl ok] unfolding add_Suc_shift by simp
  next
    case False
    have "?n div 2 ^ h = 2 * (?n div 2 ^ Suc h)" using half_even [OF False] unfolding half .
    then have up: "H cur (zs ! h) = node H ?L (Suc h) (?n div 2 ^ Suc h)"
      unfolding Suc.prems(3) z node_right [of H leaves x h, symmetric] node.simps by metis
    have fl: "False \<longleftrightarrow> Suc ?n mod 2 ^ Suc h = 0" unfolding carry_Suc using False by simp
    define sibs1 where "sibs1 = (if filled then sibs[h := cur] else sibs)"
    have "sibs1 ! h = node H ?L h (Suc ?n div 2 ^ h - 1)" if "odd (Suc ?n div 2 ^ h)"
    proof -
      have "filled" using that False no_carry_div [of ?n h] Suc.prems(4) by metis
      then have "Suc ?n div 2 ^ h - 1 = ?n div 2 ^ h" using carry_div [of ?n h] Suc.prems(4) by simp
      then show ?thesis using \<open>filled\<close> len Suc.prems(3) by (simp add: sibs1_def)
    qed
    then have ok: "sibs_upto H leaves x (Suc h + d) (Suc h) sibs1"
      using Suc.prems(5) unfolding sibs_upto_def less_Suc_eq by (simp add: sibs1_def)
    have "add_levels H zs index [h..<h + Suc d] cur filled sibs =
        add_levels H zs index [Suc h..<Suc h + d] (H cur (zs ! h)) False sibs1"
      unfolding cons by (simp add: bit False sibs1_def del: upt_Suc)
    then show ?thesis
      using Suc.IH [of "Suc h", OF Suc.prems(1,2) up fl ok] unfolding add_Suc_shift by simp
  qed
qed

lemma sibs_upto_iff: "sibs_upto H leaves x ht 0 sibs \<longleftrightarrow>
   length sibs = ht \<and> (\<forall>j < ht. odd (length leaves div 2 ^ j) \<longrightarrow> sibs ! j = node H (leaves @ [x]) j (length leaves div 2 ^ j - 1))"
  by (simp add: sibs_upto_def)

lemma sibs_upto_all: "sibs_upto H leaves x ht ht sibs \<Longrightarrow> sibs_ok H (leaves @ [x]) ht sibs"
  by (simp add: sibs_upto_def sibs_ok_def)

lemma bit_index: "n < 2 ^ 32 \<Longrightarrow> bit (word_of_nat n :: uint32) k \<longleftrightarrow> odd (n div 2 ^ k)"
proof -
  assume n: "n < 2 ^ 32"
  have "bit (word_of_nat n :: uint32) k \<longleftrightarrow> bit (unat (word_of_nat n :: uint32)) k" by (simp add: bit_unsigned_iff)
  also have "unat (word_of_nat n :: uint32) = n" using n by (simp add: unat_of_nat take_bit_nat_eq_self)
  finally show ?thesis by (simp add: bit_iff_odd)
qed

lemma AddLeaf_spec:
  assumes ok: "tree_ok H mt leaves" and room: "length leaves < 2 ^ height mt" "length leaves + 1 < 2 ^ 32"
  shows "\<exists>mt'. AddLeaf H mt (leaf_count mt) x = (mt', Inr (node H (leaves @ [x]) (height mt) 0)) \<and>
     tree_ok H mt' (leaves @ [x]) \<and> height mt' = height mt"
proof -
  let ?n = "length leaves" and ?ht = "height mt"
  have base: "tree_base H mt" and cnt: "leaf_count mt = word_of_nat ?n" and sibs: "sibs_ok H leaves ?ht (siblings mt)"
    using ok room(2) by (simp_all add: tree_ok_def)
  have n32: "?n < 2 ^ 32" using room(2) by simp
  have "sibs_upto H leaves x ?ht 0 (siblings mt)"
    using sibs node_left [of leaves] by (simp add: sibs_upto_iff sibs_ok_def)
  then obtain sibs' where add: "add_levels H (zeroHashes mt) (leaf_count mt) [0..<?ht] x True (siblings mt) =
      (node H (leaves @ [x]) ?ht (?n div 2 ^ ?ht), sibs')" and up: "sibs_upto H leaves x ?ht ?ht sibs'"
    using add_levels_spec [of 0 ?ht "zeroHashes mt" H "leaf_count mt" leaves x x True "siblings mt"]
      tree_base_zero [OF base] bit_index [OF n32] by (auto simp: cnt)
  have "?n div 2 ^ ?ht = 0" using room(1) by simp
  then show ?thesis
    using add sibs_upto_all [OF up] base room(1) by (simp add: AddLeaf_def tree_ok_def tree_base_def cnt)
qed

lemma new_tree_spec:
  assumes "0 < ht" and "length leaves \<le> 2 ^ ht" and "length leaves < 2 ^ 32"
  shows "\<exists>mt. new_tree H ht leaves = Some (Inr mt) \<and> tree_ok H mt leaves \<and> height mt = ht"
proof -
  define mt where "mt = \<lparr>height = ht, zeroHashes = generateZeroHashes H ht, leaf_count = word_of_nat (length leaves),
      siblings = [], currentRoot = 0\<rparr>"
  have base: "tree_base H mt" and ht: "height mt = ht" using assms(1) by (simp_all add: mt_def tree_base_def)
  have n: "unat (leaf_count mt) = length leaves" using assms(3) by (simp add: mt_def unat_of_nat take_bit_nat_eq_self)
  have zero: "leaf_count mt = 0 \<longleftrightarrow> leaves = []" using n by (metis length_0_conv unat_eq_zero)
  obtain path where path: "ComputeMerkleProof H mt (leaf_count mt) leaves =
      Some (if length leaves \<le> 2 ^ ht then Inr (path, node H leaves ht 0) else Inl ErrMoreThanOneRoot)"
    "length leaves + 1 < 2 ^ 32 \<longrightarrow> path = map (\<lambda>h. node H leaves h (sib_of (length leaves div 2 ^ h))) [0..<ht]"
    using ComputeMerkleProof_spec [OF base, of "leaf_count mt" leaves] unfolding ht n by blast
  define sibs where "sibs = (if leaves = [] then map (\<lambda>h. zeroHashes mt ! h) [0..<ht] else path)"
  have cnt: "leaf_count mt = word_of_nat (length leaves)" by (simp add: mt_def)
  have "initSiblings H mt leaves = Some (Inr (sibs, node H leaves ht 0))"
  proof (cases "leaves = []")
    case True
    then show ?thesis using zero BuildL1InfoRoot_spec [OF base, of leaves]
      by (simp add: initSiblings_def sibs_def ht)
  next
    case False
    then show ?thesis using zero path(1) assms(2)
      by (simp add: initSiblings_def sibs_def ht n cnt [symmetric])
  qed
  then have "new_tree H ht leaves = Some (Inr (mt\<lparr>siblings := sibs, currentRoot := node H leaves ht 0\<rparr>))"
    unfolding new_tree_def Let_def mt_def [symmetric] by simp
  moreover have "sibs_ok H leaves ht sibs" if "length leaves + 1 < 2 ^ 32"
    using path(2) that by (auto simp: sibs_ok_def sibs_def sib_of_def odd_iff_mod_2_eq_one)
  ultimately show ?thesis
    using base assms(2) ht cnt by (simp add: tree_ok_def tree_base_def)
qed

text \<open>Adding leaves one by one.\<close>

fun add_all :: "hashfun \<Rightarrow> L1InfoTree \<Rightarrow> hash list \<Rightarrow> L1InfoTree" where
  "add_all H mt [] = mt"
| "add_all H mt (x # xs) = add_all H (fst (AddLeaf H mt (leaf_count mt) x)) xs"

lemma add_all_spec:
  assumes "tree_ok H mt leaves" and "length leaves + length xs \<le> 2 ^ height mt" and "length leaves + length xs < 2 ^ 32"
  shows "tree_ok H (add_all H mt xs) (leaves @ xs) \<and> height (add_all H mt xs) = height mt"
  using assms
proof (induction xs arbitrary: mt leaves)
  case Nil
  then show ?case by simp
next
  case (Cons x xs)
  obtain mt' where mt': "AddLeaf H mt (leaf_count mt) x = (mt', Inr (node H (leaves @ [x]) (height mt) 0))"
    "tree_ok H mt' (leaves @ [x])" "height mt' = height mt"
    using AddLeaf_spec [OF Cons.prems(1), of x] Cons.prems(2,3) by auto
  then show ?case using Cons.IH [OF mt'(2)] Cons.prems(2,3) by simp
qed

end
