(* ===== verification/L1InfoState.thy ===== *)
theory L1InfoState
  imports L1InfoTree
begin

text \<open>
  The L1 info tree as the state keeps it (\<open>state/l1infotree.go\<close>, \<open>state/state.go\<close>,
  \<open>state/reset.go\<close>): the rows of the table \<open>exit_root\<close> and a cached tree, which is built when it
  is needed, extended with every new leaf and dropped when a database transaction that changed
  it is rolled back.

  The database transaction sees its own rows; a commit makes them the committed ones. The
  statements of \<open>pgstatestorage/l1infotree.go\<close> are functions on the list of rows. A statement
  that fails is an error of the operation that issued it (the Boolean arguments).
\<close>

section \<open>Rows\<close>

record L1InfoTreeLeaf =
  BlockNumber :: uint64
  Timestamp :: uint64
  MainnetExitRoot :: hash
  RollupExitRoot :: hash
  GlobalExitRoot :: hash
  PreviousBlockHash :: hash

record exit_root_row =
  row_leaf :: L1InfoTreeLeaf
  row_root :: hash
  row_index :: "uint32 option"

text \<open>\<open>HashLeafData\<close>: keccak of the two hashes and of the timestamp, the argument \<open>K\<close>.\<close>

definition leaf_hash :: "(hash \<Rightarrow> hash \<Rightarrow> uint64 \<Rightarrow> hash) \<Rightarrow> L1InfoTreeLeaf \<Rightarrow> hash" where
  "leaf_hash K l = K (GlobalExitRoot l) (PreviousBlockHash l) (Timestamp l)"

definition GetAllL1InfoRootEntries :: "exit_root_row list \<Rightarrow> exit_root_row list" where
  "GetAllL1InfoRootEntries rows = sort_key (\<lambda>r. the (row_index r)) (filter (\<lambda>r. row_index r \<noteq> None) rows)"

definition GetLatestIndex :: "exit_root_row list \<Rightarrow> uint32 option" where
  "GetLatestIndex rows =
     (let idx = map (\<lambda>r. the (row_index r)) (filter (\<lambda>r. row_index r \<noteq> None) rows)
      in if idx = [] then None else Some (foldl max 0 idx))"

definition AddL1InfoRootToExitRoot :: "exit_root_row list \<Rightarrow> exit_root_row \<Rightarrow> exit_root_row list" where
  "AddL1InfoRootToExitRoot rows r = rows @ [r]"

text \<open>
  The rows up to the one with a given root; the inner query must not give more than one row.
  The root of a row without index is null and equals nothing.
\<close>

definition GetLeavesByL1InfoRoot :: "exit_root_row list \<Rightarrow> hash \<Rightarrow> exit_root_row list option" where
  "GetLeavesByL1InfoRoot rows root =
     (case filter (\<lambda>r. row_index r \<noteq> None \<and> row_root r = root) rows of
        [] \<Rightarrow> Some []
      | [r] \<Rightarrow> Some (filter (\<lambda>x. the (row_index x) \<le> the (row_index r)) (GetAllL1InfoRootEntries rows))
      | _ \<Rightarrow> None)"

text \<open>Deleting the blocks above a number deletes their rows in cascade.\<close>

definition ResetToL1BlockNumber :: "exit_root_row list \<Rightarrow> uint64 \<Rightarrow> exit_root_row list" where
  "ResetToL1BlockNumber rows n = filter (\<lambda>r. BlockNumber (row_leaf r) \<le> n) rows"

section \<open>The state\<close>

record StateTx =
  tx_rows :: "exit_root_row list"
  L1InfoTreeModified :: bool

record l1state =
  db :: "exit_root_row list"
  stateTx :: "StateTx option"
  l1InfoTree :: "L1InfoTree option"

datatype l1_error = ErrTree tree_error | ErrDB

definition view :: "l1state \<Rightarrow> exit_root_row list" where
  "view s = (case stateTx s of Some tx \<Rightarrow> tx_rows tx | None \<Rightarrow> db s)"

definition set_view :: "l1state \<Rightarrow> exit_root_row list \<Rightarrow> l1state" where
  "set_view s rows = (case stateTx s of
       Some tx \<Rightarrow> s\<lparr>stateTx := Some (tx\<lparr>tx_rows := rows\<rparr>)\<rparr>
     | None \<Rightarrow> s\<lparr>db := rows\<rparr>)"

definition BeginStateTransaction :: "l1state \<Rightarrow> l1state" where
  "BeginStateTransaction s = s\<lparr>stateTx := Some \<lparr>tx_rows = db s, L1InfoTreeModified = False\<rparr>\<rparr>"

definition Commit :: "l1state \<Rightarrow> l1state" where
  "Commit s = (case stateTx s of Some tx \<Rightarrow> s\<lparr>db := tx_rows tx, stateTx := None\<rparr> | None \<Rightarrow> s)"

definition state_ResetL1InfoTree :: "l1state \<Rightarrow> l1state" where
  "state_ResetL1InfoTree s = s\<lparr>l1InfoTree := None\<rparr>"

definition Rollback :: "l1state \<Rightarrow> l1state" where
  "Rollback s = (case stateTx s of
       Some tx \<Rightarrow> (let s = (if L1InfoTreeModified tx then state_ResetL1InfoTree s else s) in s\<lparr>stateTx := None\<rparr>)
     | None \<Rightarrow> s)"

definition SetL1InfoTreeModified :: "l1state \<Rightarrow> l1state" where
  "SetL1InfoTreeModified s = (case stateTx s of
       Some tx \<Rightarrow> s\<lparr>stateTx := Some (tx\<lparr>L1InfoTreeModified := True\<rparr>)\<rparr>
     | None \<Rightarrow> s)"

text \<open>\<open>None\<close> is a panic.\<close>

definition buildL1InfoTreeCacheIfNeed ::
    "hashfun \<Rightarrow> (hash \<Rightarrow> hash \<Rightarrow> uint64 \<Rightarrow> hash) \<Rightarrow> l1state \<Rightarrow> (l1state \<times> l1_error option) option" where
  "buildL1InfoTreeCacheIfNeed H K s =
     (case l1InfoTree s of
        Some _ \<Rightarrow> Some (s, None)
      | None \<Rightarrow> do {
          let leaves = map (\<lambda>r. leaf_hash K (row_leaf r)) (GetAllL1InfoRootEntries (view s));
          r \<leftarrow> new_tree H 32 leaves;
          Some (case r of
                  Inl e \<Rightarrow> (s, Some (ErrTree e))
                | Inr mt \<Rightarrow> (s\<lparr>l1InfoTree := Some mt\<rparr>, None))
        })"

definition AddL1InfoTreeLeaf ::
    "hashfun \<Rightarrow> (hash \<Rightarrow> hash \<Rightarrow> uint64 \<Rightarrow> hash) \<Rightarrow> bool \<Rightarrow> l1state \<Rightarrow> L1InfoTreeLeaf \<Rightarrow>
     (l1state \<times> (l1_error + exit_root_row)) option" where
  "AddL1InfoTreeLeaf H K insert_ok s leaf = do {
     let newIndex = (case GetLatestIndex (view s) of Some i \<Rightarrow> i + 1 | None \<Rightarrow> 0);
     (s, e) \<leftarrow> buildL1InfoTreeCacheIfNeed H K s;
     (case e of
        Some err \<Rightarrow> Some (s, Inl err)
      | None \<Rightarrow>
          (case l1InfoTree s of
             None \<Rightarrow> None
           | Some mt \<Rightarrow>
               (let (mt, r) = AddLeaf H mt newIndex (leaf_hash K leaf);
                    s = s\<lparr>l1InfoTree := Some mt\<rparr>
                in case r of
                     Inl err \<Rightarrow> Some (s, Inl (ErrTree err))
                   | Inr root \<Rightarrow>
                       (let s = SetL1InfoTreeModified s;
                            entry = \<lparr>row_leaf = leaf, row_root = root, row_index = Some newIndex\<rparr>
                        in if insert_ok
                           then Some (set_view s (AddL1InfoRootToExitRoot (view s) entry), Inr entry)
                           else Some (s, Inl ErrDB)))))
   }"

definition GetCurrentL1InfoRoot ::
    "hashfun \<Rightarrow> (hash \<Rightarrow> hash \<Rightarrow> uint64 \<Rightarrow> hash) \<Rightarrow> l1state \<Rightarrow> (l1state \<times> (l1_error + hash)) option" where
  "GetCurrentL1InfoRoot H K s = do {
     (s, e) \<leftarrow> buildL1InfoTreeCacheIfNeed H K s;
     (case e of
        Some err \<Rightarrow> Some (s, Inl err)
      | None \<Rightarrow>
          (case l1InfoTree s of
             None \<Rightarrow> None
           | Some mt \<Rightarrow> Some (s, Inr (fst (GetCurrentRootCountAndSiblings mt)))))
   }"

definition state_Reset :: "l1state \<Rightarrow> uint64 \<Rightarrow> l1state" where
  "state_Reset s blockNumber =
     state_ResetL1InfoTree (set_view s (ResetToL1BlockNumber (view s) blockNumber))"

section \<open>Coherence of rows and cache\<close>

definition leaves_of :: "(hash \<Rightarrow> hash \<Rightarrow> uint64 \<Rightarrow> hash) \<Rightarrow> exit_root_row list \<Rightarrow> hash list" where
  "leaves_of K rows = map (\<lambda>r. leaf_hash K (row_leaf r)) rows"

text \<open>
  Rows in order: the i-th has index i, the root of the first i + 1 leaves, and a block that is
  not before that of its predecessor.
\<close>

definition rows_ok :: "hashfun \<Rightarrow> (hash \<Rightarrow> hash \<Rightarrow> uint64 \<Rightarrow> hash) \<Rightarrow> exit_root_row list \<Rightarrow> bool" where
  "rows_ok H K rows \<longleftrightarrow> length rows < 2 ^ 32 \<and>
     (\<forall>i < length rows. row_index (rows ! i) = Some (word_of_nat i) \<and>
        row_root (rows ! i) = node H (leaves_of K (take (Suc i) rows)) 32 0) \<and>
     sorted (map (\<lambda>r. BlockNumber (row_leaf r)) rows)"

definition cache_ok :: "hashfun \<Rightarrow> (hash \<Rightarrow> hash \<Rightarrow> uint64 \<Rightarrow> hash) \<Rightarrow> exit_root_row list \<Rightarrow> L1InfoTree option \<Rightarrow> bool" where
  "cache_ok H K rows c \<longleftrightarrow> (case c of None \<Rightarrow> True | Some mt \<Rightarrow> height mt = 32 \<and> tree_ok H mt (leaves_of K rows))"

definition l1_ok :: "hashfun \<Rightarrow> (hash \<Rightarrow> hash \<Rightarrow> uint64 \<Rightarrow> hash) \<Rightarrow> l1state \<Rightarrow> bool" where
  "l1_ok H K s \<longleftrightarrow> rows_ok H K (db s) \<and> rows_ok H K (view s) \<and> cache_ok H K (view s) (l1InfoTree s) \<and>
     (\<forall>tx. stateTx s = Some tx \<and> \<not> L1InfoTreeModified tx \<longrightarrow> cache_ok H K (db s) (l1InfoTree s))"

lemma view_set_view [simp]: "view (set_view s rows) = rows"
  by (simp add: view_def set_view_def split: option.split)

lemma set_view_simps [simp]:
  "l1InfoTree (set_view s rows) = l1InfoTree s"
  "stateTx (set_view s rows) = map_option (tx_rows_update (\<lambda>_. rows)) (stateTx s)"
  "db (set_view s rows) = (if stateTx s = None then rows else db s)"
  by (simp_all add: set_view_def split: option.split)

lemma rows_indices:
  assumes "rows_ok H K rows"
  shows "filter (\<lambda>r. row_index r \<noteq> None) rows = rows"
    and "map (\<lambda>r. the (row_index r)) rows = map word_of_nat [0..<length rows]"
proof -
  show "filter (\<lambda>r. row_index r \<noteq> None) rows = rows"
    using assms by (auto simp: rows_ok_def filter_id_conv in_set_conv_nth)
  show "map (\<lambda>r. the (row_index r)) rows = map word_of_nat [0..<length rows]"
    using assms by (auto simp: rows_ok_def intro!: nth_equalityI)
qed

lemma sorted_indices: "n \<le> 2 ^ 32 \<Longrightarrow> sorted (map word_of_nat [0..<n] :: uint32 list)"
  by (auto simp: sorted_iff_nth_mono word_le_nat_alt unat_of_nat take_bit_nat_eq_self)

lemma entries_ok:
  assumes "rows_ok H K rows"
  shows "GetAllL1InfoRootEntries rows = rows"
proof -
  have "sorted (map (\<lambda>r. the (row_index r)) rows)"
    using rows_indices(2) [OF assms] sorted_indices [of "length rows"] assms by (simp add: rows_ok_def)
  then show ?thesis using rows_indices(1) [OF assms] by (simp add: GetAllL1InfoRootEntries_def sort_key_id_if_sorted)
qed

lemma filter_split_nth:
  assumes "i < length xs" "\<And>j. j < i \<Longrightarrow> \<not> P (xs ! j)" "P (xs ! i)" "\<And>j. i < j \<Longrightarrow> j < length xs \<Longrightarrow> \<not> P (xs ! j)"
  shows "filter P xs = [xs ! i]"
proof -
  have "filter P (take i xs) = []" "filter P (drop (Suc i) xs) = []"
    using assms by (auto simp: filter_empty_conv in_set_conv_nth)
  then show ?thesis using id_take_nth_drop [OF assms(1)] assms(3) by (metis append_Nil filter.simps(2) filter_append)
qed

lemma leaves_by_root:
  assumes ok: "rows_ok H K rows" and i: "i < length rows" and dist: "distinct (map row_root rows)"
  shows "GetLeavesByL1InfoRoot rows (row_root (rows ! i)) = Some (take (Suc i) rows)"
proof -
  have ix: "row_index (rows ! j) = Some (word_of_nat j)" if "j < length rows" for j
    using ok that by (simp add: rows_ok_def)
  have "filter (\<lambda>r. row_index r \<noteq> None \<and> row_root r = row_root (rows ! i)) rows = [rows ! i]"
    using i dist ix by (intro filter_split_nth) (auto simp: distinct_conv_nth)
  moreover have "(word_of_nat j \<le> (word_of_nat i :: uint32)) = (j < Suc i)" if "j < length rows" for j
    using that i ok by (auto simp: rows_ok_def word_le_nat_alt unat_of_nat take_bit_nat_eq_self)
  then have "(the (row_index (rows ! j)) \<le> word_of_nat i) = (j < Suc i)" if "j < length rows" for j
    using that ix by simp
  then have "filter (\<lambda>x. the (row_index x) \<le> word_of_nat i) (take (Suc i) rows) = take (Suc i) rows"
    "filter (\<lambda>x. the (row_index x) \<le> word_of_nat i) (drop (Suc i) rows) = []"
    by (auto simp: filter_id_conv filter_empty_conv in_set_conv_nth)
  then have "filter (\<lambda>x. the (row_index x) \<le> word_of_nat i) rows = take (Suc i) rows"
    by (metis append_Nil2 append_take_drop_id filter_append)
  ultimately show ?thesis using ix [OF i] entries_ok [OF ok] by (simp add: GetLeavesByL1InfoRoot_def)
qed

lemma foldl_max_sorted: "sorted (xs @ [x]) \<Longrightarrow> a \<le> x \<Longrightarrow> foldl max (a :: 'a :: linorder) (xs @ [x]) = x"
  by (induction xs arbitrary: a) (auto simp: max_def)

lemma latest_ok:
  assumes "rows_ok H K rows"
  shows "(case GetLatestIndex rows of Some i \<Rightarrow> i + 1 | None \<Rightarrow> 0) = (word_of_nat (length rows) :: uint32)"
proof (cases "rows = []")
  case True
  then show ?thesis by (simp add: GetLatestIndex_def)
next
  case False
  then obtain n where n: "length rows = Suc n" by (cases rows) auto
  have idx: "map (\<lambda>r. the (row_index r)) (filter (\<lambda>r. row_index r \<noteq> None) rows) = map word_of_nat [0..<n] @ [word_of_nat n]"
    using rows_indices [OF assms] n by simp
  have "sorted (map word_of_nat [0..<n] @ [word_of_nat n] :: uint32 list)"
    using sorted_indices [of "Suc n"] assms n by (simp add: rows_ok_def)
  then have "foldl max 0 (map word_of_nat [0..<n] @ [word_of_nat n] :: uint32 list) = word_of_nat n"
    by (rule foldl_max_sorted) simp
  then show ?thesis unfolding GetLatestIndex_def Let_def idx by (simp add: n)
qed

section \<open>The operations keep the state coherent\<close>

lemma l1_okD:
  assumes "l1_ok H K s"
  shows "rows_ok H K (db s)" "rows_ok H K (view s)" "cache_ok H K (view s) (l1InfoTree s)"
  using assms by (simp_all add: l1_ok_def)

lemma length_leaves_of [simp]: "length (leaves_of K rows) = length rows"
  by (simp add: leaves_of_def)

lemma rows_small: "rows_ok H K rows \<Longrightarrow> length rows < 2 ^ 32"
  by (simp add: rows_ok_def)

lemma build_spec:
  assumes "l1_ok H K s"
  shows "\<exists>mt. buildL1InfoTreeCacheIfNeed H K s = Some (s\<lparr>l1InfoTree := Some mt\<rparr>, None) \<and>
     height mt = 32 \<and> tree_ok H mt (leaves_of K (view s))"
proof (cases "l1InfoTree s")
  case None
  have leaves: "map (\<lambda>r. leaf_hash K (row_leaf r)) (GetAllL1InfoRootEntries (view s)) = leaves_of K (view s)"
    using entries_ok [OF l1_okD(2) [OF assms]] by (simp add: leaves_of_def)
  obtain mt where "new_tree H 32 (leaves_of K (view s)) = Some (Inr mt)" "tree_ok H mt (leaves_of K (view s))" "height mt = 32"
    using new_tree_spec [of 32 "leaves_of K (view s)" H] rows_small [OF l1_okD(2) [OF assms]] by auto
  then show ?thesis using None by (intro exI [of _ mt]) (simp add: buildL1InfoTreeCacheIfNeed_def leaves)
next
  case (Some mt)
  then have "s = s\<lparr>l1InfoTree := Some mt\<rparr>" by simp
  then show ?thesis using Some l1_okD(3) [OF assms]
    by (intro exI [of _ mt]) (simp add: buildL1InfoTreeCacheIfNeed_def cache_ok_def)
qed

lemma rows_ok_snoc:
  assumes "rows_ok H K rows" and "Suc (length rows) < 2 ^ 32" and "\<forall>r \<in> set rows. BlockNumber (row_leaf r) \<le> BlockNumber leaf"
  shows "rows_ok H K (rows @ [\<lparr>row_leaf = leaf, row_root = node H (leaves_of K rows @ [leaf_hash K leaf]) 32 0,
     row_index = Some (word_of_nat (length rows))\<rparr>])"
  using assms
  by (auto simp: rows_ok_def nth_append sorted_append leaves_of_def less_Suc_eq take_append simp del: node.simps)

text \<open>Adding a leaf inside a transaction, with and without a failing insert.\<close>

lemma AddL1InfoTreeLeaf_spec:
  assumes ok: "l1_ok H K s" and tx: "stateTx s = Some tx" and room: "Suc (length (view s)) < 2 ^ 32"
    and order: "\<forall>r \<in> set (view s). BlockNumber (row_leaf r) \<le> BlockNumber leaf"
  defines "entry \<equiv> \<lparr>row_leaf = leaf, row_root = node H (leaves_of K (view s) @ [leaf_hash K leaf]) 32 0,
     row_index = Some (word_of_nat (length (view s)))\<rparr>"
  shows "\<exists>s'. AddL1InfoTreeLeaf H K insert_ok s leaf = Some (s', if insert_ok then Inr entry else Inl ErrDB) \<and>
     (insert_ok \<longrightarrow> l1_ok H K s' \<and> view s' = view s @ [entry]) \<and>
     db s' = db s \<and> (\<exists>tx'. stateTx s' = Some tx' \<and> L1InfoTreeModified tx')"
proof -
  let ?rows = "view s"
  obtain mt where b: "buildL1InfoTreeCacheIfNeed H K s = Some (s\<lparr>l1InfoTree := Some mt\<rparr>, None)"
    "height mt = 32" "tree_ok H mt (leaves_of K ?rows)"
    using build_spec [OF ok] by blast
  have cnt: "leaf_count mt = word_of_nat (length ?rows)" using b(3) by (simp add: tree_ok_def)
  obtain mt' where a: "AddLeaf H mt (leaf_count mt) (leaf_hash K leaf) =
      (mt', Inr (node H (leaves_of K ?rows @ [leaf_hash K leaf]) 32 0))"
    "tree_ok H mt' (leaves_of K ?rows @ [leaf_hash K leaf])" "height mt' = 32"
    using AddLeaf_spec [OF b(3), of "leaf_hash K leaf"] b(2) room by auto
  define s1 where "s1 = s\<lparr>stateTx := Some (tx\<lparr>L1InfoTreeModified := True\<rparr>), l1InfoTree := Some mt'\<rparr>"
  have "SetL1InfoTreeModified (s\<lparr>l1InfoTree := Some mt'\<rparr>) = s1"
    using tx by (simp add: SetL1InfoTreeModified_def s1_def)
  moreover have view: "view s1 = ?rows" using tx by (simp add: view_def s1_def)
  ultimately have res: "AddL1InfoTreeLeaf H K insert_ok s leaf =
      (if insert_ok then Some (set_view s1 (?rows @ [entry]), Inr entry) else Some (s1, Inl ErrDB))"
    unfolding AddL1InfoTreeLeaf_def latest_ok [OF l1_okD(2) [OF ok]] b(1) cnt [symmetric]
    by (simp add: a(1) [unfolded cnt] AddL1InfoRootToExitRoot_def entry_def cnt Let_def del: node.simps)
  have "rows_ok H K (?rows @ [entry])"
    unfolding entry_def by (rule rows_ok_snoc [OF l1_okD(2) [OF ok] room order])
  then have "l1_ok H K (set_view s1 (?rows @ [entry]))"
    using l1_okD(1) [OF ok] a(2,3) by (simp add: l1_ok_def s1_def cache_ok_def leaves_of_def entry_def del: node.simps)
  then show ?thesis unfolding res by (simp add: s1_def)
qed

lemma rows_ok_take: "rows_ok H K rows \<Longrightarrow> rows_ok H K (take k rows)"
  by (auto simp: rows_ok_def take_map [symmetric] sorted_wrt_take min_def simp del: node.simps)

lemma filter_le_take:
  "sorted (map f rows) \<Longrightarrow> \<exists>k. filter (\<lambda>r. f r \<le> (n :: 'a :: linorder)) rows = take k rows"
proof (induction rows)
  case Nil
  then show ?case by simp
next
  case (Cons r rows)
  show ?case
  proof (cases "f r \<le> n")
    case True
    obtain k where "filter (\<lambda>r. f r \<le> n) rows = take k rows" using Cons by auto
    then have "filter (\<lambda>r. f r \<le> n) (r # rows) = take (Suc k) (r # rows)" using True by simp
    then show ?thesis by blast
  next
    case False
    then have "filter (\<lambda>r. f r \<le> n) (r # rows) = take 0 (r # rows)"
      using Cons.prems by (auto simp: filter_empty_conv)
    then show ?thesis by blast
  qed
qed

lemma rows_ok_reset: "rows_ok H K rows \<Longrightarrow> rows_ok H K (ResetToL1BlockNumber rows n)"
  using filter_le_take [of "\<lambda>r. BlockNumber (row_leaf r)" rows n] rows_ok_take [of H K rows]
  by (auto simp: ResetToL1BlockNumber_def rows_ok_def simp del: node.simps)

section \<open>The machine\<close>

text \<open>
  A tree is read inside a transaction only when the transaction has not been reset before
  (\<open>root\<close>): see \<open>reset_then_read_incoherent\<close>.
\<close>

definition tx_clean :: "l1state \<Rightarrow> bool" where
  "tx_clean s \<longleftrightarrow> (case stateTx s of Some tx \<Rightarrow> L1InfoTreeModified tx \<or> tx_rows tx = db s | None \<Rightarrow> True)"

inductive l1_reach :: "hashfun \<Rightarrow> (hash \<Rightarrow> hash \<Rightarrow> uint64 \<Rightarrow> hash) \<Rightarrow> l1state \<Rightarrow> bool" for H K where
  start: "l1_reach H K \<lparr>db = [], stateTx = None, l1InfoTree = None\<rparr>"
| open_tx: "l1_reach H K s \<Longrightarrow> stateTx s = None \<Longrightarrow> l1_reach H K (BeginStateTransaction s)"
| commit: "l1_reach H K s \<Longrightarrow> l1_reach H K (Commit s)"
| rollback: "l1_reach H K s \<Longrightarrow> l1_reach H K (Rollback s)"
| add: "l1_reach H K s \<Longrightarrow> stateTx s = Some tx \<Longrightarrow> Suc (length (view s)) < 2 ^ 32 \<Longrightarrow>
     \<forall>r \<in> set (view s). BlockNumber (row_leaf r) \<le> BlockNumber leaf \<Longrightarrow>
     AddL1InfoTreeLeaf H K True s leaf = Some (s', r) \<Longrightarrow> l1_reach H K s'"
| add_fails: "l1_reach H K s \<Longrightarrow> stateTx s = Some tx \<Longrightarrow> Suc (length (view s)) < 2 ^ 32 \<Longrightarrow>
     \<forall>r \<in> set (view s). BlockNumber (row_leaf r) \<le> BlockNumber leaf \<Longrightarrow>
     AddL1InfoTreeLeaf H K False s leaf = Some (s', r) \<Longrightarrow> l1_reach H K (Rollback s')"
| root: "l1_reach H K s \<Longrightarrow> tx_clean s \<Longrightarrow> GetCurrentL1InfoRoot H K s = Some (s', r) \<Longrightarrow> l1_reach H K s'"
| reset: "l1_reach H K s \<Longrightarrow> stateTx s = Some tx \<Longrightarrow> l1_reach H K (state_Reset s n)"

lemma root_spec:
  assumes ok: "l1_ok H K s"
  shows "\<exists>mt. GetCurrentL1InfoRoot H K s = Some (s\<lparr>l1InfoTree := Some mt\<rparr>, Inr (node H (leaves_of K (view s)) 32 0)) \<and>
     cache_ok H K (view s) (Some mt)"
proof -
  obtain mt where b: "buildL1InfoTreeCacheIfNeed H K s = Some (s\<lparr>l1InfoTree := Some mt\<rparr>, None)"
    "height mt = 32" "tree_ok H mt (leaves_of K (view s))"
    using build_spec [OF ok] by blast
  then show ?thesis
    by (intro exI [of _ mt]) (simp add: GetCurrentL1InfoRoot_def GetCurrentRootCountAndSiblings_def cache_ok_def tree_ok_def)
qed

lemma cache_ok_None [simp]: "cache_ok H K rows None"
  by (simp add: cache_ok_def)

lemma l1_reach_ok: "l1_reach H K s \<Longrightarrow> l1_ok H K s"
proof (induction rule: l1_reach.induct)
  case start
  show ?case by (simp add: l1_ok_def view_def rows_ok_def)
next
  case (open_tx s)
  then show ?case by (simp add: l1_ok_def view_def BeginStateTransaction_def)
next
  case (commit s)
  then show ?case by (auto simp: l1_ok_def view_def Commit_def split: option.splits)
next
  case (rollback s)
  then show ?case
    by (auto simp: l1_ok_def view_def Rollback_def state_ResetL1InfoTree_def Let_def split: option.splits)
next
  case (add s tx leaf s' r)
  then show ?case using AddL1InfoTreeLeaf_spec [OF add.IH add(2,3,4), of True] by auto
next
  case (add_fails s tx leaf s' r)
  obtain tx' where "stateTx s' = Some tx'" "L1InfoTreeModified tx'" "db s' = db s"
    using AddL1InfoTreeLeaf_spec [OF add_fails.IH add_fails(2,3,4), of False] add_fails(5) by auto
  then show ?case using l1_okD(1) [OF add_fails.IH]
    by (simp add: Rollback_def state_ResetL1InfoTree_def l1_ok_def view_def)
next
  case (root s s' r)
  obtain mt where mt: "s' = s\<lparr>l1InfoTree := Some mt\<rparr>" "cache_ok H K (view s) (Some mt)"
    using root_spec [OF root.IH] root(3) by auto
  then show ?case using root.IH root(2)
    by (auto simp: l1_ok_def view_def tx_clean_def split: option.splits)
next
  case (reset s tx n)
  then show ?case using rows_ok_reset [OF l1_okD(2) [OF reset.IH]] l1_okD(1) [OF reset.IH]
    by (simp add: l1_ok_def state_Reset_def state_ResetL1InfoTree_def view_def set_view_def)
qed

text \<open>
  Reading the root inside a transaction that was reset before fills the cache from the reduced
  rows; a rollback then keeps that cache, since the transaction is not marked as modified.
\<close>

lemma reset_then_read_incoherent:
  assumes reach: "l1_reach H K s" and "stateTx s = None" and db: "db s = [r]" and n: "n < BlockNumber (row_leaf r)"
  shows "\<exists>s' root. GetCurrentL1InfoRoot H K (state_Reset (BeginStateTransaction s) n) = Some (s', Inr root) \<and>
     db (Rollback s') = [r] \<and> (\<exists>mt. l1InfoTree (Rollback s') = Some mt \<and> leaf_count mt = 0) \<and>
     (\<forall>leaf ok. \<exists>s''. AddL1InfoTreeLeaf H K ok (Rollback s') leaf = Some (s'', Inl (ErrTree ErrMismatchedLeafCount)))"
proof -
  let ?s = "state_Reset (BeginStateTransaction s) n"
  have "l1_reach H K (BeginStateTransaction s)" using reach assms(2) by (rule l1_reach.open_tx)
  then have "l1_ok H K ?s"
    by (intro l1_reach_ok l1_reach.reset) (simp_all add: BeginStateTransaction_def)
  then obtain mt where mt: "GetCurrentL1InfoRoot H K ?s = Some (?s\<lparr>l1InfoTree := Some mt\<rparr>, Inr (node H (leaves_of K (view ?s)) 32 0))"
    "cache_ok H K (view ?s) (Some mt)"
    using root_spec by blast
  have s: "?s = \<lparr>db = [r], stateTx = Some \<lparr>tx_rows = [], L1InfoTreeModified = False\<rparr>, l1InfoTree = None\<rparr>"
    using n assms(2) db
    by (cases s) (simp add: state_Reset_def BeginStateTransaction_def state_ResetL1InfoTree_def set_view_def view_def
        ResetToL1BlockNumber_def not_le)
  have cnt: "leaf_count mt = 0" using mt(2) by (simp add: cache_ok_def tree_ok_def s view_def leaves_of_def)
  let ?r = "Rollback (?s\<lparr>l1InfoTree := Some mt\<rparr>)"
  have r: "?r = \<lparr>db = [r], stateTx = None, l1InfoTree = Some mt\<rparr>" by (simp add: Rollback_def s)
  have "rows_ok H K [r]" using l1_okD(1) [OF l1_reach_ok [OF reach]] db by simp
  from latest_ok [OF this] have "(case GetLatestIndex (view ?r) of Some i \<Rightarrow> i + 1 | None \<Rightarrow> 0) = 1"
    by (simp add: r view_def)
  then have "AddL1InfoTreeLeaf H K ok ?r leaf = Some (?r, Inl (ErrTree ErrMismatchedLeafCount))" for leaf ok
    by (simp add: AddL1InfoTreeLeaf_def buildL1InfoTreeCacheIfNeed_def AddLeaf_def cnt r)
  then show ?thesis using mt(1) cnt r by auto
qed

end
