(* ===== verification/L1InfoSpec.thy ===== *)
theory L1InfoSpec
  imports L1InfoState
begin

text \<open>The properties of the L1 info tree and of its cache in the state.\<close>

text \<open>
  C7. The incremental tree is the tree: start from any leaves (at construction) and add more
  leaves one by one, keeping only one sibling per level; the root is then the one that
  \<open>BuildL1InfoRoot\<close> computes from all the leaves at once.
\<close>

theorem incremental_root:
  assumes "ht \<noteq> 0" and "length leaves + length xs \<le> 2 ^ unat ht" and "length leaves + length xs < 2 ^ 32"
  shows "\<exists>mt. NewL1InfoTree H ht leaves = Some (Inr mt) \<and>
     BuildL1InfoRoot H mt (leaves @ xs) = Some (Inr (currentRoot (add_all H mt xs))) \<and>
     leaf_count (add_all H mt xs) = word_of_nat (length leaves + length xs)"
proof -
  have ht: "0 < unat ht" using assms(1) by (simp add: unat_gt_0)
  obtain mt where mt: "new_tree H (unat ht) leaves = Some (Inr mt)" "tree_ok H mt leaves" "height mt = unat ht"
    using new_tree_spec [OF ht, of leaves H] assms(2,3) by auto
  have all: "tree_ok H (add_all H mt xs) (leaves @ xs)" "height (add_all H mt xs) = unat ht"
    using add_all_spec [OF mt(2), of xs] assms(2,3) mt(3) by auto
  have "BuildL1InfoRoot H mt (leaves @ xs) = Some (Inr (node H (leaves @ xs) (unat ht) 0))"
    using BuildL1InfoRoot_spec [of H mt "leaves @ xs"] mt(2,3) assms(2) by (simp add: tree_ok_def)
  then show ?thesis using mt(1) all by (auto simp: NewL1InfoTree_def tree_ok_def)
qed

theorem incremental_root_witness:
  "\<exists>mt. NewL1InfoTree (\<lambda>a b. 3 * a + b + 1) 2 [7, 5] = Some (Inr mt) \<and>
     BuildL1InfoRoot (\<lambda>a b. 3 * a + b + 1) mt [7, 5, 9] = Some (Inr (currentRoot (add_all (\<lambda>a b. 3 * a + b + 1) mt [9])))"
  using incremental_root [of 2 "[7, 5]" "[9]" "\<lambda>a b. 3 * a + b + 1"] by auto

lemma new_tree_base:
  assumes "new_tree H ht leaves = Some (Inr mt)" and "0 < ht"
  shows "tree_base H mt" "height mt = ht"
proof -
  obtain r where r: "(case r of Inl e \<Rightarrow> Inl e
      | Inr (sibs, root) \<Rightarrow> Inr (\<lparr>height = ht, zeroHashes = generateZeroHashes H ht,
          leaf_count = word_of_nat (length leaves), siblings = sibs, currentRoot = root\<rparr>)) = (Inr mt :: tree_error + L1InfoTree)"
    using assms(1) unfolding new_tree_def Let_def bind_eq_Some_conv by (auto cong: sum.case_cong)
  then show "tree_base H mt" "height mt = ht"
    using assms(2) by (cases r, auto simp: tree_base_def)+
qed

text \<open>
  C23. The Merkle proof that \<open>ComputeMerkleProof\<close> returns for a leaf leads from that leaf to the
  root it returns, which is the root of \<open>BuildL1InfoRoot\<close>, for every number of leaves whose successor
  fits into 32 bits (the index is compared with the length as a 32-bit value); more leaves than the height
  allows are reported as an error by both.
\<close>

theorem merkle_proof_valid:
  assumes "NewL1InfoTree H ht initial = Some (Inr mt)" and "ht \<noteq> 0" and "length initial < 2 ^ 32"
    and "unat i < length leaves" and "length leaves + 1 < 2 ^ 32"
  shows "if length leaves \<le> 2 ^ unat ht
     then \<exists>proof root. ComputeMerkleProof H mt i leaves = Some (Inr (proof, root)) \<and>
            BuildL1InfoRoot H mt leaves = Some (Inr root) \<and> length proof = unat ht \<and>
            verify_up H (unat i) (leaves ! unat i) proof = root
     else ComputeMerkleProof H mt i leaves = Some (Inl ErrMoreThanOneRoot) \<and>
          BuildL1InfoRoot H mt leaves = Some (Inl ErrMoreThanOneRoot)"
proof -
  have ht: "0 < unat ht" using assms(2) by (simp add: unat_gt_0)
  have base: "tree_base H mt" "height mt = unat ht"
    using new_tree_base [OF assms(1) [unfolded NewL1InfoTree_def] ht] by simp_all
  have up: "verify_up H (unat i) (leaves ! unat i)
      (map (\<lambda>h. node H leaves h (sib_of (unat i div 2 ^ h))) [0..<unat ht]) = node H leaves (unat ht) (unat i div 2 ^ unat ht)"
    using verify_up_node [of H "unat i" leaves 0 "unat ht"] assms(4) by simp
  have p: "ComputeMerkleProof H mt i leaves = Some (if length leaves \<le> 2 ^ unat ht
      then Inr (map (\<lambda>h. node H leaves h (sib_of (unat i div 2 ^ h))) [0..<unat ht], node H leaves (unat ht) 0)
      else Inl ErrMoreThanOneRoot)"
    using ComputeMerkleProof_spec [OF base(1), of i leaves] assms(5) unfolding base(2) by auto
  show ?thesis
  proof (cases "length leaves \<le> 2 ^ unat ht")
    case True
    then have "unat i div 2 ^ unat ht = 0" using assms(4) by simp
    then show ?thesis using True up p BuildL1InfoRoot_spec [OF base(1), of leaves] base(2) by simp
  next
    case False
    then show ?thesis using p BuildL1InfoRoot_spec [OF base(1), of leaves] base(2) by simp
  qed
qed

theorem merkle_proof_valid_witness:
  "\<exists>mt proof root. NewL1InfoTree (\<lambda>a b. 3 * a + b + 1) 2 [] = Some (Inr mt) \<and>
     ComputeMerkleProof (\<lambda>a b. 3 * a + b + 1) mt 1 [7, 5, 9] = Some (Inr (proof, root)) \<and>
     verify_up (\<lambda>a b. 3 * a + b + 1) 1 5 proof = root"
proof -
  obtain mt where mt: "NewL1InfoTree (\<lambda>a b. 3 * a + b + 1) 2 [] = Some (Inr mt)"
    using new_tree_spec [of 2 "[]"] by (auto simp: NewL1InfoTree_def)
  from merkle_proof_valid [OF mt, of 1 "[7, 5, 9]"] show ?thesis using mt by auto
qed

text \<open>
  C14. In every state reachable by opening, committing and rolling back transactions, adding
  leaves (also when the insert into the database fails), reading the root and resetting to an
  earlier block, the cached tree agrees with the rows: the root that is read is the root of the
  leaves stored in the database as the current transaction sees it, and the one stored with
  the last row.
\<close>

theorem l1info_cache_coherent:
  assumes "l1_reach H K s"
  shows "\<exists>s'. GetCurrentL1InfoRoot H K s = Some (s', Inr (node H (leaves_of K (view s)) 32 0)) \<and>
     (view s \<noteq> [] \<longrightarrow> row_root (last (view s)) = node H (leaves_of K (view s)) 32 0)"
proof -
  note ok = l1_reach_ok [OF assms]
  have "row_root (last (view s)) = node H (leaves_of K (view s)) 32 0" if "view s \<noteq> []"
  proof -
    have "length (view s) - 1 < length (view s)" "Suc (length (view s) - 1) = length (view s)" using that by simp_all
    then have "row_root (view s ! (length (view s) - 1)) = node H (leaves_of K (take (length (view s)) (view s))) 32 0"
      using l1_okD(2) [OF ok] unfolding rows_ok_def by metis
    then show ?thesis using that by (simp add: last_conv_nth)
  qed
  then show ?thesis using root_spec [OF ok] by blast
qed

definition sample_leaf :: L1InfoTreeLeaf where
  "sample_leaf = \<lparr>BlockNumber = 5, Timestamp = 1, MainnetExitRoot = 0, RollupExitRoot = 0, GlobalExitRoot = 2, PreviousBlockHash = 3\<rparr>"

definition empty_state :: l1state where
  "empty_state = \<lparr>db = [], stateTx = None, l1InfoTree = None\<rparr>"

lemma sample_state:
  "\<exists>s row. l1_reach H K s \<and> stateTx s = None \<and> db s = [row] \<and> BlockNumber (row_leaf row) = 5"
proof -
  let ?s = "BeginStateTransaction empty_state"
  have r: "l1_reach H K ?s"
    unfolding empty_state_def by (rule l1_reach.open_tx [OF l1_reach.start]) simp
  have tx: "stateTx ?s = Some \<lparr>tx_rows = [], L1InfoTreeModified = False\<rparr>" and v: "view ?s = []"
    by (simp_all add: BeginStateTransaction_def empty_state_def view_def)
  obtain s' where s': "AddL1InfoTreeLeaf H K True ?s sample_leaf = Some (s', Inr \<lparr>row_leaf = sample_leaf,
      row_root = node H (leaves_of K [] @ [leaf_hash K sample_leaf]) 32 0, row_index = Some 0\<rparr>)"
    "view s' = [\<lparr>row_leaf = sample_leaf, row_root = node H (leaves_of K [] @ [leaf_hash K sample_leaf]) 32 0, row_index = Some 0\<rparr>]"
    "\<exists>tx'. stateTx s' = Some tx'"
    using AddL1InfoTreeLeaf_spec [OF l1_reach_ok [OF r] tx, of sample_leaf True] by (auto simp: v simp del: node.simps)
  have "l1_reach H K s'" by (rule l1_reach.add [OF r tx _ _ s'(1)]) (simp_all add: v)
  then have "l1_reach H K (Commit s')" by (rule l1_reach.commit)
  moreover have "stateTx (Commit s') = None" "db (Commit s') = view s'"
    using s'(3) by (auto simp: Commit_def view_def)
  ultimately show ?thesis using s'(2) by (auto simp: sample_leaf_def simp del: node.simps)
qed

theorem l1info_cache_coherent_witness:
  "\<exists>s s'. view s \<noteq> [] \<and> GetCurrentL1InfoRoot (\<lambda>a b. a + b) (\<lambda>a b t. a) s = Some (s', Inr (row_root (last (view s))))"
proof -
  obtain s row where s: "l1_reach (\<lambda>a b. a + b) (\<lambda>a b t. a) s" "stateTx s = None" "db s = [row]"
    using sample_state [of "\<lambda>a b. a + b" "\<lambda>a b t. a"] by auto
  have "view s = [row]" using s(2,3) by (simp add: view_def)
  then obtain s' where "GetCurrentL1InfoRoot (\<lambda>a b. a + b) (\<lambda>a b t. a) s = Some (s', Inr (row_root (last (view s))))"
    "view s \<noteq> []"
    using l1info_cache_coherent [OF s(1)] by (auto simp del: node.simps)
  then show ?thesis by blast
qed

text \<open>
  C37. In a reachable state the query for the leaves of a stored root gives exactly the rows up to
  that root, and the tree built from them has this root again (what a prover needs to
  rebuild the tree of a batch); the roots of the rows must differ, as they do unless the hash
  function collides.
\<close>

theorem leaves_rebuild_root:
  assumes "l1_reach H K s" and "i < length (view s)" and "distinct (map row_root (view s))"
  shows "\<exists>rows. GetLeavesByL1InfoRoot (view s) (row_root (view s ! i)) = Some rows \<and> rows = take (Suc i) (view s) \<and>
     (\<exists>mt. NewL1InfoTree H 32 (map (\<lambda>r. leaf_hash K (row_leaf r)) rows) = Some (Inr mt) \<and>
       currentRoot mt = row_root (view s ! i))"
proof -
  have ok: "rows_ok H K (view s)" using l1_okD(2) [OF l1_reach_ok [OF assms(1)]] .
  let ?leaves = "leaves_of K (take (Suc i) (view s))"
  have "length ?leaves < 2 ^ 32" using ok assms(2) by (simp add: leaves_of_def rows_ok_def)
  then obtain mt where "new_tree H 32 ?leaves = Some (Inr mt)" "tree_ok H mt ?leaves" "height mt = 32"
    using new_tree_spec [of 32 ?leaves H] by auto
  moreover have "row_root (view s ! i) = node H ?leaves 32 0" using ok assms(2) by (simp add: rows_ok_def del: node.simps)
  ultimately show ?thesis using leaves_by_root [OF ok assms(2,3)]
    by (simp add: NewL1InfoTree_def leaves_of_def tree_ok_def del: node.simps)
qed

theorem leaves_rebuild_root_witness:
  "\<exists>s row. db s = [row] \<and> GetLeavesByL1InfoRoot (view s) (row_root row) = Some [row]"
proof -
  obtain s row where s: "l1_reach (\<lambda>a b. a + b) (\<lambda>a b t. a) s" "stateTx s = None" "db s = [row]"
    using sample_state [of "\<lambda>a b. a + b" "\<lambda>a b t. a"] by auto
  then have "view s = [row]" by (simp add: view_def)
  with leaves_rebuild_root [OF s(1), of 0] have "GetLeavesByL1InfoRoot (view s) (row_root row) = Some [row]" by auto
  with s(3) show ?thesis by blast
qed



end
