(* ===== verification/Bytes.thy ===== *)
theory Bytes
  imports Prelude
begin

text \<open>
  Bytes, hexadecimal digits and big-endian numbers, as the codecs of the node use them
  (\<open>big.Int.SetBytes\<close>, \<open>big.Int.Bytes\<close>, \<open>hex.DecodeString\<close>, slices of byte arrays).
\<close>

section \<open>Big-endian numbers\<close>

fun be_val :: "byte list \<Rightarrow> int" where
  "be_val [] = 0"
| "be_val (b # bs) = uint b * 256 ^ length bs + be_val bs"

lemma be_val_append: "be_val (xs @ ys) = be_val xs * 256 ^ length ys + be_val ys"
  by (induction xs) (simp_all add: algebra_simps power_add)

lemma be_val_nonneg [simp]: "0 \<le> be_val bs"
  by (induction bs) simp_all

lemma uint_byte: "uint (b :: byte) \<le> 255"
  using uint_bounded [of b] by simp

lemma be_val_less: "be_val bs < 256 ^ length bs"
proof (induction bs)
  case (Cons b bs)
  have "uint b * 256 ^ length bs \<le> 255 * 256 ^ length bs" by (rule mult_right_mono) (simp_all add: uint_byte)
  moreover have "be_val (b # bs) = uint b * 256 ^ length bs + be_val bs" "256 ^ length (b # bs) = 256 * (256 :: int) ^ length bs"
    by simp_all
  ultimately show ?case using Cons by linarith
qed simp

lemma be_val_replicate_zero [simp]: "be_val (replicate n 0 @ bs) = be_val bs"
  by (induction n) simp_all

function bytes_of :: "int \<Rightarrow> byte list" where
  "bytes_of n = (if n \<le> 0 then [] else bytes_of (n div 256) @ [word_of_int n])"
  by pat_completeness auto
termination by (relation "measure nat") (auto simp: nat_mono_iff)

declare bytes_of.simps [simp del]

lemma bytes_of_zero [simp]: "n \<le> 0 \<Longrightarrow> bytes_of n = []"
  by (simp add: bytes_of.simps)

lemma be_val_bytes_of [simp]: "0 \<le> n \<Longrightarrow> be_val (bytes_of n) = n"
proof (induction n rule: bytes_of.induct)
  case (1 n)
  show ?case
  proof (cases "n = 0")
    case False
    then have "0 < n" using 1 by simp
    then have "be_val (bytes_of n) = (n div 256) * 256 + uint (word_of_int n :: byte)"
      using 1 by (simp add: bytes_of.simps [of n] be_val_append pos_imp_zdiv_nonneg_iff)
    then show ?thesis by (simp add: uint_word_of_int take_bit_eq_mod)
  qed simp
qed

lemma bytes_of_length: "0 \<le> n \<Longrightarrow> n < 256 ^ k \<Longrightarrow> length (bytes_of n) \<le> k"
proof (induction n arbitrary: k rule: bytes_of.induct)
  case (1 n)
  show ?case
  proof (cases "n = 0")
    case False
    then have n: "0 < n" using 1 by simp
    then obtain k' where k: "k = Suc k'" using 1(3) by (cases k) auto
    have "n div 256 < 256 ^ k'" using 1(3) k by (simp add: div_less_iff_less_mult mult.commute)
    then have "length (bytes_of (n div 256)) \<le> k'" using 1(1) n by (simp add: pos_imp_zdiv_nonneg_iff)
    then show ?thesis using n k by (simp add: bytes_of.simps [of n])
  qed simp
qed

section \<open>Hexadecimal digits\<close>

fun unhex :: "nat list \<Rightarrow> byte list option" where
  "unhex [] = Some []"
| "unhex [d] = None"
| "unhex (x # y # ds) = map_option (Cons (word_of_nat (16 * x + y))) (unhex ds)"

fun hex_val :: "nat list \<Rightarrow> int" where
  "hex_val [] = 0"
| "hex_val (d # ds) = int d * 16 ^ length ds + hex_val ds"

function hex_digits :: "int \<Rightarrow> nat list" where
  "hex_digits n = (if n \<le> 0 then [] else hex_digits (n div 16) @ [nat (n mod 16)])"
  by pat_completeness auto
termination by (relation "measure nat") (auto simp: nat_mono_iff)

declare hex_digits.simps [simp del]

text \<open>\<open>%0ws\<close>: a number as hexadecimal text, padded with zeros to a width.\<close>

definition hex_pad :: "nat \<Rightarrow> int \<Rightarrow> nat list" where
  "hex_pad w n = (let ds = (if n = 0 then [0] else hex_digits n) in replicate (w - length ds) 0 @ ds)"

lemma hex_val_append: "hex_val (xs @ ys) = hex_val xs * 16 ^ length ys + hex_val ys"
  by (induction xs) (simp_all add: algebra_simps power_add)

lemma hex_val_replicate_zero [simp]: "hex_val (replicate n 0 @ ds) = hex_val ds"
  by (induction n) simp_all

lemma hex_digits_props:
  "0 \<le> n \<Longrightarrow> hex_val (hex_digits n) = n \<and> (\<forall>d \<in> set (hex_digits n). d < 16) \<and>
     (n < 16 ^ k \<longrightarrow> length (hex_digits n) \<le> k)"
proof (induction n arbitrary: k rule: hex_digits.induct)
  case (1 n)
  show ?case
  proof (cases "n = 0")
    case False
    then have n: "0 < n" using 1 by simp
    have IH: "hex_val (hex_digits (n div 16)) = n div 16" "\<forall>d \<in> set (hex_digits (n div 16)). d < 16"
      "n div 16 < 16 ^ k' \<Longrightarrow> length (hex_digits (n div 16)) \<le> k'" for k'
      using 1 n by (simp_all add: pos_imp_zdiv_nonneg_iff)
    have "length (hex_digits n) \<le> k" if lt: "n < 16 ^ k"
    proof -
      obtain k' where k: "k = Suc k'" using lt n by (cases k) auto
      have "n div 16 < 16 ^ k'" using lt k by (simp add: div_less_iff_less_mult mult.commute)
      then show ?thesis using IH(3) n k by (simp add: hex_digits.simps [of n])
    qed
    then show ?thesis using IH n by (simp add: hex_digits.simps [of n] hex_val_append nat_less_iff)
  qed (simp add: hex_digits.simps)
qed

lemma hex_pad_props:
  assumes "0 \<le> n" and "n < 16 ^ w" and "0 < w"
  shows "length (hex_pad w n) = w" "hex_val (hex_pad w n) = n" "\<forall>d \<in> set (hex_pad w n). d < 16"
  using hex_digits_props [OF assms(1), of w] assms
  by (auto simp: hex_pad_def Let_def simp del: replicate_append_same)

lemma unhex_props:
  "even (length ds) \<Longrightarrow> \<forall>d \<in> set ds. d < 16 \<Longrightarrow>
   \<exists>bs. unhex ds = Some bs \<and> 2 * length bs = length ds \<and> be_val bs = hex_val ds"
proof (induction ds rule: unhex.induct)
  case (3 x y ds)
  then obtain bs where bs: "unhex ds = Some bs" "2 * length bs = length ds" "be_val bs = hex_val ds" by auto
  have "uint (word_of_nat (16 * x + y) :: byte) = 16 * int x + int y"
  proof -
    have "unat (word_of_nat n :: byte) = n" if "n < 256" for n
      using that by (simp add: unat_of_nat take_bit_nat_eq_self)
    then have "unat (word_of_nat (16 * x + y) :: byte) = 16 * x + y" using 3(3) by (auto simp del: of_nat_add of_nat_mult)
    then show ?thesis by (metis int_plus of_nat_mult of_nat_numeral uint_nat)
  qed
  moreover have "(16 :: int) ^ length ds = 256 ^ length bs" 
    unfolding bs(2) [symmetric] power_mult by simp
  ultimately show ?case using bs by (simp add: algebra_simps)
qed simp_all

lemma unhex_append:
  "unhex xs = Some bs \<Longrightarrow> unhex ys = Some cs \<Longrightarrow> unhex (xs @ ys) = Some (bs @ cs)"
  by (induction xs arbitrary: bs rule: unhex.induct) auto

section \<open>Slices\<close>

text \<open>The slice \<open>xs[lo:hi]\<close>; bounds out of order or out of range panic.\<close>

definition go_slice :: "'a list \<Rightarrow> uint64 \<Rightarrow> uint64 \<Rightarrow> 'a list option" where
  "go_slice xs lo hi = (if lo \<le> hi \<and> unat hi \<le> length xs then Some (take (unat hi - unat lo) (drop (unat lo) xs)) else None)"

lemma go_slice_Some:
  "unat lo = length a \<Longrightarrow> unat hi = length a + length b \<Longrightarrow> go_slice (a @ b @ c) lo hi = Some b"
  by (simp add: go_slice_def word_le_nat_alt)

end
