(* ===== verification/BatchCodec.thy ===== *)
theory BatchCodec
  imports Bytes
begin

text \<open>
  The format of batch data: a batch of the current format is a sequence of L2 blocks, each a
  header and transactions (\<open>state/encoding_batch_v2.go\<close>); the older format and forced batches
  are sequences of transactions (\<open>state/helper.go\<close>, \<open>state/transaction.go\<close>).

  Recursive length prefix (RLP) coding comes from a library. It is an argument of the functions:
  \<open>rlp_enc\<close> codes a list of byte strings, \<open>rlp_dec\<close> decodes one. So is \<open>chain_id\<close>, which the
  library derives from the signature value of a transaction. Only legacy transactions occur.
\<close>

unbundle bit_operations_syntax

section \<open>Data\<close>

record LegacyTx =
  tx_Nonce :: uint64
  tx_GasPrice :: bigint
  tx_Gas :: uint64
  tx_To :: "address option"
  tx_Value :: bigint
  tx_Data :: "byte list"
  tx_V :: bigint
  tx_R :: bigint
  tx_S :: bigint

record L2TxRaw =
  Tx :: LegacyTx
  EfficiencyPercentage :: byte

record L2BlockRaw =
  DeltaTimestamp :: uint32
  IndexL1InfoTree :: uint32
  Transactions :: "L2TxRaw list"

type_synonym BatchRawV2 = "L2BlockRaw list"

datatype codec_error =
    ErrBatchV2DontStartWithChangeL2Block
  | ErrInvalidBatchV2
  | ErrInvalidRLP
  | ErrInvalidData
  | ErrTxTypeNotSupported
  | ErrRlpDecode
  | ErrHexLength

definition changeL2Block :: byte where
  "changeL2Block = 11"

section \<open>Encoding\<close>

definition IsPreEIP155Tx :: "(bigint \<Rightarrow> bigint) \<Rightarrow> LegacyTx \<Rightarrow> bool" where
  "IsPreEIP155Tx chain_id tx \<longleftrightarrow>
     (word_of_int (chain_id (tx_V tx)) :: uint64) = 0 \<and>
     ((word_of_int (tx_V tx) :: uint64) = 27 \<or> (word_of_int (tx_V tx) :: uint64) = 28)"

definition address_bytes :: "address option \<Rightarrow> byte list" where
  "address_bytes a = (case a of None \<Rightarrow> [] | Some w \<Rightarrow>
     map (\<lambda>i. word_of_int (uint w div 256 ^ i)) (rev [0..<20]))"

definition tx_fields :: "(bigint \<Rightarrow> bigint) \<Rightarrow> LegacyTx \<Rightarrow> byte list list" where
  "tx_fields chain_id tx =
     [bytes_of (uint (tx_Nonce tx)), bytes_of (tx_GasPrice tx), bytes_of (uint (tx_Gas tx)),
      address_bytes (tx_To tx), bytes_of (tx_Value tx), tx_Data tx] @
     (if IsPreEIP155Tx chain_id tx then [] else [bytes_of (chain_id (tx_V tx)), [], []])"

definition prepareRPLTxData ::
    "(byte list list \<Rightarrow> byte list) \<Rightarrow> (bigint \<Rightarrow> bigint) \<Rightarrow> LegacyTx \<Rightarrow> codec_error + byte list" where
  "prepareRPLTxData rlp_enc chain_id tx =
     (let sign = 1 - (tx_V tx mod 2);
          newV = 27 + sign
      in case unhex (hex_pad 64 (tx_R tx) @ hex_pad 64 (tx_S tx) @ hex_pad 2 newV) of
           None \<Rightarrow> Inl ErrHexLength
         | Some bs \<Rightarrow> Inr (rlp_enc (tx_fields chain_id tx) @ bs))"

definition serializeUint32 :: "uint32 \<Rightarrow> byte list" where
  "serializeUint32 v = [ucast (drop_bit 24 v), ucast (drop_bit 16 v), ucast (drop_bit 8 v), ucast v]"

definition EncodeBlockHeaderV2 :: "byte list \<Rightarrow> L2BlockRaw \<Rightarrow> byte list" where
  "EncodeBlockHeaderV2 batchData block =
     batchData @ [changeL2Block] @ serializeUint32 (DeltaTimestamp block) @ serializeUint32 (IndexL1InfoTree block)"

text \<open>The sequencer builds the same bytes (\<open>pgstatestorage/batch.go\<close>).\<close>

definition BuildChangeL2Block :: "uint32 \<Rightarrow> uint32 \<Rightarrow> byte list" where
  "BuildChangeL2Block deltaTimestamp l1InfoTreeIndex =
     [11] @ serializeUint32 deltaTimestamp @ serializeUint32 l1InfoTreeIndex"

definition encodeTxRLP ::
    "(byte list list \<Rightarrow> byte list) \<Rightarrow> (bigint \<Rightarrow> bigint) \<Rightarrow> byte list \<Rightarrow> L2TxRaw \<Rightarrow> codec_error + byte list" where
  "encodeTxRLP rlp_enc chain_id batchData tx =
     (case prepareRPLTxData rlp_enc chain_id (Tx tx) of
        Inl e \<Rightarrow> Inl e
      | Inr d \<Rightarrow> Inr (batchData @ d @ [EfficiencyPercentage tx]))"

fun encode_txs ::
    "(byte list list \<Rightarrow> byte list) \<Rightarrow> (bigint \<Rightarrow> bigint) \<Rightarrow> byte list \<Rightarrow> L2TxRaw list \<Rightarrow> codec_error + byte list" where
  "encode_txs rlp_enc chain_id batchData [] = Inr batchData"
| "encode_txs rlp_enc chain_id batchData (tx # txs) =
     (case encodeTxRLP rlp_enc chain_id batchData tx of
        Inl e \<Rightarrow> Inl e
      | Inr d \<Rightarrow> encode_txs rlp_enc chain_id d txs)"

fun encode_blocks ::
    "(byte list list \<Rightarrow> byte list) \<Rightarrow> (bigint \<Rightarrow> bigint) \<Rightarrow> byte list \<Rightarrow> L2BlockRaw list \<Rightarrow> codec_error + byte list" where
  "encode_blocks rlp_enc chain_id batchData [] = Inr batchData"
| "encode_blocks rlp_enc chain_id batchData (b # bs) =
     (case encode_txs rlp_enc chain_id (EncodeBlockHeaderV2 batchData b) (Transactions b) of
        Inl e \<Rightarrow> Inl e
      | Inr d \<Rightarrow> encode_blocks rlp_enc chain_id d bs)"

definition EncodeBatchV2 ::
    "(byte list list \<Rightarrow> byte list) \<Rightarrow> (bigint \<Rightarrow> bigint) \<Rightarrow> BatchRawV2 option \<Rightarrow> codec_error + byte list" where
  "EncodeBatchV2 rlp_enc chain_id batch =
     (case batch of
        None \<Rightarrow> Inl ErrInvalidBatchV2
      | Some [] \<Rightarrow> Inl ErrInvalidBatchV2
      | Some blocks \<Rightarrow> encode_blocks rlp_enc chain_id [] blocks)"

section \<open>Decoding\<close>

text \<open>\<open>None\<close> is a panic: an index or a slice out of range.\<close>

definition deserializeUint32 :: "byte list \<Rightarrow> nat \<Rightarrow> (codec_error + nat \<times> uint32) option" where
  "deserializeUint32 txsData pos =
     (if int (length txsData) - int pos < 4 then Some (Inl ErrInvalidBatchV2)
      else Some (Inr (pos + 4,
        push_bit 24 (ucast (txsData ! pos)) OR push_bit 16 (ucast (txsData ! (pos + 1))) OR
        push_bit 8 (ucast (txsData ! (pos + 2))) OR ucast (txsData ! (pos + 3)))))"

definition decodeBlockHeader :: "byte list \<Rightarrow> nat \<Rightarrow> (codec_error + nat \<times> L2BlockRaw) option" where
  "decodeBlockHeader txsData pos =
     Option.bind (deserializeUint32 txsData pos) (\<lambda>r1.
       case r1 of
         Inl e \<Rightarrow> Some (Inl e)
       | Inr (pos, delta) \<Rightarrow>
           Option.bind (deserializeUint32 txsData pos) (\<lambda>r2.
             case r2 of
               Inl e \<Rightarrow> Some (Inl e)
             | Inr (pos, idx) \<Rightarrow>
                 Some (Inr (pos, \<lparr>DeltaTimestamp = delta, IndexL1InfoTree = idx, Transactions = []\<rparr>))))"

text \<open>The number of bytes of the RLP list at an offset, its header included.\<close>

definition decodeRLPListLengthFromOffset :: "byte list \<Rightarrow> nat \<Rightarrow> (codec_error + uint64) option" where
  "decodeRLPListLengthFromOffset txsData offset =
     (if length txsData \<le> offset then None
      else
        let txDataLength = word_of_nat (length txsData) :: uint64;
            num = ucast (txsData ! offset) :: uint64
        in if num < 192 then Some (Inl ErrInvalidRLP)
           else if num - 192 > 55 then
             let pos64 = word_of_nat offset; k = num - 247
             in if pos64 + 1 + k > txDataLength then Some (Inl ErrInvalidRLP)
                else Option.bind (go_slice txsData (pos64 + 1) (pos64 + 1 + k))
                       (\<lambda>bs. Some (Inr (word_of_int (be_val bs) + num - 247 + 1)))
           else Some (Inr (num - 192 + 1)))"

definition bytes_to_address :: "byte list \<Rightarrow> address" where
  "bytes_to_address bs = word_of_int (be_val bs)"

definition RlpFieldsToLegacyTx :: "byte list list \<Rightarrow> byte list \<Rightarrow> byte list \<Rightarrow> byte list \<Rightarrow> codec_error + LegacyTx" where
  "RlpFieldsToLegacyTx flds v r s =
     (if length flds < 6 then Inl ErrTxTypeNotSupported
      else Inr \<lparr>tx_Nonce = word_of_int (be_val (flds ! 0)), tx_GasPrice = be_val (flds ! 1),
                tx_Gas = word_of_int (be_val (flds ! 2)),
                tx_To = (if flds ! 3 = [] then None else Some (bytes_to_address (flds ! 3))),
                tx_Value = be_val (flds ! 4), tx_Data = flds ! 5,
                tx_V = (if length flds \<ge> 7 then (be_val v - 27) + (be_val (flds ! 6) * 2 + 35) else be_val v),
                tx_R = be_val r, tx_S = be_val s\<rparr>)"

text \<open>
  The slices of a transaction: its RLP part, the values R and S of 32 bytes, the byte V and the
  byte of the effective percentage.
\<close>

definition tx_slices :: "byte list \<Rightarrow> uint64 \<Rightarrow> uint64 \<Rightarrow> (byte list \<times> byte list \<times> byte list \<times> byte list \<times> byte) option" where
  "tx_slices txsData dataStart off = do {
     txInfo \<leftarrow> go_slice txsData off dataStart;
     rData \<leftarrow> go_slice txsData dataStart (dataStart + 32);
     sData \<leftarrow> go_slice txsData (dataStart + 32) (dataStart + 64);
     vData \<leftarrow> go_slice txsData (dataStart + 64) (dataStart + 65);
     pct \<leftarrow> go_slice txsData (dataStart + 65) (dataStart + 66);
     Some (txInfo, rData, sData, vData, hd pct)
   }"

definition decode_fields ::
    "(byte list \<Rightarrow> byte list list option) \<Rightarrow> byte list \<times> byte list \<times> byte list \<times> byte list \<times> byte \<Rightarrow> codec_error + L2TxRaw" where
  "decode_fields rlp_dec = (\<lambda>(txInfo, rData, sData, vData, pct).
     case rlp_dec txInfo of
       None \<Rightarrow> Inl ErrRlpDecode
     | Some rlpFields \<Rightarrow>
         (case RlpFieldsToLegacyTx rlpFields vData rData sData of
            Inl e \<Rightarrow> Inl e
          | Inr legacyTx \<Rightarrow> Inr \<lparr>Tx = legacyTx, EfficiencyPercentage = pct\<rparr>))"

definition decode_at ::
    "(byte list \<Rightarrow> byte list list option) \<Rightarrow> byte list \<Rightarrow> uint64 \<Rightarrow> uint64 \<Rightarrow> (codec_error + nat \<times> L2TxRaw) option" where
  "decode_at rlp_dec txsData off len =
     (let endPos = off + len + 66; dataStart = off + len
      in if endPos > word_of_nat (length txsData) then Some (Inl ErrInvalidBatchV2)
         else do {
           fullDataTx \<leftarrow> go_slice txsData off endPos;
           parts \<leftarrow> tx_slices txsData dataStart off;
           Some (case decode_fields rlp_dec parts of Inl e \<Rightarrow> Inl e | Inr tx \<Rightarrow> Inr (unat endPos, tx))
         })"

definition decodeTxRLP ::
    "(byte list \<Rightarrow> byte list list option) \<Rightarrow> byte list \<Rightarrow> nat \<Rightarrow> (codec_error + nat \<times> L2TxRaw) option" where
  "decodeTxRLP rlp_dec txsData offset =
     (case decodeRLPListLengthFromOffset txsData offset of
        None \<Rightarrow> None
      | Some (Inl e) \<Rightarrow> Some (Inl e)
      | Some (Inr len) \<Rightarrow> decode_at rlp_dec txsData (word_of_nat offset) len)"

text \<open>A transaction that is decoded ends behind its offset: this is why the loops end.\<close>

lemma go_slice_bounds: "go_slice xs lo hi = Some ys \<Longrightarrow> unat lo \<le> unat hi \<and> unat hi \<le> length xs"
  by (auto simp: go_slice_def word_le_nat_alt split: if_splits)

lemma unat_plus_small:
  fixes a b :: uint64
  assumes "unat a + unat b < 2 ^ 64"
  shows "unat (a + b) = unat a + unat b"
  using assms by (simp add: unat_plus_if')

lemma decode_at_progress:
  assumes "decode_at rlp_dec d off len = Some (Inr (pos', tx))" and "length d < 2 ^ 63"
  shows "unat off < pos'" and "pos' \<le> length d"
proof -
  obtain full parts where s: "go_slice d off (off + len + 66) = Some full" "tx_slices d (off + len) off = Some parts"
    "(case decode_fields rlp_dec parts of Inl e \<Rightarrow> Inl e | Inr tx \<Rightarrow> Inr (unat (off + len + 66), tx)) = Inr (pos', tx)"
    using assms(1) unfolding decode_at_def Let_def by (simp add: bind_eq_Some_conv split: if_splits) blast
  then have e: "pos' = unat (off + len + 66)" by (simp split: sum.splits)
  have "unat off \<le> unat (off + len)" "unat (off + len) \<le> length d"
    using s(2) go_slice_bounds [of d off "off + len"] by (auto simp: tx_slices_def bind_eq_Some_conv)
  moreover have "unat (off + len + 66) = unat (off + len) + 66"
    using unat_plus_small [of "off + len" 66] calculation(2) assms(2) by simp
  ultimately show "unat off < pos'" using e by simp
  show "pos' \<le> length d" using go_slice_bounds [OF s(1)] e by simp
qed

lemma decodeTxRLP_progress:
  assumes "decodeTxRLP rlp_dec d pos = Some (Inr (pos', tx))" and "length d < 2 ^ 63"
  shows "pos < pos' \<and> pos' \<le> length d"
proof -
  obtain len where len: "decodeRLPListLengthFromOffset d pos = Some (Inr len)"
    and at: "decode_at rlp_dec d (word_of_nat pos) len = Some (Inr (pos', tx))"
    using assms(1) unfolding decodeTxRLP_def by (simp split: option.splits sum.splits)
  have "pos < length d" using len by (auto simp: decodeRLPListLengthFromOffset_def split: if_splits)
  then have "unat (word_of_nat pos :: uint64) = pos" using assms(2) by (simp add: unat_of_nat take_bit_nat_eq_self)
  then show ?thesis using decode_at_progress [OF at assms(2)] by simp
qed

lemma decodeBlockHeader_progress:
  "decodeBlockHeader d pos = Some (Inr (pos', b)) \<Longrightarrow> pos < pos' \<and> pos' \<le> length d"
  by (auto simp: decodeBlockHeader_def deserializeUint32_def split: if_splits)

text \<open>
  The loop of \<open>DecodeBatchV2\<close>: the position, the blocks that are complete and the current one.
  A byte array has fewer than \<open>2 ^ 63\<close> bytes in Go.
\<close>

function decode_loop ::
    "(byte list \<Rightarrow> byte list list option) \<Rightarrow> byte list \<Rightarrow> nat \<Rightarrow> L2BlockRaw list \<Rightarrow> L2BlockRaw option \<Rightarrow>
     (codec_error + BatchRawV2) option" where
  "decode_loop rlp_dec d pos blocks cur =
     (if 2 ^ 63 \<le> length d then None
      else if length d \<le> pos then Some (Inr (blocks @ (case cur of None \<Rightarrow> [] | Some b \<Rightarrow> [b])))
      else if d ! pos = changeL2Block then
        (case decodeBlockHeader d (pos + 1) of
           None \<Rightarrow> None
         | Some (Inl e) \<Rightarrow> Some (Inl e)
         | Some (Inr (pos', b)) \<Rightarrow>
             decode_loop rlp_dec d pos' (blocks @ (case cur of None \<Rightarrow> [] | Some b \<Rightarrow> [b])) (Some b))
      else
        (case cur of
           None \<Rightarrow>
             (case decodeTxRLP rlp_dec d pos of
                None \<Rightarrow> None
              | Some (Inl _) \<Rightarrow> Some (Inl ErrInvalidBatchV2)
              | Some (Inr _) \<Rightarrow> Some (Inl ErrBatchV2DontStartWithChangeL2Block))
         | Some b \<Rightarrow>
             (case decodeTxRLP rlp_dec d pos of
                None \<Rightarrow> None
              | Some (Inl e) \<Rightarrow> Some (Inl e)
              | Some (Inr (pos', tx)) \<Rightarrow>
                  decode_loop rlp_dec d pos' blocks (Some (b\<lparr>Transactions := Transactions b @ [tx]\<rparr>)))))"
  by pat_completeness auto
termination
  by (relation "measure (\<lambda>(_, d, pos, _, _). length d - pos)")
    (auto dest!: decodeTxRLP_progress decodeBlockHeader_progress)

declare decode_loop.simps [simp del]

definition DecodeBatchV2 :: "(byte list \<Rightarrow> byte list list option) \<Rightarrow> byte list \<Rightarrow> (codec_error + BatchRawV2) option" where
  "DecodeBatchV2 rlp_dec txsData = decode_loop rlp_dec txsData 0 [] None"

section \<open>The format without blocks\<close>

definition FORKID_DRAGONFRUIT :: uint64 where "FORKID_DRAGONFRUIT = 5"
definition FORKID_ETROG :: uint64 where "FORKID_ETROG = 7"

text \<open>
  The length of the RLP part without its first byte. \<open>Inl None\<close>: the function returns at once
  without an error, \<open>Inl (Some e)\<close>: with the error \<open>e\<close>.
\<close>

definition txs_length :: "byte list \<Rightarrow> uint64 \<Rightarrow> (codec_error option + uint64) option" where
  "txs_length txsData pos =
     (let txDataLength = word_of_nat (length txsData) :: uint64
      in Option.bind (go_slice txsData pos (pos + 1)) (\<lambda>h.
           let num = ucast (hd h) :: uint64
           in if num < 192 then Some (Inl (Some ErrInvalidData))
              else if num - 192 > 55 then
                (if pos + 1 + num - 247 > txDataLength then Some (Inl None)
                 else Option.bind (go_slice txsData (pos + 1) (pos + 1 + num - 247)) (\<lambda>bs.
                        let n = word_of_int (be_val bs)
                        in if n + num < 247 then Some (Inl (Some ErrInvalidData)) else Some (Inr (n + num - 247))))
              else Some (Inr (num - 192))))"

definition txs_parts :: "byte list \<Rightarrow> uint64 \<Rightarrow> uint64 \<Rightarrow> uint64 \<Rightarrow> uint64 \<Rightarrow>
    (byte list \<times> byte list \<times> byte list \<times> byte list \<times> byte list) option" where
  "txs_parts txsData forkID pos dataStart endPos = do {
     fullDataTx \<leftarrow> go_slice txsData pos endPos;
     txInfo \<leftarrow> go_slice txsData pos dataStart;
     rData \<leftarrow> go_slice txsData dataStart (dataStart + 32);
     sData \<leftarrow> go_slice txsData (dataStart + 32) (dataStart + 64);
     vData \<leftarrow> go_slice txsData (dataStart + 64) (dataStart + 65);
     pct \<leftarrow> (if forkID \<ge> FORKID_DRAGONFRUIT then go_slice txsData (dataStart + 65) endPos else Some []);
     (if forkID \<ge> FORKID_DRAGONFRUIT \<and> pct = [] then None
      else Some (txInfo, rData, sData, vData, take 1 pct))
   }"

definition txs_fields :: "(byte list \<Rightarrow> byte list list option) \<Rightarrow>
    byte list \<times> byte list \<times> byte list \<times> byte list \<times> byte list \<Rightarrow> codec_error + LegacyTx" where
  "txs_fields rlp_dec = (\<lambda>(txInfo, rData, sData, vData, pct).
     case rlp_dec txInfo of
       None \<Rightarrow> Inl ErrInvalidData
     | Some rlpFields \<Rightarrow> RlpFieldsToLegacyTx rlpFields vData rData sData)"

definition txs_end :: "uint64 \<Rightarrow> uint64 \<Rightarrow> uint64 \<Rightarrow> uint64" where
  "txs_end forkID pos len = pos + len + 66 + (if forkID \<ge> FORKID_DRAGONFRUIT then 1 else 0)"

definition decode_one :: "(byte list \<Rightarrow> byte list list option) \<Rightarrow> byte list \<Rightarrow> uint64 \<Rightarrow> uint64 \<Rightarrow>
    (codec_error option + uint64 \<times> LegacyTx \<times> byte list) option" where
  "decode_one rlp_dec txsData forkID pos =
     (case txs_length txsData pos of
        None \<Rightarrow> None
      | Some (Inl e) \<Rightarrow> Some (Inl e)
      | Some (Inr len) \<Rightarrow>
          (let endPos = txs_end forkID pos len
           in if endPos > word_of_nat (length txsData) then Some (Inl (Some ErrInvalidData))
              else if endPos < pos then Some (Inl (Some ErrInvalidData))
              else case txs_parts txsData forkID pos (pos + len + 1) endPos of
                None \<Rightarrow> None
              | Some parts \<Rightarrow>
                  (case txs_fields rlp_dec parts of
                     Inl e \<Rightarrow> Some (Inl (Some e))
                   | Inr tx \<Rightarrow> Some (Inr (endPos, tx, snd (snd (snd (snd parts))))))))"

lemma decode_one_progress:
  assumes "decode_one rlp_dec d forkID pos = Some (Inr (pos', tx, pct))" and "length d < 2 ^ 63"
  shows "unat pos < unat pos'"
proof -
  obtain len parts where len: "pos' = txs_end forkID pos len" "pos \<le> pos'"
    and parts: "txs_parts d forkID pos (pos + len + 1) pos' = Some parts"
    using assms(1) unfolding decode_one_def Let_def
    by (simp split: option.splits sum.splits if_splits) (auto simp: not_less)
  have "go_slice d pos (pos + len + 1) \<noteq> None" "go_slice d (pos + len + 1) (pos + len + 1 + 32) \<noteq> None"
    using parts by (auto simp: txs_parts_def bind_eq_Some_conv)
  then have b: "unat pos \<le> unat (pos + len + 1)" "unat (pos + len + 1) \<le> length d"
    using go_slice_bounds by blast+
  have "pos' = pos + len + 1 + (if forkID \<ge> FORKID_DRAGONFRUIT then 66 else 65)"
    using len(1) by (simp add: txs_end_def)
  then have "unat pos' = unat (pos + len + 1) + (if forkID \<ge> FORKID_DRAGONFRUIT then 66 else 65)"
    using unat_plus_small [of "pos + len + 1" "if forkID \<ge> FORKID_DRAGONFRUIT then 66 else 65"] b(2) assms(2) by auto
  then show ?thesis using b(1) by (simp split: if_splits)
qed

lemma unat_uint64: "unat (w :: uint64) < 2 ^ 64"
proof -
  have "unat w < 2 ^ LENGTH(64)" by (rule unsigned_less)
  then show ?thesis by simp
qed

function decode_txs_loop :: "(byte list \<Rightarrow> byte list list option) \<Rightarrow> byte list \<Rightarrow> uint64 \<Rightarrow> uint64 \<Rightarrow>
    LegacyTx list \<Rightarrow> byte list \<Rightarrow> (codec_error + LegacyTx list \<times> byte list) option" where
  "decode_txs_loop rlp_dec d forkID pos txs pcts =
     (if 2 ^ 63 \<le> length d then None
      else if word_of_nat (length d) \<le> pos then Some (Inr (txs, pcts))
      else case decode_one rlp_dec d forkID pos of
        None \<Rightarrow> None
      | Some (Inl None) \<Rightarrow> Some (Inr ([], []))
      | Some (Inl (Some e)) \<Rightarrow> Some (Inl e)
      | Some (Inr (pos', tx, pct)) \<Rightarrow> decode_txs_loop rlp_dec d forkID pos' (txs @ [tx]) (pcts @ pct))"
  by pat_completeness auto
termination
  by (relation "measure (\<lambda>(_, _, _, pos, _, _). 2 ^ 64 - unat pos)")
    (auto dest!: decode_one_progress intro!: diff_less_mono2 intro: less_trans [OF _ unat_uint64 [simplified]])

declare decode_txs_loop.simps [simp del]

definition DecodeTxs :: "(byte list \<Rightarrow> byte list list option) \<Rightarrow> byte list \<Rightarrow> uint64 \<Rightarrow>
    (codec_error + LegacyTx list \<times> byte list) option" where
  "DecodeTxs rlp_dec txsData forkID = decode_txs_loop rlp_dec txsData forkID 0 [] []"

definition DecodeForcedBatchV2 :: "(byte list \<Rightarrow> byte list list option) \<Rightarrow> byte list \<Rightarrow> (codec_error + L2TxRaw list) option" where
  "DecodeForcedBatchV2 rlp_dec txsData =
     (case DecodeTxs rlp_dec txsData FORKID_ETROG of
        None \<Rightarrow> None
      | Some (Inl e) \<Rightarrow> Some (Inl e)
      | Some (Inr (txs, pcts)) \<Rightarrow>
          if length pcts \<noteq> length txs then Some (Inl ErrInvalidRLP)
          else Some (Inr (map (\<lambda>(tx, p). \<lparr>Tx = tx, EfficiencyPercentage = p\<rparr>) (zip txs pcts))))"

fun encode_transactions :: "(byte list list \<Rightarrow> byte list) \<Rightarrow> (bigint \<Rightarrow> bigint) \<Rightarrow> uint64 \<Rightarrow> byte list \<Rightarrow>
    LegacyTx list \<Rightarrow> byte list \<Rightarrow> (codec_error + byte list) option" where
  "encode_transactions rlp_enc chain_id forkID d [] pcts = Some (Inr d)"
| "encode_transactions rlp_enc chain_id forkID d (tx # txs) pcts =
     (case prepareRPLTxData rlp_enc chain_id tx of
        Inl e \<Rightarrow> Some (Inl e)
      | Inr txData \<Rightarrow>
          if forkID \<ge> FORKID_DRAGONFRUIT then
            (case pcts of
               [] \<Rightarrow> None
             | p # ps \<Rightarrow> encode_transactions rlp_enc chain_id forkID (d @ txData @ [p]) txs ps)
          else encode_transactions rlp_enc chain_id forkID (d @ txData) txs (tl pcts))"

definition EncodeTransactions :: "(byte list list \<Rightarrow> byte list) \<Rightarrow> (bigint \<Rightarrow> bigint) \<Rightarrow> LegacyTx list \<Rightarrow> byte list \<Rightarrow>
    uint64 \<Rightarrow> (codec_error + byte list) option" where
  "EncodeTransactions rlp_enc chain_id txs pcts forkID = encode_transactions rlp_enc chain_id forkID [] txs pcts"

definition EncodeTransaction :: "(byte list list \<Rightarrow> byte list) \<Rightarrow> (bigint \<Rightarrow> bigint) \<Rightarrow> LegacyTx \<Rightarrow> byte \<Rightarrow>
    uint64 \<Rightarrow> (codec_error + byte list) option" where
  "EncodeTransaction rlp_enc chain_id tx pct forkID = EncodeTransactions rlp_enc chain_id [tx] [pct] forkID"

end
