(* ===== verification/BatchCodecProofs.thy ===== *)
theory BatchCodecProofs
  imports BatchCodec
begin

text \<open>What is encoded is decoded again, for both formats of batch data.\<close>

section \<open>What the library guarantees\<close>

text \<open>
  RLP: decoding inverts encoding, and the encoding of a list starts with its length: in the first
  byte when the content is short, otherwise in the bytes that follow.
\<close>

definition rlp_ok :: "(byte list list \<Rightarrow> byte list) \<Rightarrow> (byte list \<Rightarrow> byte list list option) \<Rightarrow> bool" where
  "rlp_ok enc dec \<longleftrightarrow> (\<forall>fs. length (enc fs) < 2 ^ 63 \<longrightarrow>
     dec (enc fs) = Some fs \<and>
     (\<exists>payload. if length payload \<le> 55 then enc fs = word_of_nat (192 + length payload) # payload
        else let lb = bytes_of (int (length payload)) in enc fs = word_of_nat (247 + length lb) # lb @ payload))"

text \<open>The chain identifier is part of the signature value of a protected transaction.\<close>

definition chain_ok :: "(bigint \<Rightarrow> bigint) \<Rightarrow> bool" where
  "chain_ok chain_id \<longleftrightarrow> chain_id 27 = 0 \<and> chain_id 28 = 0 \<and>
     (\<forall>c \<ge> 0. chain_id (35 + 2 * c) = c \<and> chain_id (36 + 2 * c) = c)"

lemma chain_id_protected: "chain_ok cid \<Longrightarrow> 0 \<le> c \<Longrightarrow> p = 0 \<or> p = 1 \<Longrightarrow> cid (35 + 2 * c + p) = c"
  by (auto simp: chain_ok_def)

definition tx_ok :: "LegacyTx \<Rightarrow> bool" where
  "tx_ok tx \<longleftrightarrow> 0 \<le> tx_GasPrice tx \<and> 0 \<le> tx_Value tx \<and>
     0 \<le> tx_R tx \<and> tx_R tx < 2 ^ 256 \<and> 0 \<le> tx_S tx \<and> tx_S tx < 2 ^ 256 \<and>
     (tx_V tx = 27 \<or> tx_V tx = 28 \<or> 35 \<le> tx_V tx)"

lemma tx_ok_V:
  assumes "tx_ok tx" and "tx_V tx \<noteq> 27" "tx_V tx \<noteq> 28"
  obtains c p where "0 \<le> c" "p = 0 \<or> p = 1" "tx_V tx = 35 + 2 * c + p"
proof -
  have "35 \<le> tx_V tx" using assms by (auto simp: tx_ok_def)
  then have "0 \<le> (tx_V tx - 35) div 2" "tx_V tx = 35 + 2 * ((tx_V tx - 35) div 2) + (tx_V tx - 35) mod 2" by simp_all
  moreover have "(tx_V tx - 35) mod 2 = 0 \<or> (tx_V tx - 35) mod 2 = 1" by auto
  ultimately show ?thesis by (intro that)
qed

section \<open>Parts of a transaction\<close>

lemma be_val_digits: "be_val (map (\<lambda>i. word_of_int (x div 256 ^ i)) (rev [0..<n])) = x mod 256 ^ n"
proof (induction n)
  case (Suc n)
  have "uint (word_of_int (x div 256 ^ n) :: byte) = x div 256 ^ n mod 256" by (simp add: uint_word_of_int take_bit_eq_mod)
  then show ?case using Suc zmod_zmult2_eq [of 256 x "256 ^ n"] by (simp add: mult.commute)
qed simp

lemma address_round_trip:
  "(if address_bytes a = [] then None else Some (bytes_to_address (address_bytes a))) = a"
proof (cases a)
  case (Some w)
  have "be_val (address_bytes a) = uint w mod 256 ^ 20" unfolding Some address_bytes_def option.case by (rule be_val_digits)
  also have "\<dots> = uint w" using uint_bounded [of w] by simp
  finally have "bytes_to_address (address_bytes a) = w" by (simp add: bytes_to_address_def)
  moreover have "address_bytes a \<noteq> []" by (simp add: Some address_bytes_def)
  ultimately show ?thesis by (simp add: Some)
qed (simp add: address_bytes_def)

lemma word_bytes [simp]: "word_of_int (be_val (bytes_of (uint w))) = (w :: uint64)"
  by simp

lemma signature_bytes:
  assumes "tx_ok tx"
  obtains r s v where "prepareRPLTxData enc cid tx = Inr (enc (tx_fields cid tx) @ r @ s @ [v])"
    "length r = 32" "length s = 32" "be_val r = tx_R tx" "be_val s = tx_S tx" "uint v = 28 - tx_V tx mod 2"
proof -
  have R: "0 \<le> tx_R tx" "tx_R tx < 16 ^ 64" and S: "0 \<le> tx_S tx" "tx_S tx < 16 ^ 64"
    using assms by (simp_all add: tx_ok_def)
  have V: "0 \<le> 27 + (1 - tx_V tx mod 2)" "27 + (1 - tx_V tx mod 2) < 16 ^ 2" by simp_all
  note pr = hex_pad_props [OF R] and ps = hex_pad_props [OF S] and pv = hex_pad_props [OF V]
  obtain r where r: "unhex (hex_pad 64 (tx_R tx)) = Some r" "length r = 32" "be_val r = tx_R tx"
    using unhex_props [of "hex_pad 64 (tx_R tx)"] pr by auto
  obtain s where s: "unhex (hex_pad 64 (tx_S tx)) = Some s" "length s = 32" "be_val s = tx_S tx"
    using unhex_props [of "hex_pad 64 (tx_S tx)"] ps by auto
  obtain vs where "unhex (hex_pad 2 (27 + (1 - tx_V tx mod 2))) = Some vs" "length vs = 1" "be_val vs = 27 + (1 - tx_V tx mod 2)"
    using unhex_props [of "hex_pad 2 (27 + (1 - tx_V tx mod 2))"] pv by auto
  then obtain v where v: "unhex (hex_pad 2 (27 + (1 - tx_V tx mod 2))) = Some [v]" "uint v = 28 - tx_V tx mod 2"
    by (cases vs) auto
  have "prepareRPLTxData enc cid tx = Inr (enc (tx_fields cid tx) @ r @ s @ [v])"
    unfolding prepareRPLTxData_def Let_def unhex_append [OF r(1) unhex_append [OF s(1) v(1)]] by simp
  then show ?thesis using that r s v by blast
qed

lemma pre155_iff:
  assumes "tx_ok tx" and "chain_ok cid"
  shows "IsPreEIP155Tx cid tx \<longleftrightarrow> tx_V tx = 27 \<or> tx_V tx = 28"
proof (cases "tx_V tx = 27 \<or> tx_V tx = 28")
  case False
  then obtain c p where c: "0 \<le> c" "p = 0 \<or> p = 1" "tx_V tx = 35 + 2 * c + p" using tx_ok_V [OF assms(1)] by blast
  have cid: "cid (tx_V tx) = c" unfolding c(3) by (rule chain_id_protected [OF assms(2) c(1,2)])
  have "\<not> IsPreEIP155Tx cid tx"
  proof
    assume pre: "IsPreEIP155Tx cid tx"
    then have "(word_of_int c :: uint64) = 0" by (simp add: IsPreEIP155Tx_def cid)
    then have "(word_of_int (tx_V tx) :: uint64) = 35 + word_of_int p" by (simp add: c(3))
    then show False using pre c(2) by (auto simp: IsPreEIP155Tx_def)
  qed
  then show ?thesis using False by simp
qed (use assms(2) in \<open>auto simp: IsPreEIP155Tx_def chain_ok_def\<close>)

lemma fields_round_trip:
  assumes "tx_ok tx" and "chain_ok cid"
    and "be_val r = tx_R tx" "be_val s = tx_S tx" "be_val v = 28 - tx_V tx mod 2"
  shows "RlpFieldsToLegacyTx (tx_fields cid tx) v r s = Inr tx"
proof (cases "tx_V tx = 27 \<or> tx_V tx = 28")
  case True
  then have "IsPreEIP155Tx cid tx" using pre155_iff [OF assms(1,2)] by simp
  then have fs: "tx_fields cid tx = [bytes_of (uint (tx_Nonce tx)), bytes_of (tx_GasPrice tx), bytes_of (uint (tx_Gas tx)),
      address_bytes (tx_To tx), bytes_of (tx_Value tx), tx_Data tx]"
    by (simp add: tx_fields_def)
  have to: "tx_fields cid tx ! 3 = address_bytes (tx_To tx)" by (simp add: fs)
  have "28 - tx_V tx mod 2 = tx_V tx" using True by auto
  then show ?thesis
    using assms(1,3-5) unfolding RlpFieldsToLegacyTx_def to address_round_trip unfolding fs tx_ok_def by simp
next
  case False
  then have "\<not> IsPreEIP155Tx cid tx" using pre155_iff [OF assms(1,2)] by simp
  then have fs: "tx_fields cid tx = [bytes_of (uint (tx_Nonce tx)), bytes_of (tx_GasPrice tx), bytes_of (uint (tx_Gas tx)),
      address_bytes (tx_To tx), bytes_of (tx_Value tx), tx_Data tx, bytes_of (cid (tx_V tx)), [], []]"
    by (simp add: tx_fields_def)
  obtain c p where c: "0 \<le> c" "p = 0 \<or> p = 1" "tx_V tx = 35 + 2 * c + p"
    by (rule tx_ok_V [OF assms(1)]) (use False in auto)
  have cid: "cid (tx_V tx) = c" unfolding c(3) by (rule chain_id_protected [OF assms(2) c(1,2)])
  have "(35 + 2 * c + p) mod 2 = 1 - p" using c(2) by auto
  then have V: "be_val v - 27 + (c * 2 + 35) = tx_V tx" using c(3) assms(5) by simp
  have to: "tx_fields cid tx ! 3 = address_bytes (tx_To tx)" by (simp add: fs)
  show ?thesis
    using assms(1,3,4) c(1) V unfolding RlpFieldsToLegacyTx_def to address_round_trip unfolding fs tx_ok_def cid by simp
qed

section \<open>Finding the parts\<close>

lemma unat_nat64: "n < 2 ^ 64 \<Longrightarrow> unat (word_of_nat n :: uint64) = n"
  by (simp add: unat_of_nat take_bit_nat_eq_self)

lemma nat64_not_less: "m \<le> n \<Longrightarrow> n < 2 ^ 63 \<Longrightarrow> \<not> (word_of_nat n :: uint64) < word_of_nat m"
  by (simp add: word_less_nat_alt unat_nat64)

lemma nat64_not_le: "m < n \<Longrightarrow> n < 2 ^ 63 \<Longrightarrow> \<not> (word_of_nat n :: uint64) \<le> word_of_nat m"
  by (simp add: word_le_nat_alt unat_nat64)

lemma ucast_byte: "n < 256 \<Longrightarrow> (ucast (word_of_nat n :: byte) :: uint64) = word_of_nat n"
  by (simp add: unsigned_ucast_eq unsigned_of_nat take_bit_nat_eq_self word_eq_iff_unsigned)

lemma length_bytes:
  assumes "55 < n" and "n < 2 ^ 63"
  shows "1 \<le> length (bytes_of (int n))" "length (bytes_of (int n)) \<le> 8"
proof -
  show "length (bytes_of (int n)) \<le> 8" using assms by (intro bytes_of_length) simp_all
  have "bytes_of (int n) \<noteq> []" using assms(1) by (simp add: bytes_of.simps)
  then show "1 \<le> length (bytes_of (int n))" by (cases "bytes_of (int n)") simp_all
qed

lemma slice_word:
  assumes "length (a @ b @ c) < 2 ^ 63"
  shows "go_slice (a @ b @ c) (word_of_nat (length a)) (word_of_nat (length a + length b)) = Some b"
  using assms by (intro go_slice_Some) (simp_all add: unat_nat64 del: of_nat_add)

text \<open>A short list has its length in the first byte.\<close>

lemma short_length:
  assumes n: "length payload = n" "n \<le> 55" and len: "length (pre @ (word_of_nat (192 + n) # payload) @ rest) < 2 ^ 63"
  shows "decodeRLPListLengthFromOffset (pre @ (word_of_nat (192 + n) # payload) @ rest) (length pre) = Some (Inr (word_of_nat (n + 1)))"
    and "txs_length (pre @ (word_of_nat (192 + n) # payload) @ rest) (word_of_nat (length pre)) = Some (Inr (word_of_nat n))"
proof -
  let ?x = "word_of_nat (192 + n) :: byte"
  have num: "(ucast ?x :: uint64) = word_of_nat (192 + n)" using n by (intro ucast_byte) simp
  have c1: "\<not> (word_of_nat (192 + n) :: uint64) < 192"
    using n by (simp add: word_less_nat_alt unat_nat64 del: of_nat_add)
  have c2: "word_of_nat (192 + n) - 192 = (word_of_nat n :: uint64)" by simp
  have c3: "\<not> 55 < (word_of_nat n :: uint64)" using n by (simp add: word_less_nat_alt unat_nat64)
  have sl: "go_slice (pre @ (?x # payload) @ rest) (word_of_nat (length pre)) (word_of_nat (length pre) + 1) = Some [?x]"
    using slice_word [of pre "[?x]" "payload @ rest"] len by (simp del: of_nat_add add: of_nat_add [where 'a = "64 word"] add.commute)
  have hd1: "(pre @ (?x # payload) @ rest) ! length pre = ?x" by (simp add: nth_append)
  show "decodeRLPListLengthFromOffset (pre @ (?x # payload) @ rest) (length pre) = Some (Inr (word_of_nat (n + 1)))"
    unfolding decodeRLPListLengthFromOffset_def Let_def hd1 num c2 using c1 c3 by simp
  show "txs_length (pre @ (?x # payload) @ rest) (word_of_nat (length pre)) = Some (Inr (word_of_nat n))"
    unfolding txs_length_def Let_def sl Option.bind.bind_lunit list.sel num c2 using c1 c3 by simp
qed

text \<open>A long list has the number of bytes of its length in the first byte.\<close>

lemma long_length:
  assumes n: "length payload = n" "55 < n" and lb: "lb = bytes_of (int n)"
    and len: "length (pre @ (word_of_nat (247 + length lb) # lb @ payload) @ rest) < 2 ^ 63"
  shows "decodeRLPListLengthFromOffset (pre @ (word_of_nat (247 + length lb) # lb @ payload) @ rest) (length pre) =
      Some (Inr (word_of_nat (n + length lb + 1)))"
    and "txs_length (pre @ (word_of_nat (247 + length lb) # lb @ payload) @ rest) (word_of_nat (length pre)) =
      Some (Inr (word_of_nat (n + length lb)))"
proof -
  let ?k = "length lb"
  let ?x = "word_of_nat (247 + ?k) :: byte"
  let ?d = "pre @ (?x # lb @ payload) @ rest"
  have k: "1 \<le> ?k" "?k \<le> 8" using length_bytes [of n] n len unfolding lb by auto
  have num: "(ucast ?x :: uint64) = word_of_nat (247 + ?k)" using k by (intro ucast_byte) simp
  have c1: "\<not> (word_of_nat (247 + ?k) :: uint64) < 192"
    using k by (simp add: word_less_nat_alt unat_nat64 del: of_nat_add)
  have c2: "word_of_nat (247 + ?k) - 192 = (word_of_nat (55 + ?k) :: uint64)"
    "word_of_nat (247 + ?k) - 247 = (word_of_nat ?k :: uint64)" by simp_all
  have c3: "55 < (word_of_nat (55 + ?k) :: uint64)" using k by (auto simp: word_less_nat_alt unat_nat64 simp del: of_nat_add)
  have c4: "\<not> (word_of_nat (length pre) + 1 + word_of_nat ?k :: uint64) > word_of_nat (length ?d)"
  proof -
    have e: "word_of_nat (length pre) + 1 + word_of_nat ?k = (word_of_nat (length pre + 1 + ?k) :: uint64)" by simp
    show ?thesis unfolding e by (rule nat64_not_less) (use len in simp_all)
  qed
  have c5: "word_of_nat (length pre) + 1 + word_of_nat (247 + ?k) - 247 = (word_of_nat (length pre) + 1 + word_of_nat ?k :: uint64)"
    by simp
  have hd1: "?d ! length pre = ?x" by (simp add: nth_append)
  have sl: "go_slice ?d (word_of_nat (length pre)) (word_of_nat (length pre) + 1) = Some [?x]"
    using slice_word [of pre "[?x]" "lb @ payload @ rest"] len by (simp add: add.commute)
  have sl2: "go_slice ?d (word_of_nat (length pre) + 1) (word_of_nat (length pre) + 1 + word_of_nat ?k) = Some lb"
    using slice_word [of "pre @ [?x]" lb "payload @ rest"] len by (simp add: ac_simps)
  have val: "be_val lb = int n" unfolding lb by simp
  have c6: "\<not> (word_of_int (int n) + word_of_nat (247 + ?k) :: uint64) < 247"
  proof -
    have "word_of_int (int n) + word_of_nat (247 + ?k) = (word_of_nat (n + (247 + ?k)) :: uint64)" by simp
    moreover have "n + (247 + ?k) < 2 ^ 64" using len n k by simp
    ultimately show ?thesis by (simp add: word_less_nat_alt unat_nat64 del: of_nat_add)
  qed
  show "decodeRLPListLengthFromOffset ?d (length pre) = Some (Inr (word_of_nat (n + ?k + 1)))"
    unfolding decodeRLPListLengthFromOffset_def Let_def hd1 num c2 sl2 Option.bind.bind_lunit val using c1 c3 c4 by simp
  show "txs_length ?d (word_of_nat (length pre)) = Some (Inr (word_of_nat (n + ?k)))"
    unfolding txs_length_def Let_def sl Option.bind.bind_lunit list.sel num c2 c5 sl2 val using c1 c3 c4 c6 by simp
qed

lemma rlp_head:
  assumes "rlp_ok enc dec" and len: "length (pre @ enc fs @ rest) < 2 ^ 63"
  shows "decodeRLPListLengthFromOffset (pre @ enc fs @ rest) (length pre) = Some (Inr (word_of_nat (length (enc fs))))"
    and "txs_length (pre @ enc fs @ rest) (word_of_nat (length pre)) = Some (Inr (word_of_nat (length (enc fs) - 1)))"
    and "enc fs \<noteq> []" and "hd (enc fs) \<noteq> changeL2Block" and "dec (enc fs) = Some fs"
proof -
  have e: "length (enc fs) < 2 ^ 63" using len by simp
  then show "dec (enc fs) = Some fs" using assms(1) by (simp add: rlp_ok_def)
  have "\<exists>payload. if length payload \<le> 55 then enc fs = word_of_nat (192 + length payload) # payload
      else let lb = bytes_of (int (length payload)) in enc fs = word_of_nat (247 + length lb) # lb @ payload"
    using assms(1) e unfolding rlp_ok_def by blast
  then obtain payload where pl: "if length payload \<le> 55 then enc fs = word_of_nat (192 + length payload) # payload
      else let lb = bytes_of (int (length payload)) in enc fs = word_of_nat (247 + length lb) # lb @ payload" by blast
  have ch: "word_of_nat m \<noteq> changeL2Block" if "192 \<le> m" "m < 256" for m
  proof -
    have "unat (word_of_nat m :: byte) = m" using that by (simp add: unat_of_nat take_bit_nat_eq_self)
    then show ?thesis using that by (auto simp: changeL2Block_def)
  qed
  have "decodeRLPListLengthFromOffset (pre @ enc fs @ rest) (length pre) = Some (Inr (word_of_nat (length (enc fs)))) \<and>
    txs_length (pre @ enc fs @ rest) (word_of_nat (length pre)) = Some (Inr (word_of_nat (length (enc fs) - 1))) \<and>
    enc fs \<noteq> [] \<and> hd (enc fs) \<noteq> changeL2Block"
  proof (cases "length payload \<le> 55")
    case True
    then have f: "enc fs = word_of_nat (192 + length payload) # payload" using pl by simp
    show ?thesis
      using short_length [OF refl True, of pre rest] len ch [of "192 + length payload"] True unfolding f
      by (simp del: of_nat_add)
  next
    case False
    define lb where "lb = bytes_of (int (length payload))"
    have f: "enc fs = word_of_nat (247 + length lb) # lb @ payload" using pl False by (simp add: lb_def Let_def)
    have "length lb \<le> 8" using length_bytes(2) [of "length payload"] False e by (simp add: lb_def f)
    then show ?thesis
      using long_length [OF refl _ lb_def, of pre rest] False len ch [of "247 + length lb"] unfolding f
      by (simp add: add.commute del: of_nat_add)
  qed
  then show "decodeRLPListLengthFromOffset (pre @ enc fs @ rest) (length pre) = Some (Inr (word_of_nat (length (enc fs))))"
    "txs_length (pre @ enc fs @ rest) (word_of_nat (length pre)) = Some (Inr (word_of_nat (length (enc fs) - 1)))"
    "enc fs \<noteq> []" "hd (enc fs) \<noteq> changeL2Block" by blast+
qed

section \<open>One transaction\<close>

lemma slices_of:
  assumes "length (a @ b @ r @ s @ [v] @ [p] @ c) < 2 ^ 63" and "length r = 32" "length s = 32"
  defines "d \<equiv> a @ b @ r @ s @ [v] @ [p] @ c" and "ds \<equiv> word_of_nat (length a + length b) :: uint64"
  shows "go_slice d (word_of_nat (length a)) ds = Some b" "go_slice d ds (ds + 32) = Some r"
    "go_slice d (ds + 32) (ds + 64) = Some s" "go_slice d (ds + 64) (ds + 65) = Some [v]"
    "go_slice d (ds + 65) (ds + 66) = Some [p]"
proof -
  have w: "ds + 32 = word_of_nat (length (a @ b) + length r)" "ds + 64 = word_of_nat (length (a @ b @ r) + length s)"
    "ds + 65 = word_of_nat (length (a @ b @ r @ s) + length [v])" "ds + 66 = word_of_nat (length (a @ b @ r @ s @ [v]) + length [p])"
    "ds + 32 = word_of_nat (length (a @ b @ r))" "ds + 64 = word_of_nat (length (a @ b @ r @ s))"
    "ds + 65 = word_of_nat (length (a @ b @ r @ s @ [v]))" "ds = word_of_nat (length (a @ b))"
    using assms(2,3) by (simp_all add: ds_def)
  show "go_slice d (word_of_nat (length a)) ds = Some b"
    unfolding ds_def d_def using assms(1) by (intro slice_word) simp
  show "go_slice d ds (ds + 32) = Some r"
    unfolding w(1) unfolding w(8) d_def using slice_word [of "a @ b" r "s @ [v] @ [p] @ c"] assms(1) by simp
  show "go_slice d (ds + 32) (ds + 64) = Some s"
    unfolding w(2,5) d_def using slice_word [of "a @ b @ r" s "[v] @ [p] @ c"] assms(1) by simp
  show "go_slice d (ds + 64) (ds + 65) = Some [v]"
    unfolding w(3,6) d_def using slice_word [of "a @ b @ r @ s" "[v]" "[p] @ c"] assms(1) by simp
  show "go_slice d (ds + 65) (ds + 66) = Some [p]"
    unfolding w(4,7) d_def using slice_word [of "a @ b @ r @ s @ [v]" "[p]" c] assms(1) by simp
qed

lemma decodeTxRLP_parts:
  assumes ok: "rlp_ok enc dec" and l63: "length (pre @ enc f @ r @ s @ [v] @ [p] @ rest) < 2 ^ 63"
    and rs: "length r = 32" "length s = 32" and tx: "RlpFieldsToLegacyTx f [v] r s = Inr tx"
  shows "decodeTxRLP dec (pre @ enc f @ r @ s @ [v] @ [p] @ rest) (length pre) =
    Some (Inr (length pre + length (enc f) + 66, \<lparr>Tx = tx, EfficiencyPercentage = p\<rparr>))"
proof -
  let ?d = "pre @ enc f @ r @ s @ [v] @ [p] @ rest"
  let ?e = "length (enc f)"
  note hd = rlp_head [OF ok l63]
  note sl = slices_of [OF l63 rs]
  have ds: "word_of_nat (length pre) + word_of_nat ?e = (word_of_nat (length pre + ?e) :: uint64)" by simp
  have ends: "word_of_nat (length pre + ?e) + 66 = (word_of_nat (length pre + ?e + 66) :: uint64)" by simp
  have fits: "\<not> (word_of_nat (length ?d) :: uint64) < word_of_nat (length pre + ?e + 66)"
    by (rule nat64_not_less) (use l63 rs in simp_all)
  have full: "go_slice ?d (word_of_nat (length pre)) (word_of_nat (length pre + ?e + 66)) = Some (enc f @ r @ s @ [v] @ [p])"
    using slice_word [of pre "enc f @ r @ s @ [v] @ [p]" rest] l63 rs by (simp add: add.assoc)
  have end_nat: "unat (word_of_nat (length pre + ?e + 66) :: uint64) = length pre + ?e + 66"
    using l63 rs by (intro unat_nat64) simp
  have parts: "tx_slices ?d (word_of_nat (length pre + ?e)) (word_of_nat (length pre)) = Some (enc f, r, s, [v], p)"
    unfolding tx_slices_def sl by simp
  have flds: "decode_fields dec (enc f, r, s, [v], p) = Inr \<lparr>Tx = tx, EfficiencyPercentage = p\<rparr>"
    using hd(5) by (simp add: decode_fields_def tx)
  show ?thesis
    unfolding decodeTxRLP_def hd(1) option.case sum.case decode_at_def Let_def ds ends full parts
      Option.bind.bind_lunit flds end_nat
    using fits by (simp del: of_nat_add)
qed

lemma decode_one_parts:
  assumes ok: "rlp_ok enc dec" and l63: "length (pre @ enc f @ r @ s @ [v] @ [p] @ rest) < 2 ^ 63"
    and rs: "length r = 32" "length s = 32" and tx: "RlpFieldsToLegacyTx f [v] r s = Inr tx"
  shows "decode_one dec (pre @ enc f @ r @ s @ [v] @ [p] @ rest) FORKID_ETROG (word_of_nat (length pre)) =
    Some (Inr (word_of_nat (length pre + length (enc f) + 66), tx, [p]))"
proof -
  let ?d = "pre @ enc f @ r @ s @ [v] @ [p] @ rest"
  let ?e = "length (enc f)"
  note hd = rlp_head [OF ok l63]
  note sl = slices_of [OF l63 rs]
  note fork = FORKID_ETROG_def FORKID_DRAGONFRUIT_def
  have e1: "word_of_nat (?e - 1) + 1 = (word_of_nat ?e :: uint64)" using hd(3) by (cases "enc f") simp_all
  have ds: "word_of_nat (length pre) + word_of_nat (?e - 1) + 1 = (word_of_nat (length pre + ?e) :: uint64)"
    using e1 by (simp add: add.assoc)
  have ends': "word_of_nat (length pre + ?e) + 66 = (word_of_nat (length pre + ?e + 66) :: uint64)" by simp
  have "txs_end FORKID_ETROG (word_of_nat (length pre)) (word_of_nat (?e - 1)) =
      word_of_nat (length pre) + (word_of_nat (?e - 1) + 1) + 66"
    by (simp add: txs_end_def fork)
  then have ends: "txs_end FORKID_ETROG (word_of_nat (length pre)) (word_of_nat (?e - 1)) = (word_of_nat (length pre + ?e + 66) :: uint64)"
    unfolding e1 by simp
  have fits: "\<not> (word_of_nat (length ?d) :: uint64) < word_of_nat (length pre + ?e + 66)"
    "\<not> (word_of_nat (length pre + ?e + 66) :: uint64) < word_of_nat (length pre)"
    by (rule nat64_not_less; use l63 rs in simp)+
  have full: "go_slice ?d (word_of_nat (length pre)) (word_of_nat (length pre + ?e + 66)) = Some (enc f @ r @ s @ [v] @ [p])"
    using slice_word [of pre "enc f @ r @ s @ [v] @ [p]" rest] l63 rs by (simp add: add.assoc)
  have parts: "txs_parts ?d FORKID_ETROG (word_of_nat (length pre)) (word_of_nat (length pre + ?e))
      (word_of_nat (length pre + ?e + 66)) = Some (enc f, r, s, [v], [p])"
    unfolding txs_parts_def full sl(1-4) sl(5) [unfolded ends'] by (simp add: fork)
  have flds: "txs_fields dec (enc f, r, s, [v], [p]) = Inr tx" using hd(5) by (simp add: txs_fields_def tx)
  show ?thesis
    unfolding decode_one_def hd(2) option.case sum.case Let_def ends ds parts flds
    using fits by (simp del: of_nat_add)
qed

text \<open>
  The bytes of a transaction: they decode to it wherever they stand, and do not start with the
  byte that marks a block.
\<close>

definition decodes_to :: "(byte list \<Rightarrow> byte list list option) \<Rightarrow> byte list \<Rightarrow> LegacyTx \<Rightarrow> bool" where
  "decodes_to dec b tx \<longleftrightarrow> (\<forall>pre p rest. length (pre @ b @ [p] @ rest) < 2 ^ 63 \<longrightarrow>
     b \<noteq> [] \<and> hd b \<noteq> changeL2Block \<and>
     decodeTxRLP dec (pre @ b @ [p] @ rest) (length pre) =
       Some (Inr (length pre + length b + 1, \<lparr>Tx = tx, EfficiencyPercentage = p\<rparr>)) \<and>
     decode_one dec (pre @ b @ [p] @ rest) FORKID_ETROG (word_of_nat (length pre)) =
       Some (Inr (word_of_nat (length pre + length b + 1), tx, [p])))"

lemma tx_round_trip:
  assumes "rlp_ok enc dec" "chain_ok cid" "tx_ok tx"
  obtains b where "prepareRPLTxData enc cid tx = Inr b" "decodes_to dec b tx"
proof -
  let ?f = "tx_fields cid tx"
  obtain r s v where sig: "prepareRPLTxData enc cid tx = Inr (enc ?f @ r @ s @ [v])" "length r = 32" "length s = 32"
    "be_val r = tx_R tx" "be_val s = tx_S tx" "uint v = 28 - tx_V tx mod 2"
    using signature_bytes [OF assms(3)] by metis
  have tx: "RlpFieldsToLegacyTx ?f [v] r s = Inr tx"
    by (rule fields_round_trip [OF assms(3,2) sig(4,5)]) (simp add: sig(6))
  have "decodes_to dec (enc ?f @ r @ s @ [v]) tx"
    unfolding decodes_to_def
  proof (intro allI impI)
    fix pre p rest assume "length (pre @ (enc ?f @ r @ s @ [v]) @ [p] @ rest) < 2 ^ 63"
    then have l63: "length (pre @ enc ?f @ r @ s @ [v] @ [p] @ rest) < 2 ^ 63" by simp
    have d: "pre @ (enc ?f @ r @ s @ [v]) @ [p] @ rest = pre @ enc ?f @ r @ s @ [v] @ [p] @ rest" by simp
    have e: "length pre + length (enc ?f @ r @ s @ [v]) + 1 = length pre + length (enc ?f) + 66" using sig(2,3) by simp
    show "enc ?f @ r @ s @ [v] \<noteq> [] \<and> hd (enc ?f @ r @ s @ [v]) \<noteq> changeL2Block \<and>
     decodeTxRLP dec (pre @ (enc ?f @ r @ s @ [v]) @ [p] @ rest) (length pre) =
       Some (Inr (length pre + length (enc ?f @ r @ s @ [v]) + 1, \<lparr>Tx = tx, EfficiencyPercentage = p\<rparr>)) \<and>
     decode_one dec (pre @ (enc ?f @ r @ s @ [v]) @ [p] @ rest) FORKID_ETROG (word_of_nat (length pre)) =
       Some (Inr (word_of_nat (length pre + length (enc ?f @ r @ s @ [v]) + 1), tx, [p]))"
      unfolding d e decodeTxRLP_parts [OF assms(1) l63 sig(2,3) tx] decode_one_parts [OF assms(1) l63 sig(2,3) tx]
      using rlp_head(3,4) [OF assms(1) l63] by simp
  qed
  then show ?thesis using sig(1) that by blast
qed

section \<open>Batches\<close>

text \<open>Encoding only appends.\<close>

fun tx_bytes :: "(byte list list \<Rightarrow> byte list) \<Rightarrow> (bigint \<Rightarrow> bigint) \<Rightarrow> L2TxRaw list \<Rightarrow> byte list option" where
  "tx_bytes enc cid [] = Some []"
| "tx_bytes enc cid (tx # txs) =
     (case (prepareRPLTxData enc cid (Tx tx), tx_bytes enc cid txs) of
        (Inr b, Some bs) \<Rightarrow> Some (b @ [EfficiencyPercentage tx] @ bs) | _ \<Rightarrow> None)"

lemma encode_txs_bytes: "tx_bytes enc cid txs = Some bs \<Longrightarrow> encode_txs enc cid d txs = Inr (d @ bs)"
  by (induction txs arbitrary: d bs) (auto simp: encodeTxRLP_def split: sum.splits option.splits)

lemma decode_loop_txs:
  assumes ok: "rlp_ok enc dec" "chain_ok cid"
    and len: "length (pre @ bs @ rest) < 2 ^ 63" and txs: "list_all (\<lambda>t. tx_ok (Tx t)) txs" "tx_bytes enc cid txs = Some bs"
  shows "decode_loop dec (pre @ bs @ rest) (length pre) blocks (Some blk) =
    decode_loop dec (pre @ bs @ rest) (length (pre @ bs)) blocks (Some (blk\<lparr>Transactions := Transactions blk @ txs\<rparr>))"
  using len txs
proof (induction txs arbitrary: pre bs blk)
  case (Cons t txs)
  obtain b where b: "prepareRPLTxData enc cid (Tx t) = Inr b" "decodes_to dec b (Tx t)"
    using tx_round_trip [OF ok, of "Tx t"] Cons.prems(2) by auto
  obtain bs' where bs': "tx_bytes enc cid txs = Some bs'" "bs = b @ [EfficiencyPercentage t] @ bs'"
    using Cons.prems(3) b(1) by (auto split: option.splits)
  let ?p = "EfficiencyPercentage t"
  have len: "length (pre @ b @ [?p] @ (bs' @ rest)) < 2 ^ 63" using Cons.prems(1) bs'(2) by simp
  have d: "b \<noteq> []" "hd b \<noteq> changeL2Block" "decodeTxRLP dec (pre @ b @ [?p] @ (bs' @ rest)) (length pre) =
       Some (Inr (length pre + length b + 1, \<lparr>Tx = Tx t, EfficiencyPercentage = ?p\<rparr>))"
    using b(2) len unfolding decodes_to_def by blast+
  have t: "\<lparr>Tx = Tx t, EfficiencyPercentage = ?p\<rparr> = t" by (cases t) simp
  have h: "(pre @ b @ [?p] @ (bs' @ rest)) ! length pre \<noteq> changeL2Block" using d(1,2) by (simp add: nth_append hd_conv_nth)
  have "decode_loop dec (pre @ b @ [?p] @ (bs' @ rest)) (length pre) blocks (Some blk) =
    decode_loop dec (pre @ b @ [?p] @ (bs' @ rest)) (length pre + length b + 1) blocks
      (Some (blk\<lparr>Transactions := Transactions blk @ [t]\<rparr>))"
    using len by (subst decode_loop.simps) (use h d t in simp)
  also have "\<dots> = decode_loop dec (pre @ b @ [?p] @ (bs' @ rest)) (length (pre @ b @ [?p] @ bs')) blocks
      (Some (blk\<lparr>Transactions := Transactions blk @ t # txs\<rparr>))"
    using Cons.IH [of "pre @ b @ [?p]" bs' "blk\<lparr>Transactions := Transactions blk @ [t]\<rparr>"] len Cons.prems(2) bs'(1) by simp
  finally show ?case by (simp add: bs'(2))
qed simp

lemma uint32_round_trip: "deserializeUint32 (pre @ serializeUint32 v @ rest) (length pre) = Some (Inr (length pre + 4, v))"
proof -
  let ?w = "push_bit 24 (ucast (ucast (drop_bit 24 v) :: byte)) OR push_bit 16 (ucast (ucast (drop_bit 16 v) :: byte)) OR
    push_bit 8 (ucast (ucast (drop_bit 8 v) :: byte)) OR ucast (ucast v :: byte) :: uint32"
  have "?w = v"
  proof (rule bit_word_eqI)
    fix n assume "n < LENGTH(32)"
    then consider "n < 8" | "8 \<le> n" "n < 16" | "16 \<le> n" "n < 24" | "24 \<le> n" "n < 32" by fastforce
    then show "bit ?w n = bit v n"
      by cases (auto simp: bit_simps)
  qed
  then show ?thesis by (simp add: deserializeUint32_def serializeUint32_def nth_append)
qed

lemma header_round_trip:
  "decodeBlockHeader (pre @ serializeUint32 (DeltaTimestamp b) @ serializeUint32 (IndexL1InfoTree b) @ rest) (length pre) =
    Some (Inr (length pre + 8, b\<lparr>Transactions := []\<rparr>))"
proof -
  have l: "length (serializeUint32 v) = 4" for v by (simp add: serializeUint32_def)
  have "decodeBlockHeader (pre @ serializeUint32 (DeltaTimestamp b) @ serializeUint32 (IndexL1InfoTree b) @ rest) (length pre) =
    Some (Inr (length pre + 8, \<lparr>DeltaTimestamp = DeltaTimestamp b, IndexL1InfoTree = IndexL1InfoTree b, Transactions = []\<rparr>))"
    unfolding decodeBlockHeader_def uint32_round_trip
    using uint32_round_trip [of "pre @ serializeUint32 (DeltaTimestamp b)" "IndexL1InfoTree b" rest] by (simp add: l)
  then show ?thesis by (cases b) simp
qed

fun block_bytes :: "(byte list list \<Rightarrow> byte list) \<Rightarrow> (bigint \<Rightarrow> bigint) \<Rightarrow> L2BlockRaw list \<Rightarrow> byte list option" where
  "block_bytes enc cid [] = Some []"
| "block_bytes enc cid (b # bs) =
     (case (tx_bytes enc cid (Transactions b), block_bytes enc cid bs) of
        (Some x, Some y) \<Rightarrow> Some (EncodeBlockHeaderV2 [] b @ x @ y) | _ \<Rightarrow> None)"

lemma encode_blocks_bytes: "block_bytes enc cid bs = Some x \<Longrightarrow> encode_blocks enc cid d bs = Inr (d @ x)"
proof (induction bs arbitrary: d x)
  case (Cons b bs)
  then obtain y z where "tx_bytes enc cid (Transactions b) = Some y" "block_bytes enc cid bs = Some z"
    "x = EncodeBlockHeaderV2 [] b @ y @ z" by (auto split: option.splits)
  then show ?case using Cons.IH encode_txs_bytes by (simp add: EncodeBlockHeaderV2_def)
qed simp

definition block_ok :: "L2BlockRaw \<Rightarrow> bool" where
  "block_ok b \<longleftrightarrow> list_all (\<lambda>t. tx_ok (Tx t)) (Transactions b)"

lemma tx_bytes_Some:
  assumes "rlp_ok enc dec" "chain_ok cid" and "list_all (\<lambda>t. tx_ok (Tx t)) txs"
  shows "\<exists>bs. tx_bytes enc cid txs = Some bs"
  using assms(3)
proof (induction txs)
  case (Cons t txs)
  then obtain bs where "tx_bytes enc cid txs = Some bs" by auto
  moreover obtain b where "prepareRPLTxData enc cid (Tx t) = Inr b"
    using tx_round_trip [OF assms(1,2), of "Tx t"] Cons.prems by auto
  ultimately show ?case by simp
qed simp

lemma block_bytes_Some:
  assumes "rlp_ok enc dec" "chain_ok cid" and "list_all block_ok bs"
  shows "\<exists>x. block_bytes enc cid bs = Some x"
  using assms(3)
proof (induction bs)
  case (Cons b bs)
  then obtain x where "block_bytes enc cid bs = Some x" by auto
  moreover obtain y where "tx_bytes enc cid (Transactions b) = Some y"
    using tx_bytes_Some [OF assms(1,2)] Cons.prems by (auto simp: block_ok_def)
  ultimately show ?case by simp
qed simp

lemma decode_loop_blocks:
  assumes ok: "rlp_ok enc dec" "chain_ok cid"
    and "length (pre @ x) < 2 ^ 63" "list_all block_ok bs" "block_bytes enc cid bs = Some x"
  shows "decode_loop dec (pre @ x) (length pre) blocks cur =
    Some (Inr (blocks @ (case cur of None \<Rightarrow> [] | Some b \<Rightarrow> [b]) @ bs))"
  using assms(3-)
proof (induction bs arbitrary: pre x blocks cur)
  case Nil
  then show ?case by (subst decode_loop.simps) simp
next
  case (Cons b bs)
  obtain y z where yz: "tx_bytes enc cid (Transactions b) = Some y" "block_bytes enc cid bs = Some z"
    "x = EncodeBlockHeaderV2 [] b @ y @ z" using Cons.prems(3) by (auto split: option.splits)
  let ?h = "serializeUint32 (DeltaTimestamp b) @ serializeUint32 (IndexL1InfoTree b)"
  let ?pre = "pre @ [changeL2Block] @ ?h"
  let ?blocks = "blocks @ (case cur of None \<Rightarrow> [] | Some b \<Rightarrow> [b])"
  have d: "pre @ x = ?pre @ y @ z" by (simp add: yz(3) EncodeBlockHeaderV2_def)
  have lh: "length ?h = 8" by (simp add: serializeUint32_def)
  have hdr: "decodeBlockHeader (pre @ x) (length pre + 1) = Some (Inr (length ?pre, b\<lparr>Transactions := []\<rparr>))"
    using header_round_trip [of "pre @ [changeL2Block]" b "y @ z"] lh unfolding d by simp
  have mark: "(pre @ x) ! length pre = changeL2Block" "length pre < length (pre @ x)" unfolding d by (simp_all add: nth_append)
  have len: "length (?pre @ y @ z) < 2 ^ 63" using Cons.prems(1) unfolding d by simp
  have txs: "list_all (\<lambda>t. tx_ok (Tx t)) (Transactions b)" using Cons.prems(2) by (simp add: block_ok_def)
  have "decode_loop dec (pre @ x) (length pre) blocks cur = decode_loop dec (pre @ x) (length ?pre) ?blocks (Some (b\<lparr>Transactions := []\<rparr>))"
    using Cons.prems(1) by (subst decode_loop.simps) (use mark hdr in simp)
  also have "\<dots> = decode_loop dec ((?pre @ y) @ z) (length (?pre @ y)) ?blocks (Some b)"
    using decode_loop_txs [OF ok len txs yz(1), of ?blocks "b\<lparr>Transactions := []\<rparr>"] unfolding d by simp
  also have "\<dots> = Some (Inr (?blocks @ [b] @ bs))"
    using Cons.IH [of "?pre @ y" z ?blocks "Some b"] len Cons.prems(2) yz(2) by simp
  finally show ?case by simp
qed

text \<open>The older format.\<close>

lemma encode_transactions_bytes:
  "tx_bytes enc cid txs = Some bs \<Longrightarrow>
     encode_transactions enc cid FORKID_ETROG d (map Tx txs) (map EfficiencyPercentage txs) = Some (Inr (d @ bs))"
proof (induction txs arbitrary: d bs)
  case (Cons t txs)
  then obtain b bs' where "prepareRPLTxData enc cid (Tx t) = Inr b" "tx_bytes enc cid txs = Some bs'"
    "bs = b @ [EfficiencyPercentage t] @ bs'" by (auto split: option.splits sum.splits)
  then show ?case using Cons.IH by (simp add: FORKID_ETROG_def FORKID_DRAGONFRUIT_def)
qed simp

lemma decode_txs_loop_txs:
  assumes ok: "rlp_ok enc dec" "chain_ok cid"
    and "length (pre @ bs) < 2 ^ 63" "list_all (\<lambda>t. tx_ok (Tx t)) txs" "tx_bytes enc cid txs = Some bs"
  shows "decode_txs_loop dec (pre @ bs) FORKID_ETROG (word_of_nat (length pre)) us ps =
    Some (Inr (us @ map Tx txs, ps @ map EfficiencyPercentage txs))"
  using assms(3-)
proof (induction txs arbitrary: pre bs us ps)
  case Nil
  then show ?case by (subst decode_txs_loop.simps) simp
next
  case (Cons t txs)
  obtain b where b: "prepareRPLTxData enc cid (Tx t) = Inr b" "decodes_to dec b (Tx t)"
    using tx_round_trip [OF ok, of "Tx t"] Cons.prems(2) by auto
  obtain bs' where bs': "tx_bytes enc cid txs = Some bs'" "bs = b @ [EfficiencyPercentage t] @ bs'"
    using Cons.prems(3) b(1) by (auto split: option.splits)
  let ?p = "EfficiencyPercentage t"
  have len: "length (pre @ b @ [?p] @ bs') < 2 ^ 63" using Cons.prems(1) bs'(2) by simp
  have d: "decode_one dec (pre @ b @ [?p] @ bs') FORKID_ETROG (word_of_nat (length pre)) =
       Some (Inr (word_of_nat (length (pre @ b @ [?p])), Tx t, [?p]))"
  proof -
    have "length (pre @ b @ [?p]) = length pre + length b + 1" by simp
    then show ?thesis using b(2) len unfolding decodes_to_def by metis
  qed
  have more: "\<not> (word_of_nat (length (pre @ b @ [?p] @ bs')) :: uint64) \<le> word_of_nat (length pre)"
    by (rule nat64_not_le) (use len in simp_all)
  have "decode_txs_loop dec (pre @ b @ [?p] @ bs') FORKID_ETROG (word_of_nat (length pre)) us ps =
    decode_txs_loop dec (pre @ b @ [?p] @ bs') FORKID_ETROG (word_of_nat (length (pre @ b @ [?p]))) (us @ [Tx t]) (ps @ [?p])"
    by (subst decode_txs_loop.simps) (use len more d in \<open>simp del: of_nat_add of_nat_Suc length_append\<close>)
  also have "\<dots> = Some (Inr (us @ map Tx (t # txs), ps @ map EfficiencyPercentage (t # txs)))"
    using Cons.IH [of "pre @ b @ [?p]" bs' "us @ [Tx t]" "ps @ [?p]"] len Cons.prems(2) bs'(1) by simp
  finally show ?case by (simp add: bs'(2))
qed

end
