(* ===== verification/Rlp.thy ===== *)
theory Rlp
  imports BatchCodecProofs
begin

text \<open>
  The recursive length prefix coding of lists of byte strings, as its specification describes it:
  an instance of what the codec assumes of the library.
\<close>

definition rlp_string :: "byte list \<Rightarrow> byte list" where
  "rlp_string b =
     (if length b = 1 \<and> unat (hd b) < 128 then b
      else if length b \<le> 55 then word_of_nat (128 + length b) # b
      else let lb = bytes_of (int (length b)) in word_of_nat (183 + length lb) # lb @ b)"

definition rlp_list :: "byte list list \<Rightarrow> byte list" where
  "rlp_list fs =
     (let p = concat (map rlp_string fs)
      in if length p \<le> 55 then word_of_nat (192 + length p) # p
         else let lb = bytes_of (int (length p)) in word_of_nat (247 + length lb) # lb @ p)"

definition split_at :: "nat \<Rightarrow> byte list \<Rightarrow> (byte list \<times> byte list) option" where
  "split_at n bs = (if length bs < n then None else Some (take n bs, drop n bs))"

fun take_string :: "byte list \<Rightarrow> (byte list \<times> byte list) option" where
  "take_string [] = None"
| "take_string (h # t) =
     (let n = unat h
      in if n < 128 then Some ([h], t)
         else if n \<le> 183 then split_at (n - 128) t
         else if n < 192 then Option.bind (split_at (n - 183) t) (\<lambda>(lb, u). split_at (nat (be_val lb)) u)
         else None)"

text \<open>The first argument bounds the number of strings.\<close>

fun take_strings :: "nat \<Rightarrow> byte list \<Rightarrow> byte list list option" where
  "take_strings n [] = Some []"
| "take_strings 0 (x # xs) = None"
| "take_strings (Suc n) (x # xs) =
     Option.bind (take_string (x # xs)) (\<lambda>(b, rest). map_option ((#) b) (take_strings n rest))"

fun rlp_unlist :: "byte list \<Rightarrow> byte list list option" where
  "rlp_unlist [] = None"
| "rlp_unlist (h # t) =
     (let n = unat h; p = (if n \<le> 247 then t else drop (n - 247) t)
      in if n < 192 then None else take_strings (length p) p)"

lemma unat_byte: "n < 256 \<Longrightarrow> unat (word_of_nat n :: byte) = n"
  by (simp add: unat_of_nat take_bit_nat_eq_self)

lemma split_at_append [simp]: "split_at (length b) (b @ rest) = Some (b, rest)"
  by (simp add: split_at_def)

lemma take_string_rlp:
  assumes "length b < 2 ^ 63"
  shows "take_string (rlp_string b @ rest) = Some (b, rest)"
proof -
  consider (one) "length b = 1" "unat (hd b) < 128" | (short) "\<not> (length b = 1 \<and> unat (hd b) < 128)" "length b \<le> 55"
    | (long) "55 < length b" by linarith
  then show ?thesis
  proof cases
    case one
    then show ?thesis by (cases b) (simp_all add: rlp_string_def)
  next
    case short
    have u: "unat (word_of_nat (128 + length b) :: byte) = 128 + length b" using short(2) by (intro unat_byte) simp
    have "rlp_string b = word_of_nat (128 + length b) # b" using short unfolding rlp_string_def by simp
    then show ?thesis using short(2) by (simp add: Let_def u del: of_nat_add)
  next
    case long
    let ?lb = "bytes_of (int (length b))"
    have k: "1 \<le> length ?lb" "length ?lb \<le> 8" using length_bytes [OF long assms] by simp_all
    have u: "unat (word_of_nat (183 + length ?lb) :: byte) = 183 + length ?lb" using k(2) by (intro unat_byte) simp
    have e: "rlp_string b = word_of_nat (183 + length ?lb) # ?lb @ b" using long unfolding rlp_string_def by (simp add: Let_def)
    have s: "split_at (length ?lb) (?lb @ b @ rest) = Some (?lb, b @ rest)" by (rule split_at_append)
    have nl: "\<not> 183 + length ?lb \<le> 183" "183 + length ?lb < 192" using k by linarith+
    show ?thesis
      unfolding e append_Cons append_assoc take_string.simps Let_def u using nl s by (simp del: append_assoc)
  qed
qed

lemma rlp_string_not_Nil: "length b < 2 ^ 63 \<Longrightarrow> rlp_string b \<noteq> []"
  by (auto simp: rlp_string_def Let_def)

lemma take_strings_rlp:
  "\<forall>b \<in> set fs. length b < 2 ^ 63 \<Longrightarrow> length fs \<le> n \<Longrightarrow> take_strings n (concat (map rlp_string fs)) = Some fs"
proof (induction fs arbitrary: n)
  case (Cons b fs)
  obtain m where n: "n = Suc m" "length fs \<le> m" using Cons.prems(2) by (cases n) auto
  have ne: "rlp_string b \<noteq> []" using rlp_string_not_Nil Cons.prems(1) by simp
  obtain x xs where x: "rlp_string b @ concat (map rlp_string fs) = x # xs"
    using ne by (cases "rlp_string b") auto
  have "take_string (x # xs) = Some (b, concat (map rlp_string fs))"
    unfolding x [symmetric] using take_string_rlp Cons.prems(1) by simp
  then show ?case using Cons.IH [of m] n Cons.prems(1) x by (simp del: take_string.simps)
qed (cases n; simp)

lemma rlp_string_length: "length b \<le> length (rlp_string b)"
  by (auto simp: rlp_string_def Let_def)

lemma concat_lengths:
  assumes "length (concat (map rlp_string fs)) < 2 ^ 63"
  shows "\<forall>b \<in> set fs. length b < 2 ^ 63" and "length fs \<le> length (concat (map rlp_string fs))"
proof -
  show all: "\<forall>b \<in> set fs. length b < 2 ^ 63"
  proof
    fix b assume "b \<in> set fs"
    then have "length (rlp_string b) \<le> length (concat (map rlp_string fs))"
      by (simp add: length_concat comp_def member_le_sum_list)
    then show "length b < 2 ^ 63" using assms rlp_string_length [of b] by linarith
  qed
  show "length fs \<le> length (concat (map rlp_string fs))"
    using all
  proof (induction fs)
    case (Cons b fs)
    then show ?case using rlp_string_not_Nil [of b] by (cases "rlp_string b") auto
  qed simp
qed

lemma rlp_list_shape:
  fixes fs
  defines "p \<equiv> concat (map rlp_string fs)"
  shows "if length p \<le> 55 then rlp_list fs = word_of_nat (192 + length p) # p
     else let lb = bytes_of (int (length p)) in rlp_list fs = word_of_nat (247 + length lb) # lb @ p"
  unfolding p_def by (simp add: rlp_list_def Let_def)

lemma rlp_unlist_list:
  assumes "length (rlp_list fs) < 2 ^ 63"
  shows "rlp_unlist (rlp_list fs) = Some fs"
proof -
  define p where "p = concat (map rlp_string fs)"
  note sh = rlp_list_shape [of fs, folded p_def]
  have p63: "length p < 2 ^ 63" using sh assms by (simp add: Let_def split: if_splits)
  have ts: "take_strings (length p) p = Some fs"
    using take_strings_rlp [of fs "length p"] concat_lengths [of fs] p63 unfolding p_def by blast
  show ?thesis
  proof (cases "length p \<le> 55")
    case True
    have u: "unat (word_of_nat (192 + length p) :: byte) = 192 + length p" using True by (intro unat_byte) simp
    have "rlp_list fs = word_of_nat (192 + length p) # p" using sh True by simp
    then show ?thesis using ts True by (simp add: Let_def u del: of_nat_add)
  next
    case False
    let ?lb = "bytes_of (int (length p))"
    have k: "1 \<le> length ?lb" "length ?lb \<le> 8" using length_bytes [of "length p"] False p63 by simp_all
    have u: "unat (word_of_nat (247 + length ?lb) :: byte) = 247 + length ?lb" using k(2) by (intro unat_byte) simp
    have e: "rlp_list fs = word_of_nat (247 + length ?lb) # ?lb @ p" using sh False by (simp add: Let_def)
    have n: "\<not> 247 + length ?lb \<le> 247" "\<not> 247 + length ?lb < 192" using k by linarith+
    show ?thesis unfolding e rlp_unlist.simps Let_def u using n ts by simp
  qed
qed

lemma rlp_list_ok: "rlp_ok rlp_list rlp_unlist"
  unfolding rlp_ok_def using rlp_unlist_list rlp_list_shape by blast

text \<open>The chain identifier of a signature value.\<close>

definition derive_chain_id :: "bigint \<Rightarrow> bigint" where
  "derive_chain_id v = (if v = 27 \<or> v = 28 then 0 else (v - 35) div 2)"

lemma derive_chain_id_ok: "chain_ok derive_chain_id"
  by (auto simp: chain_ok_def derive_chain_id_def)

end
