(* ===== verification/CodecSpec.thy ===== *)
theory CodecSpec
  imports Rlp
begin

text \<open>The properties of the formats of batch data.\<close>

definition sample_tx :: LegacyTx where
  "sample_tx = \<lparr>tx_Nonce = 3, tx_GasPrice = 1000, tx_Gas = 21000, tx_To = Some 4660, tx_Value = 5, tx_Data = [1, 2],
     tx_V = 2237, tx_R = 77, tx_S = 88\<rparr>"

definition sample_block :: L2BlockRaw where
  "sample_block = \<lparr>DeltaTimestamp = 3, IndexL1InfoTree = 1, Transactions = [\<lparr>Tx = sample_tx, EfficiencyPercentage = 255\<rparr>]\<rparr>"

text \<open>
  C8. A batch of L2 blocks is encoded without an error, and decoding the bytes gives the same
  blocks: timestamps, indexes, transactions with their signatures, percentages, in the same order.
\<close>

theorem batch_round_trip:
  assumes "rlp_ok rlp_enc rlp_dec" and "chain_ok chain_id" and "blocks \<noteq> []" and "list_all block_ok blocks"
  shows "\<exists>d. EncodeBatchV2 rlp_enc chain_id (Some blocks) = Inr d \<and>
     (length d < 2 ^ 63 \<longrightarrow> DecodeBatchV2 rlp_dec d = Some (Inr blocks))"
proof -
  obtain d where d: "block_bytes rlp_enc chain_id blocks = Some d"
    using block_bytes_Some [OF assms(1,2,4)] by blast
  have "EncodeBatchV2 rlp_enc chain_id (Some blocks) = Inr d"
    using encode_blocks_bytes [OF d, of "[]"] assms(3) by (cases blocks) (simp_all add: EncodeBatchV2_def)
  moreover have "DecodeBatchV2 rlp_dec d = Some (Inr blocks)" if "length d < 2 ^ 63"
    using decode_loop_blocks [OF assms(1,2) _ assms(4) d, of "[]" "[]" None] that by (simp add: DecodeBatchV2_def)
  ultimately show ?thesis by blast
qed

theorem batch_round_trip_witness:
  "\<exists>d. EncodeBatchV2 rlp_list derive_chain_id (Some [sample_block]) = Inr d \<and> length d < 2 ^ 63 \<and>
     DecodeBatchV2 rlp_unlist d = Some (Inr [sample_block])"
proof -
  have "block_ok sample_block" by (simp add: block_ok_def sample_block_def sample_tx_def tx_ok_def)
  then obtain d where d: "EncodeBatchV2 rlp_list derive_chain_id (Some [sample_block]) = Inr d"
    "length d < 2 ^ 63 \<longrightarrow> DecodeBatchV2 rlp_unlist d = Some (Inr [sample_block])"
    using batch_round_trip [OF rlp_list_ok derive_chain_id_ok, of "[sample_block]"] by auto
  have "(case EncodeBatchV2 rlp_list derive_chain_id (Some [sample_block]) of Inl e \<Rightarrow> 0 | Inr d \<Rightarrow> length d) = 113"
    by code_simp
  then show ?thesis using d by simp
qed

text \<open>
  C28. The transactions of a forced batch (the format without blocks) come back from
  \<open>DecodeForcedBatchV2\<close> with their percentages as \<open>EncodeTransactions\<close> wrote them.
\<close>

theorem forced_batch_round_trip:
  assumes "rlp_ok rlp_enc rlp_dec" and "chain_ok chain_id" and "list_all (\<lambda>t. tx_ok (Tx t)) txs"
  shows "\<exists>d. EncodeTransactions rlp_enc chain_id (map Tx txs) (map EfficiencyPercentage txs) FORKID_ETROG = Some (Inr d) \<and>
     (length d < 2 ^ 63 \<longrightarrow> DecodeForcedBatchV2 rlp_dec d = Some (Inr txs))"
proof -
  obtain d where d: "tx_bytes rlp_enc chain_id txs = Some d" using tx_bytes_Some [OF assms] by blast
  have tx: "(\<lambda>(tx, p). \<lparr>Tx = tx, EfficiencyPercentage = p\<rparr>) (Tx t, EfficiencyPercentage t) = t" for t by (cases t) simp
  have z: "map (\<lambda>(tx, p). \<lparr>Tx = tx, EfficiencyPercentage = p\<rparr>) (zip (map Tx txs) (map EfficiencyPercentage txs)) = txs"
    using tx by (induction txs) simp_all
  have "DecodeForcedBatchV2 rlp_dec d = Some (Inr txs)" if "length d < 2 ^ 63"
    using decode_txs_loop_txs [OF assms(1,2) _ assms(3) d, of "[]" "[]" "[]"] that z
    by (simp add: DecodeForcedBatchV2_def DecodeTxs_def)
  then show ?thesis using encode_transactions_bytes [OF d, of "[]"] by (auto simp: EncodeTransactions_def)
qed

theorem forced_batch_round_trip_witness:
  "\<exists>d. EncodeTransactions rlp_list derive_chain_id [sample_tx, sample_tx] [255, 128] FORKID_ETROG = Some (Inr d) \<and>
     length d < 2 ^ 63 \<and>
     DecodeForcedBatchV2 rlp_unlist d = Some (Inr [\<lparr>Tx = sample_tx, EfficiencyPercentage = 255\<rparr>, \<lparr>Tx = sample_tx, EfficiencyPercentage = 128\<rparr>])"
proof -
  let ?txs = "[\<lparr>Tx = sample_tx, EfficiencyPercentage = 255\<rparr>, \<lparr>Tx = sample_tx, EfficiencyPercentage = 128\<rparr>]"
  have "list_all (\<lambda>t. tx_ok (Tx t)) ?txs" by (simp add: sample_tx_def tx_ok_def)
  then obtain d where d: "EncodeTransactions rlp_list derive_chain_id [sample_tx, sample_tx] [255, 128] FORKID_ETROG = Some (Inr d)"
    "length d < 2 ^ 63 \<longrightarrow> DecodeForcedBatchV2 rlp_unlist d = Some (Inr ?txs)"
    using forced_batch_round_trip [OF rlp_list_ok derive_chain_id_ok, of ?txs] by auto
  have "(case EncodeTransactions rlp_list derive_chain_id [sample_tx, sample_tx] [255, 128] FORKID_ETROG of
      Some (Inr d) \<Rightarrow> length d | _ \<Rightarrow> 0) = 208"
    by code_simp
  then show ?thesis using d by simp
qed

text \<open>
  C29. Untrusted batch data can stop the node: for these 18 bytes, a block header and the header
  of a list whose length makes the end position wrap around to 0, \<open>DecodeBatchV2\<close> slices out of
  range and panics, whatever the library does.
\<close>

theorem decode_batch_panics:
  "DecodeBatchV2 rlp_dec ([11, 0, 0, 0, 0, 0, 0, 0, 0] @ [255, 255, 255, 255, 255, 255, 255, 255, 172]) = None"
proof -
  let ?d = "[11, 0, 0, 0, 0, 0, 0, 0, 0] @ [255, 255, 255, 255, 255, 255, 255, 255, 172] :: byte list"
  have h: "decodeBlockHeader ?d 1 = Some (Inr (9, \<lparr>DeltaTimestamp = 0, IndexL1InfoTree = 0, Transactions = []\<rparr>))"
    by code_simp
  have l: "decodeRLPListLengthFromOffset ?d 9 = Some (Inr (18446744073709551541))" by code_simp
  have e: "word_of_nat 9 = (9 :: uint64)" "9 + 18446744073709551541 + 66 = (0 :: uint64)" by code_simp+
  have "go_slice ?d 9 0 = None" by code_simp
  then have t: "decodeTxRLP rlp_dec ?d 9 = None"
    unfolding decodeTxRLP_def l option.case sum.case decode_at_def Let_def e by simp
  have s: "length ?d = 18" "?d ! 9 \<noteq> changeL2Block" "?d ! 0 = changeL2Block" by (simp_all add: changeL2Block_def)
  have "decode_loop rlp_dec ?d 9 [] (Some b) = None" for b
    unfolding decode_loop.simps [of rlp_dec ?d 9] s(1) t using s(2) by simp
  then show ?thesis
    unfolding DecodeBatchV2_def decode_loop.simps [of rlp_dec ?d 0] s(1,3) add_0 h by simp
qed

text \<open>
  C30. A truncated length is reported as success: when the data ends inside the length of a long
  list at its start, \<open>DecodeTxs\<close> returns no transactions and a nil error.
\<close>

theorem truncated_length_no_error:
  assumes "248 \<le> b" and "length rest < unat b - 247"
  shows "DecodeTxs rlp_dec (b # rest) forkID = Some (Inr ([], []))"
proof -
  have b: "248 \<le> unat b" "unat b < 256" using assms(1) unsigned_less [of b] by (simp_all add: word_le_nat_alt)
  define n where "n = unat b"
  have num: "ucast b = (word_of_nat n :: uint64)" by (simp add: n_def)
  have n1: "word_of_nat n - 192 = (word_of_nat (n - 192) :: uint64)"
    "0 + 1 + word_of_nat n - 247 = (word_of_nat (n - 246) :: uint64)"
    using b(1) unfolding n_def [symmetric] by (simp_all add: of_nat_diff)
  have c: "\<not> (word_of_nat n :: uint64) < 192" "55 < (word_of_nat (n - 192) :: uint64)"
    "(word_of_nat (length (b # rest)) :: uint64) < word_of_nat (n - 246)"
    using b assms(2) unfolding n_def [symmetric] by (simp_all add: word_less_nat_alt unat_nat64 del: of_nat_Suc of_nat_diff)
  have sl: "go_slice (b # rest) 0 (0 + 1) = Some [b]" by (simp add: go_slice_def)
  have "txs_length (b # rest) 0 = Some (Inl None)"
    unfolding txs_length_def Let_def sl Option.bind.bind_lunit list.sel num n1
    by (simp only: c if_True if_False)
  then have one: "decode_one rlp_dec (b # rest) forkID 0 = Some (Inl None)" by (simp add: decode_one_def)
  have "\<not> (word_of_nat (length (b # rest)) :: uint64) \<le> 0"
    using b(2) assms(2) by (simp add: word_le_nat_alt unat_nat64 del: of_nat_Suc)
  then show ?thesis
    unfolding DecodeTxs_def by (subst decode_txs_loop.simps) (use one b(2) assms(2) in simp)
qed

theorem truncated_length_no_error_witness:
  "length [1 :: byte] < unat (250 :: byte) - 247 \<and> DecodeTxs rlp_unlist [250, 1] FORKID_ETROG = Some (Inr ([], []))"
  using truncated_length_no_error [of 250 "[1]" rlp_unlist FORKID_ETROG] by simp

end
