(* ===== verification/ExecutorErrors.thy ===== *)
theory ExecutorErrors
  imports Prelude
begin

text \<open>
  The errors of the executor (\<open>state/runtime/executor/errors.go\<close>): the codes it sends, the error
  values the node uses for them, the two translations between them, and the predicates that
  classify a code. A code is an integer, so codes the node does not know are values too. An
  error value is a package variable made by \<open>errors.New\<close>, compared by identity: its number is
  its place among these variables. \<open>None\<close> is the absent error.
\<close>

type_synonym errcode = int
datatype sentinel = Sentinel nat
type_synonym go_error = "sentinel option"

section \<open>The error values\<close>

text \<open>The variables of \<open>executor/errors.go\<close> and of \<open>runtime/runtime.go\<close>, in their order.\<close>

abbreviation (input) ErrExecutorUnspecified :: go_error where "ErrExecutorUnspecified \<equiv> Some (Sentinel 0)"
abbreviation (input) ErrROMUnspecified :: go_error where "ErrROMUnspecified \<equiv> Some (Sentinel 1)"
abbreviation (input) ErrExecutorUnknown :: go_error where "ErrExecutorUnknown \<equiv> Some (Sentinel 2)"
abbreviation (input) ErrROMUnknown :: go_error where "ErrROMUnknown \<equiv> Some (Sentinel 3)"
abbreviation (input) ErrOutOfGas :: go_error where "ErrOutOfGas \<equiv> Some (Sentinel 4)"
abbreviation (input) ErrStackOverflow :: go_error where "ErrStackOverflow \<equiv> Some (Sentinel 5)"
abbreviation (input) ErrStackUnderflow :: go_error where "ErrStackUnderflow \<equiv> Some (Sentinel 6)"
abbreviation (input) ErrMaxCodeSizeExceeded :: go_error where "ErrMaxCodeSizeExceeded \<equiv> Some (Sentinel 7)"
abbreviation (input) ErrContractAddressCollision :: go_error where "ErrContractAddressCollision \<equiv> Some (Sentinel 8)"
abbreviation (input) ErrExecutionReverted :: go_error where "ErrExecutionReverted \<equiv> Some (Sentinel 9)"
abbreviation (input) ErrOutOfCountersStep :: go_error where "ErrOutOfCountersStep \<equiv> Some (Sentinel 10)"
abbreviation (input) ErrOutOfCountersKeccak :: go_error where "ErrOutOfCountersKeccak \<equiv> Some (Sentinel 11)"
abbreviation (input) ErrOutOfCountersBinary :: go_error where "ErrOutOfCountersBinary \<equiv> Some (Sentinel 12)"
abbreviation (input) ErrOutOfCountersMemory :: go_error where "ErrOutOfCountersMemory \<equiv> Some (Sentinel 13)"
abbreviation (input) ErrOutOfCountersArith :: go_error where "ErrOutOfCountersArith \<equiv> Some (Sentinel 14)"
abbreviation (input) ErrOutOfCountersPadding :: go_error where "ErrOutOfCountersPadding \<equiv> Some (Sentinel 15)"
abbreviation (input) ErrOutOfCountersPoseidon :: go_error where "ErrOutOfCountersPoseidon \<equiv> Some (Sentinel 16)"
abbreviation (input) ErrOutOfCountersSha :: go_error where "ErrOutOfCountersSha \<equiv> Some (Sentinel 17)"
abbreviation (input) ErrIntrinsicInvalidSignature :: go_error where "ErrIntrinsicInvalidSignature \<equiv> Some (Sentinel 18)"
abbreviation (input) ErrIntrinsicInvalidChainID :: go_error where "ErrIntrinsicInvalidChainID \<equiv> Some (Sentinel 19)"
abbreviation (input) ErrIntrinsicInvalidNonce :: go_error where "ErrIntrinsicInvalidNonce \<equiv> Some (Sentinel 20)"
abbreviation (input) ErrIntrinsicInvalidGasLimit :: go_error where "ErrIntrinsicInvalidGasLimit \<equiv> Some (Sentinel 21)"
abbreviation (input) ErrIntrinsicInvalidBalance :: go_error where "ErrIntrinsicInvalidBalance \<equiv> Some (Sentinel 22)"
abbreviation (input) ErrIntrinsicInvalidBatchGasLimit :: go_error where "ErrIntrinsicInvalidBatchGasLimit \<equiv> Some (Sentinel 23)"
abbreviation (input) ErrIntrinsicInvalidSenderCode :: go_error where "ErrIntrinsicInvalidSenderCode \<equiv> Some (Sentinel 24)"
abbreviation (input) ErrBatchDataTooBig :: go_error where "ErrBatchDataTooBig \<equiv> Some (Sentinel 25)"
abbreviation (input) ErrInvalidJump :: go_error where "ErrInvalidJump \<equiv> Some (Sentinel 26)"
abbreviation (input) ErrInvalidOpCode :: go_error where "ErrInvalidOpCode \<equiv> Some (Sentinel 27)"
abbreviation (input) ErrInvalidStatic :: go_error where "ErrInvalidStatic \<equiv> Some (Sentinel 28)"
abbreviation (input) ErrInvalidByteCodeStartsEF :: go_error where "ErrInvalidByteCodeStartsEF \<equiv> Some (Sentinel 29)"
abbreviation (input) ErrIntrinsicInvalidTxGasOverflow :: go_error where "ErrIntrinsicInvalidTxGasOverflow \<equiv> Some (Sentinel 30)"
abbreviation (input) ErrUnsupportedForkId :: go_error where "ErrUnsupportedForkId \<equiv> Some (Sentinel 31)"
abbreviation (input) ErrInvalidRLP :: go_error where "ErrInvalidRLP \<equiv> Some (Sentinel 32)"
abbreviation (input) ErrInvalidDecodeChangeL2Block :: go_error where "ErrInvalidDecodeChangeL2Block \<equiv> Some (Sentinel 33)"
abbreviation (input) ErrInvalidNotFirstTxChangeL2Block :: go_error where "ErrInvalidNotFirstTxChangeL2Block \<equiv> Some (Sentinel 34)"
abbreviation (input) ErrInvalidTxChangeL2BlockLimitTimestamp :: go_error where "ErrInvalidTxChangeL2BlockLimitTimestamp \<equiv> Some (Sentinel 35)"
abbreviation (input) ErrInvalidTxChangeL2BlockMinTimestamp :: go_error where "ErrInvalidTxChangeL2BlockMinTimestamp \<equiv> Some (Sentinel 36)"
abbreviation (input) ErrExecutorDBError :: go_error where "ErrExecutorDBError \<equiv> Some (Sentinel 37)"
abbreviation (input) ErrExecutorSMMainCountersOverflowSteps :: go_error where "ErrExecutorSMMainCountersOverflowSteps \<equiv> Some (Sentinel 38)"
abbreviation (input) ErrExecutorSMMainCountersOverflowKeccak :: go_error where "ErrExecutorSMMainCountersOverflowKeccak \<equiv> Some (Sentinel 39)"
abbreviation (input) ErrExecutorSMMainCountersOverflowBinary :: go_error where "ErrExecutorSMMainCountersOverflowBinary \<equiv> Some (Sentinel 40)"
abbreviation (input) ErrExecutorSMMainCountersOverflowMem :: go_error where "ErrExecutorSMMainCountersOverflowMem \<equiv> Some (Sentinel 41)"
abbreviation (input) ErrExecutorSMMainCountersOverflowArith :: go_error where "ErrExecutorSMMainCountersOverflowArith \<equiv> Some (Sentinel 42)"
abbreviation (input) ErrExecutorSMMainCountersOverflowPadding :: go_error where "ErrExecutorSMMainCountersOverflowPadding \<equiv> Some (Sentinel 43)"
abbreviation (input) ErrExecutorSMMainCountersOverflowPoseidon :: go_error where "ErrExecutorSMMainCountersOverflowPoseidon \<equiv> Some (Sentinel 44)"
abbreviation (input) ErrExecutorUnsupportedForkId :: go_error where "ErrExecutorUnsupportedForkId \<equiv> Some (Sentinel 45)"
abbreviation (input) ErrExecutorBalanceMismatch :: go_error where "ErrExecutorBalanceMismatch \<equiv> Some (Sentinel 46)"
abbreviation (input) ErrExecutorFEA2Scalar :: go_error where "ErrExecutorFEA2Scalar \<equiv> Some (Sentinel 47)"
abbreviation (input) ErrExecutorTOS32 :: go_error where "ErrExecutorTOS32 \<equiv> Some (Sentinel 48)"
abbreviation (input) ErrExecutorSMMainInvalidUnsignedTx :: go_error where "ErrExecutorSMMainInvalidUnsignedTx \<equiv> Some (Sentinel 49)"
abbreviation (input) ErrExecutorSMMainInvalidNoCounters :: go_error where "ErrExecutorSMMainInvalidNoCounters \<equiv> Some (Sentinel 50)"
abbreviation (input) ErrExecutorSMMainArithECRecoverDivideByZero :: go_error where "ErrExecutorSMMainArithECRecoverDivideByZero \<equiv> Some (Sentinel 51)"
abbreviation (input) ErrExecutorSMMainAddressOutOfRange :: go_error where "ErrExecutorSMMainAddressOutOfRange \<equiv> Some (Sentinel 52)"
abbreviation (input) ErrExecutorSMMainAddressNegative :: go_error where "ErrExecutorSMMainAddressNegative \<equiv> Some (Sentinel 53)"
abbreviation (input) ErrExecutorSMMainStorageInvalidKey :: go_error where "ErrExecutorSMMainStorageInvalidKey \<equiv> Some (Sentinel 54)"
abbreviation (input) ErrExecutorSMMainHashK :: go_error where "ErrExecutorSMMainHashK \<equiv> Some (Sentinel 55)"
abbreviation (input) ErrExecutorSMMainHashKSizeOutOfRange :: go_error where "ErrExecutorSMMainHashKSizeOutOfRange \<equiv> Some (Sentinel 56)"
abbreviation (input) ErrExecutorSMMainHashKPositionNegative :: go_error where "ErrExecutorSMMainHashKPositionNegative \<equiv> Some (Sentinel 57)"
abbreviation (input) ErrExecutorSMMainHashKPositionPlusSizeOutOfRange :: go_error where "ErrExecutorSMMainHashKPositionPlusSizeOutOfRange \<equiv> Some (Sentinel 58)"
abbreviation (input) ErrExecutorSMMainHashKDigestAddressNotFound :: go_error where "ErrExecutorSMMainHashKDigestAddressNotFound \<equiv> Some (Sentinel 59)"
abbreviation (input) ErrExecutorSMMainHashKDigestNotCompleted :: go_error where "ErrExecutorSMMainHashKDigestNotCompleted \<equiv> Some (Sentinel 60)"
abbreviation (input) ErrExecutorSMMainHashP :: go_error where "ErrExecutorSMMainHashP \<equiv> Some (Sentinel 61)"
abbreviation (input) ErrExecutorSMMainHashPSizeOutOfRange :: go_error where "ErrExecutorSMMainHashPSizeOutOfRange \<equiv> Some (Sentinel 62)"
abbreviation (input) ErrExecutorSMMainHashPPositionNegative :: go_error where "ErrExecutorSMMainHashPPositionNegative \<equiv> Some (Sentinel 63)"
abbreviation (input) ErrExecutorSMMainHashPPositionPlusSizeOutOfRange :: go_error where "ErrExecutorSMMainHashPPositionPlusSizeOutOfRange \<equiv> Some (Sentinel 64)"
abbreviation (input) ErrExecutorSMMainHashPDigestAddressNotFound :: go_error where "ErrExecutorSMMainHashPDigestAddressNotFound \<equiv> Some (Sentinel 65)"
abbreviation (input) ErrExecutorSMMainHashPDigestNotCompleted :: go_error where "ErrExecutorSMMainHashPDigestNotCompleted \<equiv> Some (Sentinel 66)"
abbreviation (input) ErrExecutorSMMainMemAlignOffsetOutOfRange :: go_error where "ErrExecutorSMMainMemAlignOffsetOutOfRange \<equiv> Some (Sentinel 67)"
abbreviation (input) ErrExecutorSMMainMultipleFreeIn :: go_error where "ErrExecutorSMMainMultipleFreeIn \<equiv> Some (Sentinel 68)"
abbreviation (input) ErrExecutorSMMainAssert :: go_error where "ErrExecutorSMMainAssert \<equiv> Some (Sentinel 69)"
abbreviation (input) ErrExecutorSMMainMemory :: go_error where "ErrExecutorSMMainMemory \<equiv> Some (Sentinel 70)"
abbreviation (input) ErrExecutorSMMainStorageReadMismatch :: go_error where "ErrExecutorSMMainStorageReadMismatch \<equiv> Some (Sentinel 71)"
abbreviation (input) ErrExecutorSMMainStorageWriteMismatch :: go_error where "ErrExecutorSMMainStorageWriteMismatch \<equiv> Some (Sentinel 72)"
abbreviation (input) ErrExecutorSMMainHashKValueMismatch :: go_error where "ErrExecutorSMMainHashKValueMismatch \<equiv> Some (Sentinel 73)"
abbreviation (input) ErrExecutorSMMainHashKPaddingMismatch :: go_error where "ErrExecutorSMMainHashKPaddingMismatch \<equiv> Some (Sentinel 74)"
abbreviation (input) ErrExecutorSMMainHashKSizeMismatch :: go_error where "ErrExecutorSMMainHashKSizeMismatch \<equiv> Some (Sentinel 75)"
abbreviation (input) ErrExecutorSMMainHashKLenLengthMismatch :: go_error where "ErrExecutorSMMainHashKLenLengthMismatch \<equiv> Some (Sentinel 76)"
abbreviation (input) ErrExecutorSMMainHashKLenCalledTwice :: go_error where "ErrExecutorSMMainHashKLenCalledTwice \<equiv> Some (Sentinel 77)"
abbreviation (input) ErrExecutorSMMainHashKDigestNotFound :: go_error where "ErrExecutorSMMainHashKDigestNotFound \<equiv> Some (Sentinel 78)"
abbreviation (input) ErrExecutorSMMainHashKDigestDigestMismatch :: go_error where "ErrExecutorSMMainHashKDigestDigestMismatch \<equiv> Some (Sentinel 79)"
abbreviation (input) ErrExecutorSMMainHashKDigestCalledTwice :: go_error where "ErrExecutorSMMainHashKDigestCalledTwice \<equiv> Some (Sentinel 80)"
abbreviation (input) ErrExecutorSMMainHashPValueMismatch :: go_error where "ErrExecutorSMMainHashPValueMismatch \<equiv> Some (Sentinel 81)"
abbreviation (input) ErrExecutorSMMainHashPPaddingMismatch :: go_error where "ErrExecutorSMMainHashPPaddingMismatch \<equiv> Some (Sentinel 82)"
abbreviation (input) ErrExecutorSMMainHashPSizeMismatch :: go_error where "ErrExecutorSMMainHashPSizeMismatch \<equiv> Some (Sentinel 83)"
abbreviation (input) ErrExecutorSMMainHashPLenLengthMismatch :: go_error where "ErrExecutorSMMainHashPLenLengthMismatch \<equiv> Some (Sentinel 84)"
abbreviation (input) ErrExecutorSMMainHashPLenCalledTwice :: go_error where "ErrExecutorSMMainHashPLenCalledTwice \<equiv> Some (Sentinel 85)"
abbreviation (input) ErrExecutorSMMainHashPDigestDigestMismatch :: go_error where "ErrExecutorSMMainHashPDigestDigestMismatch \<equiv> Some (Sentinel 86)"
abbreviation (input) ErrExecutorSMMainHashPDigestCalledTwice :: go_error where "ErrExecutorSMMainHashPDigestCalledTwice \<equiv> Some (Sentinel 87)"
abbreviation (input) ErrExecutorSMMainArithMismatch :: go_error where "ErrExecutorSMMainArithMismatch \<equiv> Some (Sentinel 88)"
abbreviation (input) ErrExecutorSMMainArithECRecoverMismatch :: go_error where "ErrExecutorSMMainArithECRecoverMismatch \<equiv> Some (Sentinel 89)"
abbreviation (input) ErrExecutorSMMainBinaryAddMismatch :: go_error where "ErrExecutorSMMainBinaryAddMismatch \<equiv> Some (Sentinel 90)"
abbreviation (input) ErrExecutorSMMainBinarySubMismatch :: go_error where "ErrExecutorSMMainBinarySubMismatch \<equiv> Some (Sentinel 91)"
abbreviation (input) ErrExecutorSMMainBinaryLtMismatch :: go_error where "ErrExecutorSMMainBinaryLtMismatch \<equiv> Some (Sentinel 92)"
abbreviation (input) ErrExecutorSMMainBinarySLtMismatch :: go_error where "ErrExecutorSMMainBinarySLtMismatch \<equiv> Some (Sentinel 93)"
abbreviation (input) ErrExecutorSMMainBinaryEqMismatch :: go_error where "ErrExecutorSMMainBinaryEqMismatch \<equiv> Some (Sentinel 94)"
abbreviation (input) ErrExecutorSMMainBinaryAndMismatch :: go_error where "ErrExecutorSMMainBinaryAndMismatch \<equiv> Some (Sentinel 95)"
abbreviation (input) ErrExecutorSMMainBinaryOrMismatch :: go_error where "ErrExecutorSMMainBinaryOrMismatch \<equiv> Some (Sentinel 96)"
abbreviation (input) ErrExecutorSMMainBinaryXorMismatch :: go_error where "ErrExecutorSMMainBinaryXorMismatch \<equiv> Some (Sentinel 97)"
abbreviation (input) ErrExecutorSMMainMemAlignWriteMismatch :: go_error where "ErrExecutorSMMainMemAlignWriteMismatch \<equiv> Some (Sentinel 98)"
abbreviation (input) ErrExecutorSMMainMemAlignWrite8Mismatch :: go_error where "ErrExecutorSMMainMemAlignWrite8Mismatch \<equiv> Some (Sentinel 99)"
abbreviation (input) ErrExecutorSMMainMemAlignReadMismatch :: go_error where "ErrExecutorSMMainMemAlignReadMismatch \<equiv> Some (Sentinel 100)"
abbreviation (input) ErrExecutorSMMainJmpnOutOfRange :: go_error where "ErrExecutorSMMainJmpnOutOfRange \<equiv> Some (Sentinel 101)"
abbreviation (input) ErrExecutorSMMainHashKReadOutOfRange :: go_error where "ErrExecutorSMMainHashKReadOutOfRange \<equiv> Some (Sentinel 102)"
abbreviation (input) ErrExecutorSMMainHashPReadOutOfRange :: go_error where "ErrExecutorSMMainHashPReadOutOfRange \<equiv> Some (Sentinel 103)"
abbreviation (input) ErrExecutorErrorInvalidOldStateRoot :: go_error where "ErrExecutorErrorInvalidOldStateRoot \<equiv> Some (Sentinel 104)"
abbreviation (input) ErrExecutorErrorInvalidOldAccInputHash :: go_error where "ErrExecutorErrorInvalidOldAccInputHash \<equiv> Some (Sentinel 105)"
abbreviation (input) ErrExecutorErrorInvalidChainId :: go_error where "ErrExecutorErrorInvalidChainId \<equiv> Some (Sentinel 106)"
abbreviation (input) ErrExecutorErrorInvalidBatchL2Data :: go_error where "ErrExecutorErrorInvalidBatchL2Data \<equiv> Some (Sentinel 107)"
abbreviation (input) ErrExecutorErrorInvalidGlobalExitRoot :: go_error where "ErrExecutorErrorInvalidGlobalExitRoot \<equiv> Some (Sentinel 108)"
abbreviation (input) ErrExecutorErrorInvalidCoinbase :: go_error where "ErrExecutorErrorInvalidCoinbase \<equiv> Some (Sentinel 109)"
abbreviation (input) ErrExecutorErrorInvalidFrom :: go_error where "ErrExecutorErrorInvalidFrom \<equiv> Some (Sentinel 110)"
abbreviation (input) ErrExecutorErrorInvalidDbKey :: go_error where "ErrExecutorErrorInvalidDbKey \<equiv> Some (Sentinel 111)"
abbreviation (input) ErrExecutorErrorInvalidDbValue :: go_error where "ErrExecutorErrorInvalidDbValue \<equiv> Some (Sentinel 112)"
abbreviation (input) ErrExecutorErrorInvalidContractsBytecodeKey :: go_error where "ErrExecutorErrorInvalidContractsBytecodeKey \<equiv> Some (Sentinel 113)"
abbreviation (input) ErrExecutorErrorInvalidContractsBytecodeValue :: go_error where "ErrExecutorErrorInvalidContractsBytecodeValue \<equiv> Some (Sentinel 114)"
abbreviation (input) ErrExecutorErrorInvalidGetKey :: go_error where "ErrExecutorErrorInvalidGetKey \<equiv> Some (Sentinel 115)"
abbreviation (input) ErrExecutorSMMainCountersOverflowSha256 :: go_error where "ErrExecutorSMMainCountersOverflowSha256 \<equiv> Some (Sentinel 116)"
abbreviation (input) ErrExecutorSMMainHashS :: go_error where "ErrExecutorSMMainHashS \<equiv> Some (Sentinel 117)"
abbreviation (input) ErrExecutorSMMainHashSSizeOutOfRange :: go_error where "ErrExecutorSMMainHashSSizeOutOfRange \<equiv> Some (Sentinel 118)"
abbreviation (input) ErrExecutorSMMainHashSPositionNegative :: go_error where "ErrExecutorSMMainHashSPositionNegative \<equiv> Some (Sentinel 119)"
abbreviation (input) ErrExecutorSMMainHashSPositionPlusSizeOutOfRange :: go_error where "ErrExecutorSMMainHashSPositionPlusSizeOutOfRange \<equiv> Some (Sentinel 120)"
abbreviation (input) ErrExecutorSMMainHashSDigestAddressNotFound :: go_error where "ErrExecutorSMMainHashSDigestAddressNotFound \<equiv> Some (Sentinel 121)"
abbreviation (input) ErrExecutorSMMainHashSDigestNotCompleted :: go_error where "ErrExecutorSMMainHashSDigestNotCompleted \<equiv> Some (Sentinel 122)"
abbreviation (input) ErrExecutorSMMainHashSValueMismatch :: go_error where "ErrExecutorSMMainHashSValueMismatch \<equiv> Some (Sentinel 123)"
abbreviation (input) ErrExecutorSMMainHashSPaddingMismatch :: go_error where "ErrExecutorSMMainHashSPaddingMismatch \<equiv> Some (Sentinel 124)"
abbreviation (input) ErrExecutorSMMainHashSSizeMismatch :: go_error where "ErrExecutorSMMainHashSSizeMismatch \<equiv> Some (Sentinel 125)"
abbreviation (input) ErrExecutorSMMainHashSLenLengthMismatch :: go_error where "ErrExecutorSMMainHashSLenLengthMismatch \<equiv> Some (Sentinel 126)"
abbreviation (input) ErrExecutorSMMainHashSLenCalledTwice :: go_error where "ErrExecutorSMMainHashSLenCalledTwice \<equiv> Some (Sentinel 127)"
abbreviation (input) ErrExecutorSMMainHashSDigestNotFound :: go_error where "ErrExecutorSMMainHashSDigestNotFound \<equiv> Some (Sentinel 128)"
abbreviation (input) ErrExecutorSMMainHashSDigestDigestMismatch :: go_error where "ErrExecutorSMMainHashSDigestDigestMismatch \<equiv> Some (Sentinel 129)"
abbreviation (input) ErrExecutorSMMainHashSDigestCalledTwice :: go_error where "ErrExecutorSMMainHashSDigestCalledTwice \<equiv> Some (Sentinel 130)"
abbreviation (input) ErrExecutorSMMainHashSReadOutOfRange :: go_error where "ErrExecutorSMMainHashSReadOutOfRange \<equiv> Some (Sentinel 131)"
abbreviation (input) ErrExecutorErrorInvalidL1InfoRoot :: go_error where "ErrExecutorErrorInvalidL1InfoRoot \<equiv> Some (Sentinel 132)"
abbreviation (input) ErrExecutorErrorInvalidForcedBlockhashL1 :: go_error where "ErrExecutorErrorInvalidForcedBlockhashL1 \<equiv> Some (Sentinel 133)"
abbreviation (input) ErrExecutorErrorInvalidL1DataV2GlobalExitRoot :: go_error where "ErrExecutorErrorInvalidL1DataV2GlobalExitRoot \<equiv> Some (Sentinel 134)"
abbreviation (input) ErrExecutorErrorInvalidL1DataV2BlockHashL1 :: go_error where "ErrExecutorErrorInvalidL1DataV2BlockHashL1 \<equiv> Some (Sentinel 135)"
abbreviation (input) ErrExecutorErrorInvalidL1SmtProof :: go_error where "ErrExecutorErrorInvalidL1SmtProof \<equiv> Some (Sentinel 136)"
abbreviation (input) ErrExecutorErrorInvalidBalance :: go_error where "ErrExecutorErrorInvalidBalance \<equiv> Some (Sentinel 137)"
abbreviation (input) ErrExecutorErrorSMMainBinaryLt4Mismatch :: go_error where "ErrExecutorErrorSMMainBinaryLt4Mismatch \<equiv> Some (Sentinel 138)"
abbreviation (input) ErrExecutorErrorInvalidNewStateRoot :: go_error where "ErrExecutorErrorInvalidNewStateRoot \<equiv> Some (Sentinel 139)"
abbreviation (input) ErrExecutorErrorInvalidNewAccInputHash :: go_error where "ErrExecutorErrorInvalidNewAccInputHash \<equiv> Some (Sentinel 140)"
abbreviation (input) ErrExecutorErrorInvalidNewLocalExitRoot :: go_error where "ErrExecutorErrorInvalidNewLocalExitRoot \<equiv> Some (Sentinel 141)"
abbreviation (input) ErrExecutorErrorDBKeyNotFound :: go_error where "ErrExecutorErrorDBKeyNotFound \<equiv> Some (Sentinel 142)"
abbreviation (input) ErrExecutorErrorSMTInvalidDataSize :: go_error where "ErrExecutorErrorSMTInvalidDataSize \<equiv> Some (Sentinel 143)"
abbreviation (input) ErrExecutorErrorHashDBGRPCError :: go_error where "ErrExecutorErrorHashDBGRPCError \<equiv> Some (Sentinel 144)"
abbreviation (input) ErrExecutorErrorStateManager :: go_error where "ErrExecutorErrorStateManager \<equiv> Some (Sentinel 145)"
abbreviation (input) ErrExecutorErrorInvalidL1InfoTreeIndex :: go_error where "ErrExecutorErrorInvalidL1InfoTreeIndex \<equiv> Some (Sentinel 146)"
abbreviation (input) ErrExecutorErrorInvalidL1InfoTreeSmtProofValue :: go_error where "ErrExecutorErrorInvalidL1InfoTreeSmtProofValue \<equiv> Some (Sentinel 147)"
abbreviation (input) ErrExecutorErrorInvalidWitness :: go_error where "ErrExecutorErrorInvalidWitness \<equiv> Some (Sentinel 148)"
abbreviation (input) ErrExecutorErrorInvalidCBOR :: go_error where "ErrExecutorErrorInvalidCBOR \<equiv> Some (Sentinel 149)"
abbreviation (input) ErrExecutorErrorInvalidDataStream :: go_error where "ErrExecutorErrorInvalidDataStream \<equiv> Some (Sentinel 150)"
abbreviation (input) ErrExecutorErrorInvalidUpdateMerkleTree :: go_error where "ErrExecutorErrorInvalidUpdateMerkleTree \<equiv> Some (Sentinel 151)"
abbreviation (input) ErrExecutorErrorSMMainInvalidTxStatusError :: go_error where "ErrExecutorErrorSMMainInvalidTxStatusError \<equiv> Some (Sentinel 152)"
abbreviation (input) ErrGRPCResourceExhaustedAsTimeout :: go_error where "ErrGRPCResourceExhaustedAsTimeout \<equiv> Some (Sentinel 153)"

section \<open>The codes\<close>

text \<open>The two enumerations of the protocol (\<open>executor.pb.go\<close>).\<close>

abbreviation (input) ROM_ERROR_UNSPECIFIED :: errcode where "ROM_ERROR_UNSPECIFIED \<equiv> 0"
abbreviation (input) ROM_ERROR_NO_ERROR :: errcode where "ROM_ERROR_NO_ERROR \<equiv> 1"
abbreviation (input) ROM_ERROR_OUT_OF_GAS :: errcode where "ROM_ERROR_OUT_OF_GAS \<equiv> 2"
abbreviation (input) ROM_ERROR_STACK_OVERFLOW :: errcode where "ROM_ERROR_STACK_OVERFLOW \<equiv> 3"
abbreviation (input) ROM_ERROR_STACK_UNDERFLOW :: errcode where "ROM_ERROR_STACK_UNDERFLOW \<equiv> 4"
abbreviation (input) ROM_ERROR_MAX_CODE_SIZE_EXCEEDED :: errcode where "ROM_ERROR_MAX_CODE_SIZE_EXCEEDED \<equiv> 5"
abbreviation (input) ROM_ERROR_CONTRACT_ADDRESS_COLLISION :: errcode where "ROM_ERROR_CONTRACT_ADDRESS_COLLISION \<equiv> 6"
abbreviation (input) ROM_ERROR_EXECUTION_REVERTED :: errcode where "ROM_ERROR_EXECUTION_REVERTED \<equiv> 7"
abbreviation (input) ROM_ERROR_OUT_OF_COUNTERS_STEP :: errcode where "ROM_ERROR_OUT_OF_COUNTERS_STEP \<equiv> 8"
abbreviation (input) ROM_ERROR_OUT_OF_COUNTERS_KECCAK :: errcode where "ROM_ERROR_OUT_OF_COUNTERS_KECCAK \<equiv> 9"
abbreviation (input) ROM_ERROR_OUT_OF_COUNTERS_BINARY :: errcode where "ROM_ERROR_OUT_OF_COUNTERS_BINARY \<equiv> 10"
abbreviation (input) ROM_ERROR_OUT_OF_COUNTERS_MEM :: errcode where "ROM_ERROR_OUT_OF_COUNTERS_MEM \<equiv> 11"
abbreviation (input) ROM_ERROR_OUT_OF_COUNTERS_ARITH :: errcode where "ROM_ERROR_OUT_OF_COUNTERS_ARITH \<equiv> 12"
abbreviation (input) ROM_ERROR_OUT_OF_COUNTERS_PADDING :: errcode where "ROM_ERROR_OUT_OF_COUNTERS_PADDING \<equiv> 13"
abbreviation (input) ROM_ERROR_OUT_OF_COUNTERS_POSEIDON :: errcode where "ROM_ERROR_OUT_OF_COUNTERS_POSEIDON \<equiv> 14"
abbreviation (input) ROM_ERROR_OUT_OF_COUNTERS_SHA :: errcode where "ROM_ERROR_OUT_OF_COUNTERS_SHA \<equiv> 15"
abbreviation (input) ROM_ERROR_INVALID_JUMP :: errcode where "ROM_ERROR_INVALID_JUMP \<equiv> 16"
abbreviation (input) ROM_ERROR_INVALID_OPCODE :: errcode where "ROM_ERROR_INVALID_OPCODE \<equiv> 17"
abbreviation (input) ROM_ERROR_INVALID_STATIC :: errcode where "ROM_ERROR_INVALID_STATIC \<equiv> 18"
abbreviation (input) ROM_ERROR_INVALID_BYTECODE_STARTS_EF :: errcode where "ROM_ERROR_INVALID_BYTECODE_STARTS_EF \<equiv> 19"
abbreviation (input) ROM_ERROR_INTRINSIC_INVALID_SIGNATURE :: errcode where "ROM_ERROR_INTRINSIC_INVALID_SIGNATURE \<equiv> 20"
abbreviation (input) ROM_ERROR_INTRINSIC_INVALID_CHAIN_ID :: errcode where "ROM_ERROR_INTRINSIC_INVALID_CHAIN_ID \<equiv> 21"
abbreviation (input) ROM_ERROR_INTRINSIC_INVALID_NONCE :: errcode where "ROM_ERROR_INTRINSIC_INVALID_NONCE \<equiv> 22"
abbreviation (input) ROM_ERROR_INTRINSIC_INVALID_GAS_LIMIT :: errcode where "ROM_ERROR_INTRINSIC_INVALID_GAS_LIMIT \<equiv> 23"
abbreviation (input) ROM_ERROR_INTRINSIC_INVALID_BALANCE :: errcode where "ROM_ERROR_INTRINSIC_INVALID_BALANCE \<equiv> 24"
abbreviation (input) ROM_ERROR_INTRINSIC_INVALID_BATCH_GAS_LIMIT :: errcode where "ROM_ERROR_INTRINSIC_INVALID_BATCH_GAS_LIMIT \<equiv> 25"
abbreviation (input) ROM_ERROR_INTRINSIC_INVALID_SENDER_CODE :: errcode where "ROM_ERROR_INTRINSIC_INVALID_SENDER_CODE \<equiv> 26"
abbreviation (input) ROM_ERROR_INTRINSIC_TX_GAS_OVERFLOW :: errcode where "ROM_ERROR_INTRINSIC_TX_GAS_OVERFLOW \<equiv> 27"
abbreviation (input) ROM_ERROR_BATCH_DATA_TOO_BIG :: errcode where "ROM_ERROR_BATCH_DATA_TOO_BIG \<equiv> 28"
abbreviation (input) ROM_ERROR_UNSUPPORTED_FORK_ID :: errcode where "ROM_ERROR_UNSUPPORTED_FORK_ID \<equiv> 29"
abbreviation (input) ROM_ERROR_INVALID_RLP :: errcode where "ROM_ERROR_INVALID_RLP \<equiv> 30"
abbreviation (input) ROM_ERROR_INVALID_DECODE_CHANGE_L2_BLOCK :: errcode where "ROM_ERROR_INVALID_DECODE_CHANGE_L2_BLOCK \<equiv> 31"
abbreviation (input) ROM_ERROR_INVALID_NOT_FIRST_TX_CHANGE_L2_BLOCK :: errcode where "ROM_ERROR_INVALID_NOT_FIRST_TX_CHANGE_L2_BLOCK \<equiv> 32"
abbreviation (input) ROM_ERROR_INVALID_TX_CHANGE_L2_BLOCK_LIMIT_TIMESTAMP :: errcode where "ROM_ERROR_INVALID_TX_CHANGE_L2_BLOCK_LIMIT_TIMESTAMP \<equiv> 33"
abbreviation (input) ROM_ERROR_INVALID_TX_CHANGE_L2_BLOCK_MIN_TIMESTAMP :: errcode where "ROM_ERROR_INVALID_TX_CHANGE_L2_BLOCK_MIN_TIMESTAMP \<equiv> 34"
abbreviation (input) EXECUTOR_ERROR_UNSPECIFIED :: errcode where "EXECUTOR_ERROR_UNSPECIFIED \<equiv> 0"
abbreviation (input) EXECUTOR_ERROR_NO_ERROR :: errcode where "EXECUTOR_ERROR_NO_ERROR \<equiv> 1"
abbreviation (input) EXECUTOR_ERROR_DB_ERROR :: errcode where "EXECUTOR_ERROR_DB_ERROR \<equiv> 2"
abbreviation (input) EXECUTOR_ERROR_SM_MAIN_COUNTERS_OVERFLOW_STEPS :: errcode where "EXECUTOR_ERROR_SM_MAIN_COUNTERS_OVERFLOW_STEPS \<equiv> 3"
abbreviation (input) EXECUTOR_ERROR_SM_MAIN_COUNTERS_OVERFLOW_KECCAK :: errcode where "EXECUTOR_ERROR_SM_MAIN_COUNTERS_OVERFLOW_KECCAK \<equiv> 4"
abbreviation (input) EXECUTOR_ERROR_SM_MAIN_COUNTERS_OVERFLOW_BINARY :: errcode where "EXECUTOR_ERROR_SM_MAIN_COUNTERS_OVERFLOW_BINARY \<equiv> 5"
abbreviation (input) EXECUTOR_ERROR_SM_MAIN_COUNTERS_OVERFLOW_MEM :: errcode where "EXECUTOR_ERROR_SM_MAIN_COUNTERS_OVERFLOW_MEM \<equiv> 6"
abbreviation (input) EXECUTOR_ERROR_SM_MAIN_COUNTERS_OVERFLOW_ARITH :: errcode where "EXECUTOR_ERROR_SM_MAIN_COUNTERS_OVERFLOW_ARITH \<equiv> 7"
abbreviation (input) EXECUTOR_ERROR_SM_MAIN_COUNTERS_OVERFLOW_PADDING :: errcode where "EXECUTOR_ERROR_SM_MAIN_COUNTERS_OVERFLOW_PADDING \<equiv> 8"
abbreviation (input) EXECUTOR_ERROR_SM_MAIN_COUNTERS_OVERFLOW_POSEIDON :: errcode where "EXECUTOR_ERROR_SM_MAIN_COUNTERS_OVERFLOW_POSEIDON \<equiv> 9"
abbreviation (input) EXECUTOR_ERROR_UNSUPPORTED_FORK_ID :: errcode where "EXECUTOR_ERROR_UNSUPPORTED_FORK_ID \<equiv> 10"
abbreviation (input) EXECUTOR_ERROR_BALANCE_MISMATCH :: errcode where "EXECUTOR_ERROR_BALANCE_MISMATCH \<equiv> 11"
abbreviation (input) EXECUTOR_ERROR_FEA2SCALAR :: errcode where "EXECUTOR_ERROR_FEA2SCALAR \<equiv> 12"
abbreviation (input) EXECUTOR_ERROR_TOS32 :: errcode where "EXECUTOR_ERROR_TOS32 \<equiv> 13"
abbreviation (input) EXECUTOR_ERROR_SM_MAIN_INVALID_UNSIGNED_TX :: errcode where "EXECUTOR_ERROR_SM_MAIN_INVALID_UNSIGNED_TX \<equiv> 14"
abbreviation (input) EXECUTOR_ERROR_SM_MAIN_INVALID_NO_COUNTERS :: errcode where "EXECUTOR_ERROR_SM_MAIN_INVALID_NO_COUNTERS \<equiv> 15"
abbreviation (input) EXECUTOR_ERROR_SM_MAIN_ARITH_ECRECOVER_DIVIDE_BY_ZERO :: errcode where "EXECUTOR_ERROR_SM_MAIN_ARITH_ECRECOVER_DIVIDE_BY_ZERO \<equiv> 16"
abbreviation (input) EXECUTOR_ERROR_SM_MAIN_ADDRESS_OUT_OF_RANGE :: errcode where "EXECUTOR_ERROR_SM_MAIN_ADDRESS_OUT_OF_RANGE \<equiv> 17"
abbreviation (input) EXECUTOR_ERROR_SM_MAIN_ADDRESS_NEGATIVE :: errcode where "EXECUTOR_ERROR_SM_MAIN_ADDRESS_NEGATIVE \<equiv> 18"
abbreviation (input) EXECUTOR_ERROR_SM_MAIN_STORAGE_INVALID_KEY :: errcode where "EXECUTOR_ERROR_SM_MAIN_STORAGE_INVALID_KEY \<equiv> 19"
abbreviation (input) EXECUTOR_ERROR_SM_MAIN_HASHK :: errcode where "EXECUTOR_ERROR_SM_MAIN_HASHK \<equiv> 20"
abbreviation (input) EXECUTOR_ERROR_SM_MAIN_HASHK_SIZE_OUT_OF_RANGE :: errcode where "EXECUTOR_ERROR_SM_MAIN_HASHK_SIZE_OUT_OF_RANGE \<equiv> 21"
abbreviation (input) EXECUTOR_ERROR_SM_MAIN_HASHK_POSITION_NEGATIVE :: errcode where "EXECUTOR_ERROR_SM_MAIN_HASHK_POSITION_NEGATIVE \<equiv> 22"
abbreviation (input) EXECUTOR_ERROR_SM_MAIN_HASHK_POSITION_PLUS_SIZE_OUT_OF_RANGE :: errcode where "EXECUTOR_ERROR_SM_MAIN_HASHK_POSITION_PLUS_SIZE_OUT_OF_RANGE \<equiv> 23"
abbreviation (input) EXECUTOR_ERROR_SM_MAIN_HASHKDIGEST_ADDRESS_NOT_FOUND :: errcode where "EXECUTOR_ERROR_SM_MAIN_HASHKDIGEST_ADDRESS_NOT_FOUND \<equiv> 24"
abbreviation (input) EXECUTOR_ERROR_SM_MAIN_HASHKDIGEST_NOT_COMPLETED :: errcode where "EXECUTOR_ERROR_SM_MAIN_HASHKDIGEST_NOT_COMPLETED \<equiv> 25"
abbreviation (input) EXECUTOR_ERROR_SM_MAIN_HASHP :: errcode where "EXECUTOR_ERROR_SM_MAIN_HASHP \<equiv> 26"
abbreviation (input) EXECUTOR_ERROR_SM_MAIN_HASHP_SIZE_OUT_OF_RANGE :: errcode where "EXECUTOR_ERROR_SM_MAIN_HASHP_SIZE_OUT_OF_RANGE \<equiv> 27"
abbreviation (input) EXECUTOR_ERROR_SM_MAIN_HASHP_POSITION_NEGATIVE :: errcode where "EXECUTOR_ERROR_SM_MAIN_HASHP_POSITION_NEGATIVE \<equiv> 28"
abbreviation (input) EXECUTOR_ERROR_SM_MAIN_HASHP_POSITION_PLUS_SIZE_OUT_OF_RANGE :: errcode where "EXECUTOR_ERROR_SM_MAIN_HASHP_POSITION_PLUS_SIZE_OUT_OF_RANGE \<equiv> 29"
abbreviation (input) EXECUTOR_ERROR_SM_MAIN_HASHPDIGEST_ADDRESS_NOT_FOUND :: errcode where "EXECUTOR_ERROR_SM_MAIN_HASHPDIGEST_ADDRESS_NOT_FOUND \<equiv> 30"
abbreviation (input) EXECUTOR_ERROR_SM_MAIN_HASHPDIGEST_NOT_COMPLETED :: errcode where "EXECUTOR_ERROR_SM_MAIN_HASHPDIGEST_NOT_COMPLETED \<equiv> 31"
abbreviation (input) EXECUTOR_ERROR_SM_MAIN_MEMALIGN_OFFSET_OUT_OF_RANGE :: errcode where "EXECUTOR_ERROR_SM_MAIN_MEMALIGN_OFFSET_OUT_OF_RANGE \<equiv> 32"
abbreviation (input) EXECUTOR_ERROR_SM_MAIN_MULTIPLE_FREEIN :: errcode where "EXECUTOR_ERROR_SM_MAIN_MULTIPLE_FREEIN \<equiv> 33"
abbreviation (input) EXECUTOR_ERROR_SM_MAIN_ASSERT :: errcode where "EXECUTOR_ERROR_SM_MAIN_ASSERT \<equiv> 34"
abbreviation (input) EXECUTOR_ERROR_SM_MAIN_MEMORY :: errcode where "EXECUTOR_ERROR_SM_MAIN_MEMORY \<equiv> 35"
abbreviation (input) EXECUTOR_ERROR_SM_MAIN_STORAGE_READ_MISMATCH :: errcode where "EXECUTOR_ERROR_SM_MAIN_STORAGE_READ_MISMATCH \<equiv> 36"
abbreviation (input) EXECUTOR_ERROR_SM_MAIN_STORAGE_WRITE_MISMATCH :: errcode where "EXECUTOR_ERROR_SM_MAIN_STORAGE_WRITE_MISMATCH \<equiv> 37"
abbreviation (input) EXECUTOR_ERROR_SM_MAIN_HASHK_VALUE_MISMATCH :: errcode where "EXECUTOR_ERROR_SM_MAIN_HASHK_VALUE_MISMATCH \<equiv> 38"
abbreviation (input) EXECUTOR_ERROR_SM_MAIN_HASHK_PADDING_MISMATCH :: errcode where "EXECUTOR_ERROR_SM_MAIN_HASHK_PADDING_MISMATCH \<equiv> 39"
abbreviation (input) EXECUTOR_ERROR_SM_MAIN_HASHK_SIZE_MISMATCH :: errcode where "EXECUTOR_ERROR_SM_MAIN_HASHK_SIZE_MISMATCH \<equiv> 40"
abbreviation (input) EXECUTOR_ERROR_SM_MAIN_HASHKLEN_LENGTH_MISMATCH :: errcode where "EXECUTOR_ERROR_SM_MAIN_HASHKLEN_LENGTH_MISMATCH \<equiv> 41"
abbreviation (input) EXECUTOR_ERROR_SM_MAIN_HASHKLEN_CALLED_TWICE :: errcode where "EXECUTOR_ERROR_SM_MAIN_HASHKLEN_CALLED_TWICE \<equiv> 42"
abbreviation (input) EXECUTOR_ERROR_SM_MAIN_HASHKDIGEST_NOT_FOUND :: errcode where "EXECUTOR_ERROR_SM_MAIN_HASHKDIGEST_NOT_FOUND \<equiv> 43"
abbreviation (input) EXECUTOR_ERROR_SM_MAIN_HASHKDIGEST_DIGEST_MISMATCH :: errcode where "EXECUTOR_ERROR_SM_MAIN_HASHKDIGEST_DIGEST_MISMATCH \<equiv> 44"
abbreviation (input) EXECUTOR_ERROR_SM_MAIN_HASHKDIGEST_CALLED_TWICE :: errcode where "EXECUTOR_ERROR_SM_MAIN_HASHKDIGEST_CALLED_TWICE \<equiv> 45"
abbreviation (input) EXECUTOR_ERROR_SM_MAIN_HASHP_VALUE_MISMATCH :: errcode where "EXECUTOR_ERROR_SM_MAIN_HASHP_VALUE_MISMATCH \<equiv> 46"
abbreviation (input) EXECUTOR_ERROR_SM_MAIN_HASHP_PADDING_MISMATCH :: errcode where "EXECUTOR_ERROR_SM_MAIN_HASHP_PADDING_MISMATCH \<equiv> 47"
abbreviation (input) EXECUTOR_ERROR_SM_MAIN_HASHP_SIZE_MISMATCH :: errcode where "EXECUTOR_ERROR_SM_MAIN_HASHP_SIZE_MISMATCH \<equiv> 48"
abbreviation (input) EXECUTOR_ERROR_SM_MAIN_HASHPLEN_LENGTH_MISMATCH :: errcode where "EXECUTOR_ERROR_SM_MAIN_HASHPLEN_LENGTH_MISMATCH \<equiv> 49"
abbreviation (input) EXECUTOR_ERROR_SM_MAIN_HASHPLEN_CALLED_TWICE :: errcode where "EXECUTOR_ERROR_SM_MAIN_HASHPLEN_CALLED_TWICE \<equiv> 50"
abbreviation (input) EXECUTOR_ERROR_SM_MAIN_HASHPDIGEST_DIGEST_MISMATCH :: errcode where "EXECUTOR_ERROR_SM_MAIN_HASHPDIGEST_DIGEST_MISMATCH \<equiv> 51"
abbreviation (input) EXECUTOR_ERROR_SM_MAIN_HASHPDIGEST_CALLED_TWICE :: errcode where "EXECUTOR_ERROR_SM_MAIN_HASHPDIGEST_CALLED_TWICE \<equiv> 52"
abbreviation (input) EXECUTOR_ERROR_SM_MAIN_ARITH_MISMATCH :: errcode where "EXECUTOR_ERROR_SM_MAIN_ARITH_MISMATCH \<equiv> 53"
abbreviation (input) EXECUTOR_ERROR_SM_MAIN_ARITH_ECRECOVER_MISMATCH :: errcode where "EXECUTOR_ERROR_SM_MAIN_ARITH_ECRECOVER_MISMATCH \<equiv> 54"
abbreviation (input) EXECUTOR_ERROR_SM_MAIN_BINARY_ADD_MISMATCH :: errcode where "EXECUTOR_ERROR_SM_MAIN_BINARY_ADD_MISMATCH \<equiv> 55"
abbreviation (input) EXECUTOR_ERROR_SM_MAIN_BINARY_SUB_MISMATCH :: errcode where "EXECUTOR_ERROR_SM_MAIN_BINARY_SUB_MISMATCH \<equiv> 56"
abbreviation (input) EXECUTOR_ERROR_SM_MAIN_BINARY_LT_MISMATCH :: errcode where "EXECUTOR_ERROR_SM_MAIN_BINARY_LT_MISMATCH \<equiv> 57"
abbreviation (input) EXECUTOR_ERROR_SM_MAIN_BINARY_SLT_MISMATCH :: errcode where "EXECUTOR_ERROR_SM_MAIN_BINARY_SLT_MISMATCH \<equiv> 58"
abbreviation (input) EXECUTOR_ERROR_SM_MAIN_BINARY_EQ_MISMATCH :: errcode where "EXECUTOR_ERROR_SM_MAIN_BINARY_EQ_MISMATCH \<equiv> 59"
abbreviation (input) EXECUTOR_ERROR_SM_MAIN_BINARY_AND_MISMATCH :: errcode where "EXECUTOR_ERROR_SM_MAIN_BINARY_AND_MISMATCH \<equiv> 60"
abbreviation (input) EXECUTOR_ERROR_SM_MAIN_BINARY_OR_MISMATCH :: errcode where "EXECUTOR_ERROR_SM_MAIN_BINARY_OR_MISMATCH \<equiv> 61"
abbreviation (input) EXECUTOR_ERROR_SM_MAIN_BINARY_XOR_MISMATCH :: errcode where "EXECUTOR_ERROR_SM_MAIN_BINARY_XOR_MISMATCH \<equiv> 62"
abbreviation (input) EXECUTOR_ERROR_SM_MAIN_MEMALIGN_WRITE_MISMATCH :: errcode where "EXECUTOR_ERROR_SM_MAIN_MEMALIGN_WRITE_MISMATCH \<equiv> 63"
abbreviation (input) EXECUTOR_ERROR_SM_MAIN_MEMALIGN_WRITE8_MISMATCH :: errcode where "EXECUTOR_ERROR_SM_MAIN_MEMALIGN_WRITE8_MISMATCH \<equiv> 64"
abbreviation (input) EXECUTOR_ERROR_SM_MAIN_MEMALIGN_READ_MISMATCH :: errcode where "EXECUTOR_ERROR_SM_MAIN_MEMALIGN_READ_MISMATCH \<equiv> 65"
abbreviation (input) EXECUTOR_ERROR_SM_MAIN_JMPN_OUT_OF_RANGE :: errcode where "EXECUTOR_ERROR_SM_MAIN_JMPN_OUT_OF_RANGE \<equiv> 66"
abbreviation (input) EXECUTOR_ERROR_SM_MAIN_HASHK_READ_OUT_OF_RANGE :: errcode where "EXECUTOR_ERROR_SM_MAIN_HASHK_READ_OUT_OF_RANGE \<equiv> 67"
abbreviation (input) EXECUTOR_ERROR_SM_MAIN_HASHP_READ_OUT_OF_RANGE :: errcode where "EXECUTOR_ERROR_SM_MAIN_HASHP_READ_OUT_OF_RANGE \<equiv> 68"
abbreviation (input) EXECUTOR_ERROR_INVALID_OLD_STATE_ROOT :: errcode where "EXECUTOR_ERROR_INVALID_OLD_STATE_ROOT \<equiv> 69"
abbreviation (input) EXECUTOR_ERROR_INVALID_OLD_ACC_INPUT_HASH :: errcode where "EXECUTOR_ERROR_INVALID_OLD_ACC_INPUT_HASH \<equiv> 70"
abbreviation (input) EXECUTOR_ERROR_INVALID_CHAIN_ID :: errcode where "EXECUTOR_ERROR_INVALID_CHAIN_ID \<equiv> 71"
abbreviation (input) EXECUTOR_ERROR_INVALID_BATCH_L2_DATA :: errcode where "EXECUTOR_ERROR_INVALID_BATCH_L2_DATA \<equiv> 72"
abbreviation (input) EXECUTOR_ERROR_INVALID_GLOBAL_EXIT_ROOT :: errcode where "EXECUTOR_ERROR_INVALID_GLOBAL_EXIT_ROOT \<equiv> 73"
abbreviation (input) EXECUTOR_ERROR_INVALID_COINBASE :: errcode where "EXECUTOR_ERROR_INVALID_COINBASE \<equiv> 74"
abbreviation (input) EXECUTOR_ERROR_INVALID_FROM :: errcode where "EXECUTOR_ERROR_INVALID_FROM \<equiv> 75"
abbreviation (input) EXECUTOR_ERROR_INVALID_DB_KEY :: errcode where "EXECUTOR_ERROR_INVALID_DB_KEY \<equiv> 76"
abbreviation (input) EXECUTOR_ERROR_INVALID_DB_VALUE :: errcode where "EXECUTOR_ERROR_INVALID_DB_VALUE \<equiv> 77"
abbreviation (input) EXECUTOR_ERROR_INVALID_CONTRACTS_BYTECODE_KEY :: errcode where "EXECUTOR_ERROR_INVALID_CONTRACTS_BYTECODE_KEY \<equiv> 78"
abbreviation (input) EXECUTOR_ERROR_INVALID_CONTRACTS_BYTECODE_VALUE :: errcode where "EXECUTOR_ERROR_INVALID_CONTRACTS_BYTECODE_VALUE \<equiv> 79"
abbreviation (input) EXECUTOR_ERROR_INVALID_GET_KEY :: errcode where "EXECUTOR_ERROR_INVALID_GET_KEY \<equiv> 80"
abbreviation (input) EXECUTOR_ERROR_SM_MAIN_COUNTERS_OVERFLOW_SHA256 :: errcode where "EXECUTOR_ERROR_SM_MAIN_COUNTERS_OVERFLOW_SHA256 \<equiv> 81"
abbreviation (input) EXECUTOR_ERROR_SM_MAIN_HASHS :: errcode where "EXECUTOR_ERROR_SM_MAIN_HASHS \<equiv> 82"
abbreviation (input) EXECUTOR_ERROR_SM_MAIN_HASHS_SIZE_OUT_OF_RANGE :: errcode where "EXECUTOR_ERROR_SM_MAIN_HASHS_SIZE_OUT_OF_RANGE \<equiv> 83"
abbreviation (input) EXECUTOR_ERROR_SM_MAIN_HASHS_POSITION_NEGATIVE :: errcode where "EXECUTOR_ERROR_SM_MAIN_HASHS_POSITION_NEGATIVE \<equiv> 84"
abbreviation (input) EXECUTOR_ERROR_SM_MAIN_HASHS_POSITION_PLUS_SIZE_OUT_OF_RANGE :: errcode where "EXECUTOR_ERROR_SM_MAIN_HASHS_POSITION_PLUS_SIZE_OUT_OF_RANGE \<equiv> 85"
abbreviation (input) EXECUTOR_ERROR_SM_MAIN_HASHSDIGEST_ADDRESS_NOT_FOUND :: errcode where "EXECUTOR_ERROR_SM_MAIN_HASHSDIGEST_ADDRESS_NOT_FOUND \<equiv> 86"
abbreviation (input) EXECUTOR_ERROR_SM_MAIN_HASHSDIGEST_NOT_COMPLETED :: errcode where "EXECUTOR_ERROR_SM_MAIN_HASHSDIGEST_NOT_COMPLETED \<equiv> 87"
abbreviation (input) EXECUTOR_ERROR_SM_MAIN_HASHS_VALUE_MISMATCH :: errcode where "EXECUTOR_ERROR_SM_MAIN_HASHS_VALUE_MISMATCH \<equiv> 88"
abbreviation (input) EXECUTOR_ERROR_SM_MAIN_HASHS_PADDING_MISMATCH :: errcode where "EXECUTOR_ERROR_SM_MAIN_HASHS_PADDING_MISMATCH \<equiv> 89"
abbreviation (input) EXECUTOR_ERROR_SM_MAIN_HASHS_SIZE_MISMATCH :: errcode where "EXECUTOR_ERROR_SM_MAIN_HASHS_SIZE_MISMATCH \<equiv> 90"
abbreviation (input) EXECUTOR_ERROR_SM_MAIN_HASHSLEN_LENGTH_MISMATCH :: errcode where "EXECUTOR_ERROR_SM_MAIN_HASHSLEN_LENGTH_MISMATCH \<equiv> 91"
abbreviation (input) EXECUTOR_ERROR_SM_MAIN_HASHSLEN_CALLED_TWICE :: errcode where "EXECUTOR_ERROR_SM_MAIN_HASHSLEN_CALLED_TWICE \<equiv> 92"
abbreviation (input) EXECUTOR_ERROR_SM_MAIN_HASHSDIGEST_NOT_FOUND :: errcode where "EXECUTOR_ERROR_SM_MAIN_HASHSDIGEST_NOT_FOUND \<equiv> 93"
abbreviation (input) EXECUTOR_ERROR_SM_MAIN_HASHSDIGEST_DIGEST_MISMATCH :: errcode where "EXECUTOR_ERROR_SM_MAIN_HASHSDIGEST_DIGEST_MISMATCH \<equiv> 94"
abbreviation (input) EXECUTOR_ERROR_SM_MAIN_HASHSDIGEST_CALLED_TWICE :: errcode where "EXECUTOR_ERROR_SM_MAIN_HASHSDIGEST_CALLED_TWICE \<equiv> 95"
abbreviation (input) EXECUTOR_ERROR_SM_MAIN_HASHS_READ_OUT_OF_RANGE :: errcode where "EXECUTOR_ERROR_SM_MAIN_HASHS_READ_OUT_OF_RANGE \<equiv> 96"
abbreviation (input) EXECUTOR_ERROR_INVALID_L1_INFO_ROOT :: errcode where "EXECUTOR_ERROR_INVALID_L1_INFO_ROOT \<equiv> 97"
abbreviation (input) EXECUTOR_ERROR_INVALID_FORCED_BLOCKHASH_L1 :: errcode where "EXECUTOR_ERROR_INVALID_FORCED_BLOCKHASH_L1 \<equiv> 98"
abbreviation (input) EXECUTOR_ERROR_INVALID_L1_DATA_V2_GLOBAL_EXIT_ROOT :: errcode where "EXECUTOR_ERROR_INVALID_L1_DATA_V2_GLOBAL_EXIT_ROOT \<equiv> 99"
abbreviation (input) EXECUTOR_ERROR_INVALID_L1_DATA_V2_BLOCK_HASH_L1 :: errcode where "EXECUTOR_ERROR_INVALID_L1_DATA_V2_BLOCK_HASH_L1 \<equiv> 100"
abbreviation (input) EXECUTOR_ERROR_INVALID_L1_SMT_PROOF :: errcode where "EXECUTOR_ERROR_INVALID_L1_SMT_PROOF \<equiv> 101"
abbreviation (input) EXECUTOR_ERROR_INVALID_BALANCE :: errcode where "EXECUTOR_ERROR_INVALID_BALANCE \<equiv> 102"
abbreviation (input) EXECUTOR_ERROR_SM_MAIN_BINARY_LT4_MISMATCH :: errcode where "EXECUTOR_ERROR_SM_MAIN_BINARY_LT4_MISMATCH \<equiv> 103"
abbreviation (input) EXECUTOR_ERROR_INVALID_NEW_STATE_ROOT :: errcode where "EXECUTOR_ERROR_INVALID_NEW_STATE_ROOT \<equiv> 104"
abbreviation (input) EXECUTOR_ERROR_INVALID_NEW_ACC_INPUT_HASH :: errcode where "EXECUTOR_ERROR_INVALID_NEW_ACC_INPUT_HASH \<equiv> 105"
abbreviation (input) EXECUTOR_ERROR_INVALID_NEW_LOCAL_EXIT_ROOT :: errcode where "EXECUTOR_ERROR_INVALID_NEW_LOCAL_EXIT_ROOT \<equiv> 106"
abbreviation (input) EXECUTOR_ERROR_DB_KEY_NOT_FOUND :: errcode where "EXECUTOR_ERROR_DB_KEY_NOT_FOUND \<equiv> 107"
abbreviation (input) EXECUTOR_ERROR_SMT_INVALID_DATA_SIZE :: errcode where "EXECUTOR_ERROR_SMT_INVALID_DATA_SIZE \<equiv> 108"
abbreviation (input) EXECUTOR_ERROR_HASHDB_GRPC_ERROR :: errcode where "EXECUTOR_ERROR_HASHDB_GRPC_ERROR \<equiv> 109"
abbreviation (input) EXECUTOR_ERROR_STATE_MANAGER :: errcode where "EXECUTOR_ERROR_STATE_MANAGER \<equiv> 110"
abbreviation (input) EXECUTOR_ERROR_INVALID_L1_INFO_TREE_INDEX :: errcode where "EXECUTOR_ERROR_INVALID_L1_INFO_TREE_INDEX \<equiv> 111"
abbreviation (input) EXECUTOR_ERROR_INVALID_L1_INFO_TREE_SMT_PROOF_VALUE :: errcode where "EXECUTOR_ERROR_INVALID_L1_INFO_TREE_SMT_PROOF_VALUE \<equiv> 112"
abbreviation (input) EXECUTOR_ERROR_INVALID_WITNESS :: errcode where "EXECUTOR_ERROR_INVALID_WITNESS \<equiv> 113"
abbreviation (input) EXECUTOR_ERROR_INVALID_CBOR :: errcode where "EXECUTOR_ERROR_INVALID_CBOR \<equiv> 114"
abbreviation (input) EXECUTOR_ERROR_INVALID_DATA_STREAM :: errcode where "EXECUTOR_ERROR_INVALID_DATA_STREAM \<equiv> 115"
abbreviation (input) EXECUTOR_ERROR_INVALID_UPDATE_MERKLE_TREE :: errcode where "EXECUTOR_ERROR_INVALID_UPDATE_MERKLE_TREE \<equiv> 116"
abbreviation (input) EXECUTOR_ERROR_SM_MAIN_INVALID_TX_STATUS_ERROR :: errcode where "EXECUTOR_ERROR_SM_MAIN_INVALID_TX_STATUS_ERROR \<equiv> 117"

text \<open>The greatest 32 bit integer stands for a code that is not known.\<close>

definition ErrCodeExecutorUnknown :: errcode where "ErrCodeExecutorUnknown = 2 ^ 31 - 1"
definition ErrCodeROMUnknown :: errcode where "ErrCodeROMUnknown = 2 ^ 31 - 1"

section \<open>The translations\<close>

text \<open>A switch: the first case whose label equals the value, or the default.\<close>

fun switch :: "('a \<times> 'b) list \<Rightarrow> 'b \<Rightarrow> 'a \<Rightarrow> 'b" where
  "switch [] d x = d"
| "switch ((l, v) # cs) d x = (if x = l then v else switch cs d x)"

definition RomErr_cases :: "(errcode \<times> go_error) list" where
  "RomErr_cases = [
     (ROM_ERROR_UNSPECIFIED, ErrROMUnspecified),
     (ROM_ERROR_NO_ERROR, None),
     (ROM_ERROR_OUT_OF_GAS, ErrOutOfGas),
     (ROM_ERROR_STACK_OVERFLOW, ErrStackOverflow),
     (ROM_ERROR_STACK_UNDERFLOW, ErrStackUnderflow),
     (ROM_ERROR_MAX_CODE_SIZE_EXCEEDED, ErrMaxCodeSizeExceeded),
     (ROM_ERROR_CONTRACT_ADDRESS_COLLISION, ErrContractAddressCollision),
     (ROM_ERROR_EXECUTION_REVERTED, ErrExecutionReverted),
     (ROM_ERROR_OUT_OF_COUNTERS_STEP, ErrOutOfCountersStep),
     (ROM_ERROR_OUT_OF_COUNTERS_KECCAK, ErrOutOfCountersKeccak),
     (ROM_ERROR_OUT_OF_COUNTERS_BINARY, ErrOutOfCountersBinary),
     (ROM_ERROR_OUT_OF_COUNTERS_MEM, ErrOutOfCountersMemory),
     (ROM_ERROR_OUT_OF_COUNTERS_ARITH, ErrOutOfCountersArith),
     (ROM_ERROR_OUT_OF_COUNTERS_PADDING, ErrOutOfCountersPadding),
     (ROM_ERROR_OUT_OF_COUNTERS_POSEIDON, ErrOutOfCountersPoseidon),
     (ROM_ERROR_OUT_OF_COUNTERS_SHA, ErrOutOfCountersSha),
     (ROM_ERROR_INVALID_JUMP, ErrInvalidJump),
     (ROM_ERROR_INVALID_OPCODE, ErrInvalidOpCode),
     (ROM_ERROR_INVALID_STATIC, ErrInvalidStatic),
     (ROM_ERROR_INVALID_BYTECODE_STARTS_EF, ErrInvalidByteCodeStartsEF),
     (ROM_ERROR_INTRINSIC_INVALID_SIGNATURE, ErrIntrinsicInvalidSignature),
     (ROM_ERROR_INTRINSIC_INVALID_CHAIN_ID, ErrIntrinsicInvalidChainID),
     (ROM_ERROR_INTRINSIC_INVALID_NONCE, ErrIntrinsicInvalidNonce),
     (ROM_ERROR_INTRINSIC_INVALID_GAS_LIMIT, ErrIntrinsicInvalidGasLimit),
     (ROM_ERROR_INTRINSIC_INVALID_BALANCE, ErrIntrinsicInvalidBalance),
     (ROM_ERROR_INTRINSIC_INVALID_BATCH_GAS_LIMIT, ErrIntrinsicInvalidBatchGasLimit),
     (ROM_ERROR_INTRINSIC_INVALID_SENDER_CODE, ErrIntrinsicInvalidSenderCode),
     (ROM_ERROR_INTRINSIC_TX_GAS_OVERFLOW, ErrIntrinsicInvalidTxGasOverflow),
     (ROM_ERROR_BATCH_DATA_TOO_BIG, ErrBatchDataTooBig),
     (ROM_ERROR_UNSUPPORTED_FORK_ID, ErrUnsupportedForkId),
     (ROM_ERROR_INVALID_RLP, ErrInvalidRLP),
     (ROM_ERROR_INVALID_DECODE_CHANGE_L2_BLOCK, ErrInvalidDecodeChangeL2Block),
     (ROM_ERROR_INVALID_NOT_FIRST_TX_CHANGE_L2_BLOCK, ErrInvalidNotFirstTxChangeL2Block),
     (ROM_ERROR_INVALID_TX_CHANGE_L2_BLOCK_LIMIT_TIMESTAMP, ErrInvalidTxChangeL2BlockLimitTimestamp),
     (ROM_ERROR_INVALID_TX_CHANGE_L2_BLOCK_MIN_TIMESTAMP, ErrInvalidTxChangeL2BlockMinTimestamp)]"

definition RomErr :: "errcode \<Rightarrow> go_error" where
  "RomErr errorCode = switch RomErr_cases ErrROMUnknown errorCode"

definition RomErrorCode_cases :: "(go_error \<times> errcode) list" where
  "RomErrorCode_cases = [
     (None, ROM_ERROR_NO_ERROR),
     (ErrOutOfGas, ROM_ERROR_OUT_OF_GAS),
     (ErrStackOverflow, ROM_ERROR_STACK_OVERFLOW),
     (ErrStackUnderflow, ROM_ERROR_STACK_UNDERFLOW),
     (ErrMaxCodeSizeExceeded, ROM_ERROR_MAX_CODE_SIZE_EXCEEDED),
     (ErrContractAddressCollision, ROM_ERROR_CONTRACT_ADDRESS_COLLISION),
     (ErrExecutionReverted, ROM_ERROR_EXECUTION_REVERTED),
     (ErrOutOfCountersStep, ROM_ERROR_OUT_OF_COUNTERS_STEP),
     (ErrOutOfCountersKeccak, ROM_ERROR_OUT_OF_COUNTERS_KECCAK),
     (ErrOutOfCountersBinary, ROM_ERROR_OUT_OF_COUNTERS_BINARY),
     (ErrOutOfCountersMemory, ROM_ERROR_OUT_OF_COUNTERS_MEM),
     (ErrOutOfCountersArith, ROM_ERROR_OUT_OF_COUNTERS_ARITH),
     (ErrOutOfCountersPadding, ROM_ERROR_OUT_OF_COUNTERS_PADDING),
     (ErrOutOfCountersPoseidon, ROM_ERROR_OUT_OF_COUNTERS_POSEIDON),
     (ErrOutOfCountersSha, ROM_ERROR_OUT_OF_COUNTERS_SHA),
     (ErrInvalidJump, ROM_ERROR_INVALID_JUMP),
     (ErrInvalidOpCode, ROM_ERROR_INVALID_OPCODE),
     (ErrInvalidStatic, ROM_ERROR_INVALID_STATIC),
     (ErrInvalidByteCodeStartsEF, ROM_ERROR_INVALID_BYTECODE_STARTS_EF),
     (ErrIntrinsicInvalidSignature, ROM_ERROR_INTRINSIC_INVALID_SIGNATURE),
     (ErrIntrinsicInvalidChainID, ROM_ERROR_INTRINSIC_INVALID_CHAIN_ID),
     (ErrIntrinsicInvalidNonce, ROM_ERROR_INTRINSIC_INVALID_NONCE),
     (ErrIntrinsicInvalidGasLimit, ROM_ERROR_INTRINSIC_INVALID_GAS_LIMIT),
     (ErrIntrinsicInvalidBalance, ROM_ERROR_INTRINSIC_INVALID_BALANCE),
     (ErrIntrinsicInvalidBatchGasLimit, ROM_ERROR_INTRINSIC_INVALID_BATCH_GAS_LIMIT),
     (ErrIntrinsicInvalidSenderCode, ROM_ERROR_INTRINSIC_INVALID_SENDER_CODE),
     (ErrIntrinsicInvalidTxGasOverflow, ROM_ERROR_INTRINSIC_TX_GAS_OVERFLOW),
     (ErrBatchDataTooBig, ROM_ERROR_BATCH_DATA_TOO_BIG),
     (ErrUnsupportedForkId, ROM_ERROR_UNSUPPORTED_FORK_ID),
     (ErrInvalidRLP, ROM_ERROR_INVALID_RLP),
     (ErrInvalidDecodeChangeL2Block, ROM_ERROR_INVALID_DECODE_CHANGE_L2_BLOCK),
     (ErrInvalidNotFirstTxChangeL2Block, ROM_ERROR_INVALID_NOT_FIRST_TX_CHANGE_L2_BLOCK),
     (ErrInvalidTxChangeL2BlockLimitTimestamp, ROM_ERROR_INVALID_TX_CHANGE_L2_BLOCK_LIMIT_TIMESTAMP),
     (ErrInvalidTxChangeL2BlockMinTimestamp, ROM_ERROR_INVALID_TX_CHANGE_L2_BLOCK_MIN_TIMESTAMP)]"

definition RomErrorCode :: "go_error \<Rightarrow> errcode" where
  "RomErrorCode err = switch RomErrorCode_cases ErrCodeROMUnknown err"

definition ExecutorErr_cases_v1 :: "(errcode \<times> go_error) list" where
  "ExecutorErr_cases_v1 = [
     (EXECUTOR_ERROR_UNSPECIFIED, ErrExecutorUnspecified),
     (EXECUTOR_ERROR_NO_ERROR, None),
     (EXECUTOR_ERROR_DB_ERROR, ErrExecutorDBError),
     (EXECUTOR_ERROR_SM_MAIN_COUNTERS_OVERFLOW_STEPS, ErrExecutorSMMainCountersOverflowSteps),
     (EXECUTOR_ERROR_SM_MAIN_COUNTERS_OVERFLOW_KECCAK, ErrExecutorSMMainCountersOverflowKeccak),
     (EXECUTOR_ERROR_SM_MAIN_COUNTERS_OVERFLOW_BINARY, ErrExecutorSMMainCountersOverflowBinary),
     (EXECUTOR_ERROR_SM_MAIN_COUNTERS_OVERFLOW_MEM, ErrExecutorSMMainCountersOverflowMem),
     (EXECUTOR_ERROR_SM_MAIN_COUNTERS_OVERFLOW_ARITH, ErrExecutorSMMainCountersOverflowArith),
     (EXECUTOR_ERROR_SM_MAIN_COUNTERS_OVERFLOW_PADDING, ErrExecutorSMMainCountersOverflowPadding),
     (EXECUTOR_ERROR_SM_MAIN_COUNTERS_OVERFLOW_POSEIDON, ErrExecutorSMMainCountersOverflowPoseidon),
     (EXECUTOR_ERROR_UNSUPPORTED_FORK_ID, ErrExecutorUnsupportedForkId),
     (EXECUTOR_ERROR_BALANCE_MISMATCH, ErrExecutorBalanceMismatch),
     (EXECUTOR_ERROR_FEA2SCALAR, ErrExecutorFEA2Scalar),
     (EXECUTOR_ERROR_TOS32, ErrExecutorTOS32),
     (EXECUTOR_ERROR_SM_MAIN_INVALID_UNSIGNED_TX, ErrExecutorSMMainInvalidUnsignedTx),
     (EXECUTOR_ERROR_SM_MAIN_INVALID_NO_COUNTERS, ErrExecutorSMMainInvalidNoCounters),
     (EXECUTOR_ERROR_SM_MAIN_ARITH_ECRECOVER_DIVIDE_BY_ZERO, ErrExecutorSMMainArithECRecoverDivideByZero),
     (EXECUTOR_ERROR_SM_MAIN_ADDRESS_OUT_OF_RANGE, ErrExecutorSMMainAddressOutOfRange),
     (EXECUTOR_ERROR_SM_MAIN_ADDRESS_NEGATIVE, ErrExecutorSMMainAddressNegative),
     (EXECUTOR_ERROR_SM_MAIN_STORAGE_INVALID_KEY, ErrExecutorSMMainStorageInvalidKey),
     (EXECUTOR_ERROR_SM_MAIN_HASHK, ErrExecutorSMMainHashK),
     (EXECUTOR_ERROR_SM_MAIN_HASHK_SIZE_OUT_OF_RANGE, ErrExecutorSMMainHashKSizeOutOfRange),
     (EXECUTOR_ERROR_SM_MAIN_HASHK_POSITION_NEGATIVE, ErrExecutorSMMainHashKPositionNegative),
     (EXECUTOR_ERROR_SM_MAIN_HASHK_POSITION_PLUS_SIZE_OUT_OF_RANGE, ErrExecutorSMMainHashKPositionPlusSizeOutOfRange),
     (EXECUTOR_ERROR_SM_MAIN_HASHKDIGEST_ADDRESS_NOT_FOUND, ErrExecutorSMMainHashKDigestAddressNotFound),
     (EXECUTOR_ERROR_SM_MAIN_HASHKDIGEST_NOT_COMPLETED, ErrExecutorSMMainHashKDigestNotCompleted),
     (EXECUTOR_ERROR_SM_MAIN_HASHP, ErrExecutorSMMainHashP),
     (EXECUTOR_ERROR_SM_MAIN_HASHP_SIZE_OUT_OF_RANGE, ErrExecutorSMMainHashPSizeOutOfRange),
     (EXECUTOR_ERROR_SM_MAIN_HASHP_POSITION_NEGATIVE, ErrExecutorSMMainHashPPositionNegative),
     (EXECUTOR_ERROR_SM_MAIN_HASHP_POSITION_PLUS_SIZE_OUT_OF_RANGE, ErrExecutorSMMainHashPPositionPlusSizeOutOfRange),
     (EXECUTOR_ERROR_SM_MAIN_HASHPDIGEST_ADDRESS_NOT_FOUND, ErrExecutorSMMainHashPDigestAddressNotFound),
     (EXECUTOR_ERROR_SM_MAIN_HASHPDIGEST_NOT_COMPLETED, ErrExecutorSMMainHashPDigestNotCompleted),
     (EXECUTOR_ERROR_SM_MAIN_MEMALIGN_OFFSET_OUT_OF_RANGE, ErrExecutorSMMainMemAlignOffsetOutOfRange),
     (EXECUTOR_ERROR_SM_MAIN_MULTIPLE_FREEIN, ErrExecutorSMMainMultipleFreeIn),
     (EXECUTOR_ERROR_SM_MAIN_ASSERT, ErrExecutorSMMainAssert),
     (EXECUTOR_ERROR_SM_MAIN_MEMORY, ErrExecutorSMMainMemory),
     (EXECUTOR_ERROR_SM_MAIN_STORAGE_READ_MISMATCH, ErrExecutorSMMainStorageReadMismatch),
     (EXECUTOR_ERROR_SM_MAIN_STORAGE_WRITE_MISMATCH, ErrExecutorSMMainStorageWriteMismatch),
     (EXECUTOR_ERROR_SM_MAIN_HASHK_VALUE_MISMATCH, ErrExecutorSMMainHashKValueMismatch),
     (EXECUTOR_ERROR_SM_MAIN_HASHK_PADDING_MISMATCH, ErrExecutorSMMainHashKPaddingMismatch),
     (EXECUTOR_ERROR_SM_MAIN_HASHK_SIZE_MISMATCH, ErrExecutorSMMainHashKSizeMismatch),
     (EXECUTOR_ERROR_SM_MAIN_HASHKLEN_LENGTH_MISMATCH, ErrExecutorSMMainHashKLenLengthMismatch),
     (EXECUTOR_ERROR_SM_MAIN_HASHKLEN_CALLED_TWICE, ErrExecutorSMMainHashKLenCalledTwice),
     (EXECUTOR_ERROR_SM_MAIN_HASHKDIGEST_NOT_FOUND, ErrExecutorSMMainHashKDigestNotFound),
     (EXECUTOR_ERROR_SM_MAIN_HASHKDIGEST_DIGEST_MISMATCH, ErrExecutorSMMainHashKDigestDigestMismatch),
     (EXECUTOR_ERROR_SM_MAIN_HASHKDIGEST_CALLED_TWICE, ErrExecutorSMMainHashKDigestCalledTwice),
     (EXECUTOR_ERROR_SM_MAIN_HASHP_VALUE_MISMATCH, ErrExecutorSMMainHashPValueMismatch),
     (EXECUTOR_ERROR_SM_MAIN_HASHP_PADDING_MISMATCH, ErrExecutorSMMainHashPPaddingMismatch),
     (EXECUTOR_ERROR_SM_MAIN_HASHP_SIZE_MISMATCH, ErrExecutorSMMainHashPSizeMismatch),
     (EXECUTOR_ERROR_SM_MAIN_HASHPLEN_LENGTH_MISMATCH, ErrExecutorSMMainHashPLenLengthMismatch),
     (EXECUTOR_ERROR_SM_MAIN_HASHPLEN_CALLED_TWICE, ErrExecutorSMMainHashPLenCalledTwice),
     (EXECUTOR_ERROR_SM_MAIN_HASHPDIGEST_DIGEST_MISMATCH, ErrExecutorSMMainHashPDigestDigestMismatch),
     (EXECUTOR_ERROR_SM_MAIN_HASHPDIGEST_CALLED_TWICE, ErrExecutorSMMainHashPDigestCalledTwice),
     (EXECUTOR_ERROR_SM_MAIN_ARITH_MISMATCH, ErrExecutorSMMainArithMismatch),
     (EXECUTOR_ERROR_SM_MAIN_ARITH_ECRECOVER_MISMATCH, ErrExecutorSMMainArithECRecoverMismatch),
     (EXECUTOR_ERROR_SM_MAIN_BINARY_ADD_MISMATCH, ErrExecutorSMMainBinaryAddMismatch),
     (EXECUTOR_ERROR_SM_MAIN_BINARY_SUB_MISMATCH, ErrExecutorSMMainBinarySubMismatch),
     (EXECUTOR_ERROR_SM_MAIN_BINARY_LT_MISMATCH, ErrExecutorSMMainBinaryLtMismatch),
     (EXECUTOR_ERROR_SM_MAIN_BINARY_SLT_MISMATCH, ErrExecutorSMMainBinarySLtMismatch),
     (EXECUTOR_ERROR_SM_MAIN_BINARY_EQ_MISMATCH, ErrExecutorSMMainBinaryEqMismatch),
     (EXECUTOR_ERROR_SM_MAIN_BINARY_AND_MISMATCH, ErrExecutorSMMainBinaryAndMismatch),
     (EXECUTOR_ERROR_SM_MAIN_BINARY_OR_MISMATCH, ErrExecutorSMMainBinaryOrMismatch),
     (EXECUTOR_ERROR_SM_MAIN_BINARY_XOR_MISMATCH, ErrExecutorSMMainBinaryXorMismatch),
     (EXECUTOR_ERROR_SM_MAIN_MEMALIGN_WRITE_MISMATCH, ErrExecutorSMMainMemAlignWriteMismatch),
     (EXECUTOR_ERROR_SM_MAIN_MEMALIGN_WRITE8_MISMATCH, ErrExecutorSMMainMemAlignWrite8Mismatch),
     (EXECUTOR_ERROR_SM_MAIN_MEMALIGN_READ_MISMATCH, ErrExecutorSMMainMemAlignReadMismatch),
     (EXECUTOR_ERROR_SM_MAIN_JMPN_OUT_OF_RANGE, ErrExecutorSMMainJmpnOutOfRange),
     (EXECUTOR_ERROR_SM_MAIN_HASHK_READ_OUT_OF_RANGE, ErrExecutorSMMainHashKReadOutOfRange),
     (EXECUTOR_ERROR_SM_MAIN_HASHP_READ_OUT_OF_RANGE, ErrExecutorSMMainHashPReadOutOfRange),
     (EXECUTOR_ERROR_INVALID_OLD_STATE_ROOT, ErrExecutorErrorInvalidOldStateRoot),
     (EXECUTOR_ERROR_INVALID_OLD_ACC_INPUT_HASH, ErrExecutorErrorInvalidOldAccInputHash),
     (EXECUTOR_ERROR_INVALID_CHAIN_ID, ErrExecutorErrorInvalidChainId),
     (EXECUTOR_ERROR_INVALID_BATCH_L2_DATA, ErrExecutorErrorInvalidBatchL2Data),
     (EXECUTOR_ERROR_INVALID_GLOBAL_EXIT_ROOT, ErrExecutorErrorInvalidGlobalExitRoot),
     (EXECUTOR_ERROR_INVALID_COINBASE, ErrExecutorErrorInvalidCoinbase),
     (EXECUTOR_ERROR_INVALID_FROM, ErrExecutorErrorInvalidFrom),
     (EXECUTOR_ERROR_INVALID_DB_KEY, ErrExecutorErrorInvalidDbKey),
     (EXECUTOR_ERROR_INVALID_DB_VALUE, ErrExecutorErrorInvalidDbValue),
     (EXECUTOR_ERROR_INVALID_CONTRACTS_BYTECODE_KEY, ErrExecutorErrorInvalidContractsBytecodeKey),
     (EXECUTOR_ERROR_INVALID_CONTRACTS_BYTECODE_VALUE, ErrExecutorErrorInvalidContractsBytecodeValue),
     (EXECUTOR_ERROR_INVALID_GET_KEY, ErrExecutorErrorInvalidGetKey)]"

definition ExecutorErr_cases_v2 :: "(errcode \<times> go_error) list" where
  "ExecutorErr_cases_v2 = [
     (EXECUTOR_ERROR_SM_MAIN_COUNTERS_OVERFLOW_SHA256, ErrExecutorSMMainCountersOverflowSha256),
     (EXECUTOR_ERROR_SM_MAIN_HASHS, ErrExecutorSMMainHashS),
     (EXECUTOR_ERROR_SM_MAIN_HASHS_SIZE_OUT_OF_RANGE, ErrExecutorSMMainHashSSizeOutOfRange),
     (EXECUTOR_ERROR_SM_MAIN_HASHS_POSITION_NEGATIVE, ErrExecutorSMMainHashSPositionNegative),
     (EXECUTOR_ERROR_SM_MAIN_HASHS_POSITION_PLUS_SIZE_OUT_OF_RANGE, ErrExecutorSMMainHashSPositionPlusSizeOutOfRange),
     (EXECUTOR_ERROR_SM_MAIN_HASHSDIGEST_ADDRESS_NOT_FOUND, ErrExecutorSMMainHashSDigestAddressNotFound),
     (EXECUTOR_ERROR_SM_MAIN_HASHSDIGEST_NOT_COMPLETED, ErrExecutorSMMainHashSDigestNotCompleted),
     (EXECUTOR_ERROR_SM_MAIN_HASHS_VALUE_MISMATCH, ErrExecutorSMMainHashSValueMismatch),
     (EXECUTOR_ERROR_SM_MAIN_HASHS_PADDING_MISMATCH, ErrExecutorSMMainHashSPaddingMismatch),
     (EXECUTOR_ERROR_SM_MAIN_HASHS_SIZE_MISMATCH, ErrExecutorSMMainHashSSizeMismatch),
     (EXECUTOR_ERROR_SM_MAIN_HASHSLEN_LENGTH_MISMATCH, ErrExecutorSMMainHashSLenLengthMismatch),
     (EXECUTOR_ERROR_SM_MAIN_HASHSLEN_CALLED_TWICE, ErrExecutorSMMainHashSLenCalledTwice),
     (EXECUTOR_ERROR_SM_MAIN_HASHSDIGEST_NOT_FOUND, ErrExecutorSMMainHashSDigestNotFound),
     (EXECUTOR_ERROR_SM_MAIN_HASHSDIGEST_DIGEST_MISMATCH, ErrExecutorSMMainHashSDigestDigestMismatch),
     (EXECUTOR_ERROR_SM_MAIN_HASHSDIGEST_CALLED_TWICE, ErrExecutorSMMainHashSDigestCalledTwice),
     (EXECUTOR_ERROR_SM_MAIN_HASHS_READ_OUT_OF_RANGE, ErrExecutorSMMainHashSReadOutOfRange),
     (EXECUTOR_ERROR_INVALID_L1_INFO_ROOT, ErrExecutorErrorInvalidL1InfoRoot),
     (EXECUTOR_ERROR_INVALID_FORCED_BLOCKHASH_L1, ErrExecutorErrorInvalidForcedBlockhashL1),
     (EXECUTOR_ERROR_INVALID_L1_DATA_V2_GLOBAL_EXIT_ROOT, ErrExecutorErrorInvalidL1DataV2GlobalExitRoot),
     (EXECUTOR_ERROR_INVALID_L1_DATA_V2_BLOCK_HASH_L1, ErrExecutorErrorInvalidL1DataV2BlockHashL1),
     (EXECUTOR_ERROR_INVALID_L1_SMT_PROOF, ErrExecutorErrorInvalidL1SmtProof),
     (EXECUTOR_ERROR_INVALID_BALANCE, ErrExecutorErrorInvalidBalance),
     (EXECUTOR_ERROR_SM_MAIN_BINARY_LT4_MISMATCH, ErrExecutorErrorSMMainBinaryLt4Mismatch),
     (EXECUTOR_ERROR_INVALID_NEW_STATE_ROOT, ErrExecutorErrorInvalidNewStateRoot),
     (EXECUTOR_ERROR_INVALID_NEW_ACC_INPUT_HASH, ErrExecutorErrorInvalidNewAccInputHash),
     (EXECUTOR_ERROR_INVALID_NEW_LOCAL_EXIT_ROOT, ErrExecutorErrorInvalidNewLocalExitRoot),
     (EXECUTOR_ERROR_DB_KEY_NOT_FOUND, ErrExecutorErrorDBKeyNotFound),
     (EXECUTOR_ERROR_SMT_INVALID_DATA_SIZE, ErrExecutorErrorSMTInvalidDataSize),
     (EXECUTOR_ERROR_HASHDB_GRPC_ERROR, ErrExecutorErrorHashDBGRPCError),
     (EXECUTOR_ERROR_STATE_MANAGER, ErrExecutorErrorStateManager),
     (EXECUTOR_ERROR_INVALID_L1_INFO_TREE_INDEX, ErrExecutorErrorInvalidL1InfoTreeIndex),
     (EXECUTOR_ERROR_INVALID_L1_INFO_TREE_SMT_PROOF_VALUE, ErrExecutorErrorInvalidL1InfoTreeSmtProofValue),
     (EXECUTOR_ERROR_INVALID_WITNESS, ErrExecutorErrorInvalidWitness),
     (EXECUTOR_ERROR_INVALID_CBOR, ErrExecutorErrorInvalidCBOR),
     (EXECUTOR_ERROR_INVALID_DATA_STREAM, ErrExecutorErrorInvalidDataStream),
     (EXECUTOR_ERROR_INVALID_UPDATE_MERKLE_TREE, ErrExecutorErrorInvalidUpdateMerkleTree),
     (EXECUTOR_ERROR_SM_MAIN_INVALID_TX_STATUS_ERROR, ErrExecutorErrorSMMainInvalidTxStatusError)]"

definition ExecutorErr :: "errcode \<Rightarrow> go_error" where
  "ExecutorErr errorCode = switch (ExecutorErr_cases_v1 @ ExecutorErr_cases_v2) ErrExecutorUnknown errorCode"

definition ExecutorErrorCode_cases_v1 :: "(go_error \<times> errcode) list" where
  "ExecutorErrorCode_cases_v1 = [
     (None, EXECUTOR_ERROR_NO_ERROR),
     (ErrExecutorDBError, EXECUTOR_ERROR_DB_ERROR),
     (ErrExecutorSMMainCountersOverflowSteps, EXECUTOR_ERROR_SM_MAIN_COUNTERS_OVERFLOW_STEPS),
     (ErrExecutorSMMainCountersOverflowKeccak, EXECUTOR_ERROR_SM_MAIN_COUNTERS_OVERFLOW_KECCAK),
     (ErrExecutorSMMainCountersOverflowBinary, EXECUTOR_ERROR_SM_MAIN_COUNTERS_OVERFLOW_BINARY),
     (ErrExecutorSMMainCountersOverflowMem, EXECUTOR_ERROR_SM_MAIN_COUNTERS_OVERFLOW_MEM),
     (ErrExecutorSMMainCountersOverflowArith, EXECUTOR_ERROR_SM_MAIN_COUNTERS_OVERFLOW_ARITH),
     (ErrExecutorSMMainCountersOverflowPadding, EXECUTOR_ERROR_SM_MAIN_COUNTERS_OVERFLOW_PADDING),
     (ErrExecutorSMMainCountersOverflowPoseidon, EXECUTOR_ERROR_SM_MAIN_COUNTERS_OVERFLOW_POSEIDON),
     (ErrExecutorUnsupportedForkId, EXECUTOR_ERROR_UNSUPPORTED_FORK_ID),
     (ErrExecutorBalanceMismatch, EXECUTOR_ERROR_BALANCE_MISMATCH),
     (ErrExecutorFEA2Scalar, EXECUTOR_ERROR_FEA2SCALAR),
     (ErrExecutorTOS32, EXECUTOR_ERROR_TOS32),
     (ErrExecutorSMMainInvalidUnsignedTx, EXECUTOR_ERROR_SM_MAIN_INVALID_UNSIGNED_TX),
     (ErrExecutorSMMainInvalidNoCounters, EXECUTOR_ERROR_SM_MAIN_INVALID_NO_COUNTERS),
     (ErrExecutorSMMainArithECRecoverDivideByZero, EXECUTOR_ERROR_SM_MAIN_ARITH_ECRECOVER_DIVIDE_BY_ZERO),
     (ErrExecutorSMMainAddressOutOfRange, EXECUTOR_ERROR_SM_MAIN_ADDRESS_OUT_OF_RANGE),
     (ErrExecutorSMMainAddressNegative, EXECUTOR_ERROR_SM_MAIN_ADDRESS_NEGATIVE),
     (ErrExecutorSMMainStorageInvalidKey, EXECUTOR_ERROR_SM_MAIN_STORAGE_INVALID_KEY),
     (ErrExecutorSMMainHashK, EXECUTOR_ERROR_SM_MAIN_HASHK),
     (ErrExecutorSMMainHashKSizeOutOfRange, EXECUTOR_ERROR_SM_MAIN_HASHK_SIZE_OUT_OF_RANGE),
     (ErrExecutorSMMainHashKPositionNegative, EXECUTOR_ERROR_SM_MAIN_HASHK_POSITION_NEGATIVE),
     (ErrExecutorSMMainHashKPositionPlusSizeOutOfRange, EXECUTOR_ERROR_SM_MAIN_HASHK_POSITION_PLUS_SIZE_OUT_OF_RANGE),
     (ErrExecutorSMMainHashKDigestAddressNotFound, EXECUTOR_ERROR_SM_MAIN_HASHKDIGEST_ADDRESS_NOT_FOUND),
     (ErrExecutorSMMainHashKDigestNotCompleted, EXECUTOR_ERROR_SM_MAIN_HASHKDIGEST_NOT_COMPLETED),
     (ErrExecutorSMMainHashP, EXECUTOR_ERROR_SM_MAIN_HASHP),
     (ErrExecutorSMMainHashPSizeOutOfRange, EXECUTOR_ERROR_SM_MAIN_HASHP_SIZE_OUT_OF_RANGE),
     (ErrExecutorSMMainHashPPositionNegative, EXECUTOR_ERROR_SM_MAIN_HASHP_POSITION_NEGATIVE),
     (ErrExecutorSMMainHashPPositionPlusSizeOutOfRange, EXECUTOR_ERROR_SM_MAIN_HASHP_POSITION_PLUS_SIZE_OUT_OF_RANGE),
     (ErrExecutorSMMainHashPDigestAddressNotFound, EXECUTOR_ERROR_SM_MAIN_HASHPDIGEST_ADDRESS_NOT_FOUND),
     (ErrExecutorSMMainHashPDigestNotCompleted, EXECUTOR_ERROR_SM_MAIN_HASHPDIGEST_NOT_COMPLETED),
     (ErrExecutorSMMainMemAlignOffsetOutOfRange, EXECUTOR_ERROR_SM_MAIN_MEMALIGN_OFFSET_OUT_OF_RANGE),
     (ErrExecutorSMMainMultipleFreeIn, EXECUTOR_ERROR_SM_MAIN_MULTIPLE_FREEIN),
     (ErrExecutorSMMainAssert, EXECUTOR_ERROR_SM_MAIN_ASSERT),
     (ErrExecutorSMMainMemory, EXECUTOR_ERROR_SM_MAIN_MEMORY),
     (ErrExecutorSMMainStorageReadMismatch, EXECUTOR_ERROR_SM_MAIN_STORAGE_READ_MISMATCH),
     (ErrExecutorSMMainStorageWriteMismatch, EXECUTOR_ERROR_SM_MAIN_STORAGE_WRITE_MISMATCH),
     (ErrExecutorSMMainHashKValueMismatch, EXECUTOR_ERROR_SM_MAIN_HASHK_VALUE_MISMATCH),
     (ErrExecutorSMMainHashKPaddingMismatch, EXECUTOR_ERROR_SM_MAIN_HASHK_PADDING_MISMATCH),
     (ErrExecutorSMMainHashKSizeMismatch, EXECUTOR_ERROR_SM_MAIN_HASHK_SIZE_MISMATCH),
     (ErrExecutorSMMainHashKLenLengthMismatch, EXECUTOR_ERROR_SM_MAIN_HASHKLEN_LENGTH_MISMATCH),
     (ErrExecutorSMMainHashKLenCalledTwice, EXECUTOR_ERROR_SM_MAIN_HASHKLEN_CALLED_TWICE),
     (ErrExecutorSMMainHashKDigestNotFound, EXECUTOR_ERROR_SM_MAIN_HASHKDIGEST_NOT_FOUND),
     (ErrExecutorSMMainHashKDigestDigestMismatch, EXECUTOR_ERROR_SM_MAIN_HASHKDIGEST_DIGEST_MISMATCH),
     (ErrExecutorSMMainHashKDigestCalledTwice, EXECUTOR_ERROR_SM_MAIN_HASHKDIGEST_CALLED_TWICE),
     (ErrExecutorSMMainHashPValueMismatch, EXECUTOR_ERROR_SM_MAIN_HASHP_VALUE_MISMATCH),
     (ErrExecutorSMMainHashPPaddingMismatch, EXECUTOR_ERROR_SM_MAIN_HASHP_PADDING_MISMATCH),
     (ErrExecutorSMMainHashPSizeMismatch, EXECUTOR_ERROR_SM_MAIN_HASHP_SIZE_MISMATCH),
     (ErrExecutorSMMainHashPLenLengthMismatch, EXECUTOR_ERROR_SM_MAIN_HASHPLEN_LENGTH_MISMATCH),
     (ErrExecutorSMMainHashPLenCalledTwice, EXECUTOR_ERROR_SM_MAIN_HASHPLEN_CALLED_TWICE),
     (ErrExecutorSMMainHashPDigestDigestMismatch, EXECUTOR_ERROR_SM_MAIN_HASHPDIGEST_DIGEST_MISMATCH),
     (ErrExecutorSMMainHashPDigestCalledTwice, EXECUTOR_ERROR_SM_MAIN_HASHPDIGEST_CALLED_TWICE),
     (ErrExecutorSMMainArithMismatch, EXECUTOR_ERROR_SM_MAIN_ARITH_MISMATCH),
     (ErrExecutorSMMainArithECRecoverMismatch, EXECUTOR_ERROR_SM_MAIN_ARITH_ECRECOVER_MISMATCH),
     (ErrExecutorSMMainBinaryAddMismatch, EXECUTOR_ERROR_SM_MAIN_BINARY_ADD_MISMATCH),
     (ErrExecutorSMMainBinarySubMismatch, EXECUTOR_ERROR_SM_MAIN_BINARY_SUB_MISMATCH),
     (ErrExecutorSMMainBinaryLtMismatch, EXECUTOR_ERROR_SM_MAIN_BINARY_LT_MISMATCH),
     (ErrExecutorSMMainBinarySLtMismatch, EXECUTOR_ERROR_SM_MAIN_BINARY_SLT_MISMATCH),
     (ErrExecutorSMMainBinaryEqMismatch, EXECUTOR_ERROR_SM_MAIN_BINARY_EQ_MISMATCH),
     (ErrExecutorSMMainBinaryAndMismatch, EXECUTOR_ERROR_SM_MAIN_BINARY_AND_MISMATCH),
     (ErrExecutorSMMainBinaryOrMismatch, EXECUTOR_ERROR_SM_MAIN_BINARY_OR_MISMATCH),
     (ErrExecutorSMMainBinaryXorMismatch, EXECUTOR_ERROR_SM_MAIN_BINARY_XOR_MISMATCH),
     (ErrExecutorSMMainMemAlignWriteMismatch, EXECUTOR_ERROR_SM_MAIN_MEMALIGN_WRITE_MISMATCH),
     (ErrExecutorSMMainMemAlignWrite8Mismatch, EXECUTOR_ERROR_SM_MAIN_MEMALIGN_WRITE8_MISMATCH),
     (ErrExecutorSMMainMemAlignReadMismatch, EXECUTOR_ERROR_SM_MAIN_MEMALIGN_READ_MISMATCH),
     (ErrExecutorSMMainJmpnOutOfRange, EXECUTOR_ERROR_SM_MAIN_JMPN_OUT_OF_RANGE),
     (ErrExecutorSMMainHashKReadOutOfRange, EXECUTOR_ERROR_SM_MAIN_HASHK_READ_OUT_OF_RANGE),
     (ErrExecutorSMMainHashPReadOutOfRange, EXECUTOR_ERROR_SM_MAIN_HASHP_READ_OUT_OF_RANGE),
     (ErrExecutorErrorInvalidOldStateRoot, EXECUTOR_ERROR_INVALID_OLD_STATE_ROOT),
     (ErrExecutorErrorInvalidOldAccInputHash, EXECUTOR_ERROR_INVALID_OLD_ACC_INPUT_HASH),
     (ErrExecutorErrorInvalidChainId, EXECUTOR_ERROR_INVALID_CHAIN_ID),
     (ErrExecutorErrorInvalidBatchL2Data, EXECUTOR_ERROR_INVALID_BATCH_L2_DATA),
     (ErrExecutorErrorInvalidGlobalExitRoot, EXECUTOR_ERROR_INVALID_GLOBAL_EXIT_ROOT),
     (ErrExecutorErrorInvalidCoinbase, EXECUTOR_ERROR_INVALID_COINBASE),
     (ErrExecutorErrorInvalidFrom, EXECUTOR_ERROR_INVALID_FROM),
     (ErrExecutorErrorInvalidDbKey, EXECUTOR_ERROR_INVALID_DB_KEY),
     (ErrExecutorErrorInvalidDbValue, EXECUTOR_ERROR_INVALID_DB_VALUE),
     (ErrExecutorErrorInvalidContractsBytecodeKey, EXECUTOR_ERROR_INVALID_CONTRACTS_BYTECODE_KEY),
     (ErrExecutorErrorInvalidContractsBytecodeValue, EXECUTOR_ERROR_INVALID_CONTRACTS_BYTECODE_VALUE),
     (ErrExecutorErrorInvalidGetKey, EXECUTOR_ERROR_INVALID_GET_KEY)]"

definition ExecutorErrorCode_cases_v2 :: "(go_error \<times> errcode) list" where
  "ExecutorErrorCode_cases_v2 = [
     (ErrExecutorSMMainCountersOverflowSha256, EXECUTOR_ERROR_SM_MAIN_COUNTERS_OVERFLOW_SHA256),
     (ErrExecutorSMMainHashS, EXECUTOR_ERROR_SM_MAIN_HASHS),
     (ErrExecutorSMMainHashSSizeOutOfRange, EXECUTOR_ERROR_SM_MAIN_HASHS_SIZE_OUT_OF_RANGE),
     (ErrExecutorSMMainHashSPositionNegative, EXECUTOR_ERROR_SM_MAIN_HASHS_POSITION_NEGATIVE),
     (ErrExecutorSMMainHashSPositionPlusSizeOutOfRange, EXECUTOR_ERROR_SM_MAIN_HASHS_POSITION_PLUS_SIZE_OUT_OF_RANGE),
     (ErrExecutorSMMainHashSDigestAddressNotFound, EXECUTOR_ERROR_SM_MAIN_HASHSDIGEST_ADDRESS_NOT_FOUND),
     (ErrExecutorSMMainHashSDigestNotCompleted, EXECUTOR_ERROR_SM_MAIN_HASHSDIGEST_NOT_COMPLETED),
     (ErrExecutorSMMainHashSValueMismatch, EXECUTOR_ERROR_SM_MAIN_HASHS_VALUE_MISMATCH),
     (ErrExecutorSMMainHashSPaddingMismatch, EXECUTOR_ERROR_SM_MAIN_HASHS_PADDING_MISMATCH),
     (ErrExecutorSMMainHashSSizeMismatch, EXECUTOR_ERROR_SM_MAIN_HASHS_SIZE_MISMATCH),
     (ErrExecutorSMMainHashSLenLengthMismatch, EXECUTOR_ERROR_SM_MAIN_HASHSLEN_LENGTH_MISMATCH),
     (ErrExecutorSMMainHashSLenCalledTwice, EXECUTOR_ERROR_SM_MAIN_HASHSLEN_CALLED_TWICE),
     (ErrExecutorSMMainHashSDigestNotFound, EXECUTOR_ERROR_SM_MAIN_HASHSDIGEST_NOT_FOUND),
     (ErrExecutorSMMainHashSDigestDigestMismatch, EXECUTOR_ERROR_SM_MAIN_HASHSDIGEST_DIGEST_MISMATCH),
     (ErrExecutorSMMainHashSDigestCalledTwice, EXECUTOR_ERROR_SM_MAIN_HASHSDIGEST_CALLED_TWICE),
     (ErrExecutorSMMainHashSReadOutOfRange, EXECUTOR_ERROR_SM_MAIN_HASHS_READ_OUT_OF_RANGE),
     (ErrExecutorErrorInvalidL1InfoRoot, EXECUTOR_ERROR_INVALID_L1_INFO_ROOT),
     (ErrExecutorErrorInvalidForcedBlockhashL1, EXECUTOR_ERROR_INVALID_FORCED_BLOCKHASH_L1),
     (ErrExecutorErrorInvalidL1DataV2GlobalExitRoot, EXECUTOR_ERROR_INVALID_L1_DATA_V2_GLOBAL_EXIT_ROOT),
     (ErrExecutorErrorInvalidL1DataV2BlockHashL1, EXECUTOR_ERROR_INVALID_L1_DATA_V2_BLOCK_HASH_L1),
     (ErrExecutorErrorInvalidL1SmtProof, EXECUTOR_ERROR_INVALID_L1_SMT_PROOF),
     (ErrExecutorErrorInvalidBalance, EXECUTOR_ERROR_INVALID_BALANCE),
     (ErrExecutorErrorSMMainBinaryLt4Mismatch, EXECUTOR_ERROR_SM_MAIN_BINARY_LT4_MISMATCH),
     (ErrExecutorErrorInvalidNewStateRoot, EXECUTOR_ERROR_INVALID_NEW_STATE_ROOT),
     (ErrExecutorErrorInvalidNewAccInputHash, EXECUTOR_ERROR_INVALID_NEW_ACC_INPUT_HASH),
     (ErrExecutorErrorInvalidNewLocalExitRoot, EXECUTOR_ERROR_INVALID_NEW_LOCAL_EXIT_ROOT),
     (ErrExecutorErrorDBKeyNotFound, EXECUTOR_ERROR_DB_KEY_NOT_FOUND),
     (ErrExecutorErrorSMTInvalidDataSize, EXECUTOR_ERROR_SMT_INVALID_DATA_SIZE),
     (ErrExecutorErrorHashDBGRPCError, EXECUTOR_ERROR_HASHDB_GRPC_ERROR),
     (ErrExecutorErrorStateManager, EXECUTOR_ERROR_STATE_MANAGER),
     (ErrExecutorErrorInvalidL1InfoTreeIndex, EXECUTOR_ERROR_INVALID_L1_INFO_TREE_INDEX),
     (ErrExecutorErrorInvalidL1InfoTreeSmtProofValue, EXECUTOR_ERROR_INVALID_L1_INFO_TREE_SMT_PROOF_VALUE),
     (ErrExecutorErrorInvalidWitness, EXECUTOR_ERROR_INVALID_WITNESS),
     (ErrExecutorErrorInvalidCBOR, EXECUTOR_ERROR_INVALID_CBOR),
     (ErrExecutorErrorInvalidDataStream, EXECUTOR_ERROR_INVALID_DATA_STREAM),
     (ErrExecutorErrorInvalidUpdateMerkleTree, EXECUTOR_ERROR_INVALID_UPDATE_MERKLE_TREE),
     (ErrExecutorErrorSMMainInvalidTxStatusError, EXECUTOR_ERROR_SM_MAIN_INVALID_TX_STATUS_ERROR)]"

definition ExecutorErrorCode :: "go_error \<Rightarrow> errcode" where
  "ExecutorErrorCode err = switch (ExecutorErrorCode_cases_v1 @ ExecutorErrorCode_cases_v2) ErrCodeExecutorUnknown err"

section \<open>Classes of codes\<close>

definition IsROMOutOfCountersError :: "errcode \<Rightarrow> bool" where
  "IsROMOutOfCountersError e \<longleftrightarrow> e \<ge> ROM_ERROR_OUT_OF_COUNTERS_STEP \<and> e \<le> ROM_ERROR_OUT_OF_COUNTERS_SHA"

definition IsROMOutOfGasError :: "errcode \<Rightarrow> bool" where
  "IsROMOutOfGasError e \<longleftrightarrow> e = ROM_ERROR_OUT_OF_GAS"

definition IsExecutorCountersOverflowError :: "errcode \<Rightarrow> bool" where
  "IsExecutorCountersOverflowError e \<longleftrightarrow>
     (e \<ge> EXECUTOR_ERROR_SM_MAIN_COUNTERS_OVERFLOW_STEPS \<and> e \<le> EXECUTOR_ERROR_SM_MAIN_COUNTERS_OVERFLOW_POSEIDON) \<or>
     e = EXECUTOR_ERROR_SM_MAIN_COUNTERS_OVERFLOW_SHA256"

definition IsExecutorUnspecifiedError :: "errcode \<Rightarrow> bool" where
  "IsExecutorUnspecifiedError e \<longleftrightarrow> e = EXECUTOR_ERROR_UNSPECIFIED"

definition IsIntrinsicError :: "errcode \<Rightarrow> bool" where
  "IsIntrinsicError e \<longleftrightarrow> e \<ge> ROM_ERROR_INTRINSIC_INVALID_SIGNATURE \<and> e \<le> ROM_ERROR_INTRINSIC_TX_GAS_OVERFLOW"

definition IsInvalidNonceError :: "errcode \<Rightarrow> bool" where
  "IsInvalidNonceError e \<longleftrightarrow> e = ROM_ERROR_INTRINSIC_INVALID_NONCE"

definition IsInvalidBalanceError :: "errcode \<Rightarrow> bool" where
  "IsInvalidBalanceError e \<longleftrightarrow> e = ROM_ERROR_INTRINSIC_INVALID_BALANCE"

definition IsInvalidL2Block :: "errcode \<Rightarrow> bool" where
  "IsInvalidL2Block e \<longleftrightarrow> e \<ge> ROM_ERROR_INVALID_DECODE_CHANGE_L2_BLOCK \<and> e \<le> ROM_ERROR_INVALID_TX_CHANGE_L2_BLOCK_MIN_TIMESTAMP"

text \<open>\<open>state/converters.go\<close>.\<close>

definition IsStateRootChanged :: "errcode \<Rightarrow> bool" where
  "IsStateRootChanged err \<longleftrightarrow> \<not> IsIntrinsicError err \<and> \<not> IsROMOutOfCountersError err \<and> err \<noteq> ROM_ERROR_INVALID_RLP"

section \<open>Switches over consecutive codes\<close>

text \<open>The labels of a switch are the codes from a start on.\<close>

definition counted :: "int \<Rightarrow> (int \<times> 'b) list \<Rightarrow> bool" where
  "counted a cs \<longleftrightarrow> map fst cs = [a..a + int (length cs) - 1]"

lemma counted_Nil [simp]: "counted a []"
  by (simp add: counted_def)

lemma counted_Cons [simp]: "counted a ((l, v) # cs) \<longleftrightarrow> l = a \<and> counted (a + 1) cs"
  by (subst counted_def, subst upto.simps) (auto simp: counted_def algebra_simps)

lemma switch_counted:
  "counted a cs \<Longrightarrow> switch cs d c = (if a \<le> c \<and> c < a + int (length cs) then snd (cs ! nat (c - a)) else d)"
proof (induction cs arbitrary: a)
  case Nil
  then show ?case by auto
next
  case (Cons p cs)
  obtain l v where p: "p = (l, v)" by (cases p)
  then have "l = a" "switch cs d c = (if a + 1 \<le> c \<and> c < a + 1 + int (length cs) then snd (cs ! nat (c - (a + 1))) else d)"
    using Cons by auto
  moreover have "nat (c - a) = Suc (nat (c - (a + 1)))" if "a + 1 \<le> c" using that by simp
  ultimately show ?case using p by (auto simp: not_le)
qed

text \<open>The inverse switch finds the label of a value when the values are distinct.\<close>

lemma switch_inverse:
  assumes "distinct (map fst cs)" and "i < length cs"
  shows "switch cs d (fst (cs ! i)) = snd (cs ! i)"
  using assms
proof (induction cs arbitrary: i)
  case Nil
  then show ?case by simp
next
  case (Cons p cs)
  then show ?case
    by (cases p; cases i) (auto dest: nth_mem)
qed

lemma switch_default: "x \<notin> fst ` set cs \<Longrightarrow> switch cs d x = d"
  by (induction cs) auto

section \<open>The contract of a pair of translations\<close>

text \<open>
  Codes 0 to n are known; 0 is the unspecified error and 1 the absence of an error. The contract
  is what the clients of the errors rely on.
\<close>

locale error_codes =
  fixes err_of :: "errcode \<Rightarrow> go_error" and code_of :: "go_error \<Rightarrow> errcode"
    and unknown unspecified :: go_error and n :: int
  assumes n_pos: "1 \<le> n" and n_bound: "n < 2 ^ 31 - 1"
    and round_trip: "1 \<le> c \<Longrightarrow> c \<le> n \<Longrightarrow> code_of (err_of c) = c"
    and no_error: "err_of 1 = None"
    and unspecified: "err_of 0 = unspecified"
    and unknown: "c < 0 \<or> n < c \<Longrightarrow> err_of c = unknown"
    and range: "e \<in> err_of ` {1..n} \<or> code_of e = 2 ^ 31 - 1"
    and strange: "unknown \<notin> err_of ` {1..n}" "unspecified \<notin> err_of ` {1..n}"
begin

lemma inj: "inj_on err_of {1..n}"
  by (rule inj_on_inverseI [of _ code_of]) (simp add: round_trip)

lemma nil_iff: "0 \<le> c \<Longrightarrow> c \<le> n \<Longrightarrow> unspecified \<noteq> None \<Longrightarrow> err_of c = None \<longleftrightarrow> c = 1"
  using inj_onD [OF inj, of c 1] no_error unspecified n_pos by (cases "c = 0") auto

lemma code_unknown: "c \<le> 0 \<or> n < c \<Longrightarrow> code_of (err_of c) = 2 ^ 31 - 1"
  using range [of "err_of c"] strange unknown [of c] unspecified by (cases "c = 0") auto

lemma code_of_err_of: "code_of (err_of c) = (if 1 \<le> c \<and> c \<le> n then c else 2 ^ 31 - 1)"
  using round_trip [of c] code_unknown [of c] by auto

end

text \<open>What makes two tables keep the contract.\<close>

lemma error_codesI:
  fixes cs :: "(errcode \<times> go_error) list"
  assumes counted: "counted 0 cs" and len: "2 \<le> length cs" "length cs < 2 ^ 31 - 1"
    and inverse: "bs = map (\<lambda>(c, e). (e, c)) (tl cs)"
    and dist: "distinct (map snd cs)" and fresh: "unk \<notin> snd ` set cs"
    and nil: "snd (cs ! 1) = None"
  shows "error_codes (switch cs unk) (switch bs (2 ^ 31 - 1)) unk (snd (cs ! 0)) (int (length cs) - 1)"
proof -
  define n where "n = int (length cs) - 1"
  have sw: "switch cs unk c = (if 0 \<le> c \<and> c \<le> n then snd (cs ! nat c) else unk)" for c
    using switch_counted [OF counted, of unk c] by (auto simp: n_def)
  have lab: "fst (cs ! i) = int i" if "i < length cs" for i
    using counted that unfolding counted_def by (metis add_0 length_map nth_map nth_upto int_nat_eq length_upto zero_le_imp_eq_int
        of_nat_0_le_iff of_nat_less_iff zless_imp_add1_zle le_diff_eq)
  have bs: "bs ! i = (snd (cs ! Suc i), int (Suc i))" "i < length bs" if "Suc i < length cs" for i
    using that lab [of "Suc i"] by (auto simp: inverse nth_tl split_def)
  have dinv: "distinct (map fst bs)"
    using dist by (simp add: inverse comp_def split_def map_tl distinct_tl)
  have rt: "switch bs (2 ^ 31 - 1) (switch cs unk c) = c" if c: "1 \<le> c" "c \<le> n" for c
  proof -
    have i: "Suc (nat c - 1) < length cs" "Suc (nat c - 1) = nat c" using c by (auto simp: n_def)
    show ?thesis
      using switch_inverse [OF dinv bs(2) [OF i(1)], of "2 ^ 31 - 1"] bs(1) [OF i(1)] i(2) c sw [of c] by simp
  qed
  have img: "switch cs unk ` {1..n} = fst ` set bs"
  proof -
    have "switch cs unk ` {1..n} = (\<lambda>i. snd (cs ! Suc i)) ` {i. Suc i < length cs}"
    proof (intro set_eqI iffI)
      fix e assume "e \<in> switch cs unk ` {1..n}"
      then obtain c where c: "1 \<le> c" "c \<le> n" "e = switch cs unk c" by auto
      then show "e \<in> (\<lambda>i. snd (cs ! Suc i)) ` {i. Suc i < length cs}"
        using sw [of c] by (intro image_eqI [of _ _ "nat c - 1"]) (auto simp: n_def)
    next
      fix e assume "e \<in> (\<lambda>i. snd (cs ! Suc i)) ` {i. Suc i < length cs}"
      then obtain i where i: "Suc i < length cs" "e = snd (cs ! Suc i)" by auto
      then show "e \<in> switch cs unk ` {1..n}"
        using sw [of "int (Suc i)"] by (intro image_eqI [of _ _ "int (Suc i)"]) (auto simp: n_def nat_add_distrib)
    qed
    also have "\<dots> = (\<lambda>i. snd (tl cs ! i)) ` {i. i < length (tl cs)}"
      by (rule image_cong) (auto simp: nth_tl)
    also have "\<dots> = snd ` set (tl cs)" by (auto simp: set_conv_nth)
    also have "\<dots> = fst ` set bs" by (simp add: inverse image_image split_def)
    finally show ?thesis .
  qed
  have first: "snd (cs ! 0) \<notin> fst ` set bs"
  proof -
    have "cs = hd cs # tl cs" using len(1) by (cases cs) auto
    then have "distinct (snd (cs ! 0) # map snd (tl cs))" using dist by (metis hd_conv_nth list.simps(3) list.simps(9))
    then show ?thesis by (simp add: inverse image_image split_def)
  qed
  have new: "unk \<notin> fst ` set bs"
    using fresh len(1) by (cases cs) (auto simp: inverse image_image split_def)
  show ?thesis unfolding n_def [symmetric]
  proof
    show "1 \<le> n" "n < 2 ^ 31 - 1" using len by (simp_all add: n_def)
    show "switch cs unk 1 = None" "switch cs unk 0 = snd (cs ! 0)" using sw nil len by (auto simp: n_def)
    show "unk \<notin> switch cs unk ` {1..n}" "snd (cs ! 0) \<notin> switch cs unk ` {1..n}" unfolding img by fact+
  next
    fix c assume "1 \<le> c" "c \<le> n"
    then show "switch bs (2 ^ 31 - 1) (switch cs unk c) = c" by (rule rt)
  next
    fix c assume "c < 0 \<or> n < c"
    then show "switch cs unk c = unk" using sw by auto
  next
    fix e show "e \<in> switch cs unk ` {1..n} \<or> switch bs (2 ^ 31 - 1) e = 2 ^ 31 - 1"
      unfolding img by (cases "e \<in> fst ` set bs") (simp_all add: switch_default)
  qed
qed

section \<open>The two pairs of translations\<close>

lemma RomErr_switch: "RomErr = switch RomErr_cases ErrROMUnknown"
  and RomErrorCode_switch: "RomErrorCode = switch RomErrorCode_cases (2 ^ 31 - 1)"
  and ExecutorErr_switch: "ExecutorErr = switch (ExecutorErr_cases_v1 @ ExecutorErr_cases_v2) ErrExecutorUnknown"
  and ExecutorErrorCode_switch:
    "ExecutorErrorCode = switch (ExecutorErrorCode_cases_v1 @ ExecutorErrorCode_cases_v2) (2 ^ 31 - 1)"
  by (rule ext, simp add: RomErr_def RomErrorCode_def ExecutorErr_def ExecutorErrorCode_def ErrCodeROMUnknown_def
      ErrCodeExecutorUnknown_def)+

lemma rom_tables:
  "counted 0 RomErr_cases" "length RomErr_cases = 35"
  "RomErrorCode_cases = map (\<lambda>(c, e). (e, c)) (tl RomErr_cases)"
  "snd (RomErr_cases ! 1) = None" "snd (RomErr_cases ! 0) = ErrROMUnspecified" "ErrROMUnknown \<notin> snd ` set RomErr_cases"
  by (simp_all add: RomErr_cases_def RomErrorCode_cases_def)

lemma rom_sentinels: "distinct (map snd RomErr_cases)"
  by (simp add: RomErr_cases_def)

lemma executor_tables:
  "counted 0 (ExecutorErr_cases_v1 @ ExecutorErr_cases_v2)" "length (ExecutorErr_cases_v1 @ ExecutorErr_cases_v2) = 118"
  "ExecutorErrorCode_cases_v1 @ ExecutorErrorCode_cases_v2 = map (\<lambda>(c, e). (e, c)) (tl (ExecutorErr_cases_v1 @ ExecutorErr_cases_v2))"
  "snd ((ExecutorErr_cases_v1 @ ExecutorErr_cases_v2) ! 1) = None"
  "snd ((ExecutorErr_cases_v1 @ ExecutorErr_cases_v2) ! 0) = ErrExecutorUnspecified"
  "ErrExecutorUnknown \<notin> snd ` set (ExecutorErr_cases_v1 @ ExecutorErr_cases_v2)"
  by (simp_all add: ExecutorErr_cases_v1_def ExecutorErr_cases_v2_def ExecutorErrorCode_cases_v1_def ExecutorErrorCode_cases_v2_def)

lemma executor_sentinels: "distinct (map snd (ExecutorErr_cases_v1 @ ExecutorErr_cases_v2))"
  by (simp add: ExecutorErr_cases_v1_def ExecutorErr_cases_v2_def)

interpretation rom: error_codes RomErr RomErrorCode ErrROMUnknown ErrROMUnspecified 34
  using error_codesI [OF rom_tables(1) _ _ rom_tables(3) rom_sentinels rom_tables(6,4)]
  by (simp add: rom_tables(2,5) RomErr_switch RomErrorCode_switch)

interpretation exec: error_codes ExecutorErr ExecutorErrorCode ErrExecutorUnknown ErrExecutorUnspecified 117
  using error_codesI [OF executor_tables(1) _ _ executor_tables(3) executor_sentinels executor_tables(6,4)]
  by (simp only: executor_tables(2,5) ExecutorErr_switch ExecutorErrorCode_switch) simp

end
