(* ===== verification/ErrorsSpec.thy ===== *)
theory ErrorsSpec
  imports ExecutorErrors
begin

text \<open>The properties of the translations between error codes and error values.\<close>

text \<open>
  C33. An error code of the ROM that is stored as an error value is read back as the same code:
  for the 34 codes from \<open>NO_ERROR\<close> on, no two share a value. A code outside this range, also the
  unspecified code 0, comes back as the unknown code.
\<close>

theorem rom_error_round_trip:
  "RomErrorCode (RomErr c) = (if 1 \<le> c \<and> c \<le> 34 then c else ErrCodeROMUnknown)"
  unfolding ErrCodeROMUnknown_def by (rule rom.code_of_err_of)

text \<open>C34. The same holds of the 117 codes of the executor itself.\<close>

theorem executor_error_round_trip:
  "ExecutorErrorCode (ExecutorErr c) = (if 1 \<le> c \<and> c \<le> 117 then c else ErrCodeExecutorUnknown)"
  unfolding ErrCodeExecutorUnknown_def by (rule exec.code_of_err_of)

end
