(* ===== verification/EffectiveGasPrice.thy ===== *)
theory EffectiveGasPrice
  imports Complex_Main "HOL-Library.Log_Nat" TxTracking
begin

text \<open>
  The effective gas price: the price that covers the cost of a transaction
  (\<open>pool/effectivegasprice.go\<close>) and its encoding as a share of the signed gas price in one byte
  (\<open>state/effectivegasprice.go\<close>).

  A \<open>float64\<close> or \<open>big.Float\<close> that occurs here is finite and not negative; it is a rational number,
  and every operation rounds its exact result to the precision of the type, to the nearest
  value and to the even one of two. The exponents stay far from the limits of the types.
\<close>

section \<open>Floating point numbers\<close>

definition bit_length :: "int \<Rightarrow> nat" where
  "bit_length n = floorlog 2 (nat n)"

definition exponent :: "rat \<Rightarrow> int" where
  "exponent x =
     (let (a, b) = quotient_of x; e = int (bit_length a) - int (bit_length b)
      in if 2 powi e \<le> x then e else e - 1)"

definition round_even :: "rat \<Rightarrow> int" where
  "round_even x =
     (let f = \<lfloor>x\<rfloor>; d = x - of_int f
      in if d < 1 / 2 then f else if d > 1 / 2 then f + 1 else if even f then f else f + 1)"

definition rnd :: "nat \<Rightarrow> rat \<Rightarrow> rat" where
  "rnd prec x =
     (if x \<le> 0 then 0
      else let u = 2 powi (exponent x - int prec + 1) in of_int (round_even (x / u)) * u)"

definition float64_of :: "uint64 \<Rightarrow> rat" where
  "float64_of n = rnd 53 (of_int (uint n))"

definition float64_mul :: "rat \<Rightarrow> rat \<Rightarrow> rat" where
  "float64_mul x y = rnd 53 (x * y)"

text \<open>The conversion to \<open>uint64\<close> cuts off the fraction.\<close>

definition uint64_of :: "rat \<Rightarrow> uint64" where
  "uint64_of x = word_of_int \<lfloor>x\<rfloor>"

text \<open>A \<open>big.Float\<close> with its precision; the result of an operation has the greater one.\<close>

type_synonym big_float = "nat \<times> rat"

definition bf_SetUint64 :: "uint64 \<Rightarrow> big_float" where
  "bf_SetUint64 n = (64, of_int (uint n))"

definition bf_SetInt :: "bigint \<Rightarrow> big_float" where
  "bf_SetInt n = (max 64 (bit_length n), of_int n)"

definition bf_one :: big_float where
  "bf_one = (53, 1)"

definition bf_Quo :: "big_float \<Rightarrow> big_float \<Rightarrow> big_float" where
  "bf_Quo x y = (let p = max (fst x) (fst y) in (p, rnd p (snd x / snd y)))"

definition bf_Mul :: "big_float \<Rightarrow> big_float \<Rightarrow> big_float" where
  "bf_Mul x y = (let p = max (fst x) (fst y) in (p, rnd p (snd x * snd y)))"

section \<open>The calculation\<close>

record EffectiveGasPriceCfg =
  cfg_Enabled :: bool
  L1GasPriceFactor :: rat
  ByteGasCost :: uint64
  ZeroByteGasCost :: uint64
  NetProfit :: rat
  BreakEvenFactor :: rat
  FinalDeviationPct :: uint64
  EthTransferGasPrice :: uint64
  EthTransferL1GasPriceFactor :: rat
  L2GasPriceSuggesterFactor :: rat

datatype egp_error = ErrZeroL1GasPrice | ErrEffectiveGasPriceIsZero | ErrEffectiveGasPriceEmpty

definition GetTxAndL2GasPrice :: "EffectiveGasPriceCfg \<Rightarrow> bigint \<Rightarrow> uint64 \<Rightarrow> uint64 \<Rightarrow> bigint \<times> uint64" where
  "GetTxAndL2GasPrice cfg txGasPrice l1GasPrice l2GasPrice =
     (if \<not> cfg_Enabled cfg
      then let gp = uint64_of (float64_mul (L2GasPriceSuggesterFactor cfg) (float64_of l1GasPrice)) in (uint gp, gp)
      else (txGasPrice, l2GasPrice))"

text \<open>\<open>EfficiencyPercentageByteLength\<close> is one byte.\<close>

definition CalculateBreakEvenGasPrice ::
    "EffectiveGasPriceCfg \<Rightarrow> byte list \<Rightarrow> bigint \<Rightarrow> uint64 \<Rightarrow> uint64 \<Rightarrow> egp_error + bigint" where
  "CalculateBreakEvenGasPrice cfg rawTx txGasPrice txGasUsed l1GasPrice =
     (if l1GasPrice = 0 then Inl ErrZeroL1GasPrice
      else if txGasUsed = 0 then Inr txGasPrice
      else if txGasUsed = 21000 \<and> EthTransferGasPrice cfg \<noteq> 0 then Inr (uint (EthTransferGasPrice cfg))
      else if txGasUsed = 21000 \<and> EthTransferL1GasPriceFactor cfg \<noteq> 0 then
        let ethGasPrice = uint64_of (float64_mul (float64_of l1GasPrice) (EthTransferL1GasPriceFactor cfg))
        in Inr (uint (if ethGasPrice = 0 then 1 else ethGasPrice))
      else
        let l2MinGasPrice = uint64_of (float64_mul (float64_of l1GasPrice) (L1GasPriceFactor cfg));
            txZeroBytes = (word_of_nat (count_list rawTx 0) :: uint64);
            txNonZeroBytes = word_of_nat (length rawTx) - txZeroBytes + 1;
            totalTxPrice = txGasUsed * l2MinGasPrice +
              (txNonZeroBytes * ByteGasCost cfg + txZeroBytes * ZeroByteGasCost cfg) * l1GasPrice;
            breakEvenGasPrice = uint64_of (float64_mul (float64_of (totalTxPrice div txGasUsed)) (NetProfit cfg))
        in Inr (if breakEvenGasPrice = 0 then 1 else uint breakEvenGasPrice))"

definition CalculateEffectiveGasPrice ::
    "EffectiveGasPriceCfg \<Rightarrow> byte list \<Rightarrow> bigint \<Rightarrow> uint64 \<Rightarrow> uint64 \<Rightarrow> uint64 \<Rightarrow> egp_error + bigint" where
  "CalculateEffectiveGasPrice cfg rawTx txGasPrice txGasUsed l1GasPrice l2GasPrice =
     (case CalculateBreakEvenGasPrice cfg rawTx txGasPrice txGasUsed l1GasPrice of
        Inl e \<Rightarrow> Inl e
      | Inr breakEvenGasPrice \<Rightarrow>
          (let bfL2GasPrice = bf_SetUint64 l2GasPrice;
               bfTxGasPrice = bf_SetInt txGasPrice;
               ratioPriority = (if snd bfL2GasPrice > 0 \<and> snd bfTxGasPrice > snd bfL2GasPrice
                                then bf_Quo bfTxGasPrice bfL2GasPrice else bf_one);
               effectiveGasPrice = \<lfloor>snd (bf_Mul (bf_SetInt breakEvenGasPrice) ratioPriority)\<rfloor>
           in if effectiveGasPrice = 0 then Inl ErrEffectiveGasPriceIsZero else Inr effectiveGasPrice))"

definition MaxEffectivePercentage :: byte where
  "MaxEffectivePercentage = 255"

definition CalculateEffectiveGasPricePercentage :: "bigint option \<Rightarrow> bigint option \<Rightarrow> egp_error + byte" where
  "CalculateEffectiveGasPricePercentage gasPrice effectiveGasPrice =
     (case (gasPrice, effectiveGasPrice) of
        (Some gasPrice, Some effectiveGasPrice) \<Rightarrow>
          if gasPrice = 0 \<or> effectiveGasPrice = 0 then Inl ErrEffectiveGasPriceEmpty
          else if gasPrice \<le> effectiveGasPrice then Inr MaxEffectivePercentage
          else let b = (effectiveGasPrice * 256 + gasPrice - 1) div gasPrice - 1
               in Inr (word_of_int b)
      | _ \<Rightarrow> Inl ErrEffectiveGasPriceEmpty)"

section \<open>The share of the gas price\<close>

text \<open>The price that the executor charges for a share.\<close>

definition charged_price :: "bigint \<Rightarrow> byte \<Rightarrow> bigint" where
  "charged_price gasPrice pct = gasPrice * (uint pct + 1) div 256"

lemma percentage_covers:
  assumes "0 < egp" and "0 < gp"
  shows "\<exists>pct. CalculateEffectiveGasPricePercentage (Some gp) (Some egp) = Inr pct \<and>
     (if egp \<le> gp then egp \<le> charged_price gp pct \<and> 256 * charged_price gp pct < 256 * egp + gp else charged_price gp pct = gp)"
proof (cases "gp \<le> egp")
  case True
  then show ?thesis
    using assms by (auto simp: CalculateEffectiveGasPricePercentage_def charged_price_def MaxEffectivePercentage_def)
next
  case False
  define c where "c = (egp * 256 + gp - 1) div gp"
  have "egp * 256 + gp - 1 = c * gp + (egp * 256 + gp - 1) mod gp" by (simp add: c_def)
  moreover have "0 \<le> (egp * 256 + gp - 1) mod gp" "(egp * 256 + gp - 1) mod gp < gp" using assms by simp_all
  ultimately have m: "c * gp \<le> egp * 256 + gp - 1" "egp * 256 + gp - 1 < c * gp + gp" by linarith+
  have c: "1 \<le> c" "c \<le> 256"
  proof -
    have "0 < c * gp" using m(2) assms by linarith
    then show "1 \<le> c" using assms by (simp add: zero_less_mult_iff)
    have "c * gp < 257 * gp" using m(1) False assms by linarith
    then show "c \<le> 256" using assms by (simp add: mult_less_cancel_right)
  qed
  have "uint (word_of_int d :: byte) = d" if "0 \<le> d" "d < 256" for d
    using that by (simp add: uint_word_of_int take_bit_int_eq_self)
  from this [of "c - 1"] have u: "uint (word_of_int (c - 1) :: byte) = c - 1" using c by linarith
  have ch: "charged_price gp (word_of_int (c - 1)) = gp * c div 256" unfolding charged_price_def u by simp
  have gc: "egp * 256 \<le> gp * c" "gp * c < 256 * egp + gp" using m by (simp_all add: mult.commute)
  have low: "egp \<le> gp * c div 256" using zdiv_mono1 [OF gc(1), of 256] by simp
  have "256 * (gp * c div 256) \<le> gp * c" using mult_div_mod_eq [of 256 "gp * c"] pos_mod_sign [of 256 "gp * c"] by linarith
  then have high: "256 * (gp * c div 256) < 256 * egp + gp" using gc(2) by linarith
  show ?thesis
    using False assms low high ch by (simp add: CalculateEffectiveGasPricePercentage_def c_def [symmetric])
qed

section \<open>Prices without priority\<close>

lemma bit_length_bounds:
  assumes "0 < n"
  shows "2 ^ (bit_length n - 1) \<le> n" "n < 2 ^ bit_length n" "0 < bit_length n"
proof -
  have n: "0 < nat n" "int (nat n) = n" using assms by simp_all
  then have b: "2 ^ (bit_length n - 1) \<le> nat n" "nat n < 2 ^ bit_length n"
    using floorlog_bounds [of "nat n" 2] by (simp_all add: bit_length_def)
  show "2 ^ (bit_length n - 1) \<le> n" using b(1) n(2) by (metis of_nat_le_iff of_nat_numeral of_nat_power)
  show "n < 2 ^ bit_length n" using b(2) n(2) by (metis of_nat_less_iff of_nat_numeral of_nat_power)
  show "0 < bit_length n" using b(2) n(1) by (cases "bit_length n") auto
qed

lemma round_even_int [simp]: "round_even (of_int n) = n"
  by (simp add: round_even_def)

lemma exponent_int:
  assumes "0 < n" shows "exponent (of_int n) = int (bit_length n) - 1"
proof -
  have q: "quotient_of (of_int n) = (n, 1)" by (simp add: quotient_of_int)
  have one: "bit_length 1 = 1" by (simp add: bit_length_def floorlog_def)
  have "(2 :: rat) powi (int (bit_length n) - 1) = of_int (2 ^ (bit_length n - 1))"
    using bit_length_bounds(3) [OF assms] by (simp add: power_int_def nat_diff_distrib)
  then have "2 powi (int (bit_length n) - 1) \<le> (of_int n :: rat)"
    using bit_length_bounds(1) [OF assms] by (metis of_int_le_iff)
  then show ?thesis by (simp add: exponent_def q one)
qed

lemma rnd_int:
  assumes "0 < n" and "bit_length n \<le> p"
  shows "rnd p (of_int n) = of_int n"
proof -
  define k where "k = p - bit_length n"
  have "exponent (of_int n) - int p + 1 = - int k" using assms by (simp add: exponent_int k_def of_nat_diff)
  then have u: "(2 :: rat) powi (exponent (of_int n) - int p + 1) = 1 / 2 ^ k"
    by (simp add: power_int_minus divide_inverse)
  have "of_int n / (1 / 2 ^ k :: rat) = of_int (n * 2 ^ k)" by simp
  then have "of_int (round_even (of_int n / (1 / 2 ^ k))) * (1 / 2 ^ k) = (of_int n :: rat)"
    by (simp only: round_even_int) simp
  then show ?thesis using assms(1) by (simp add: rnd_def u Let_def)
qed

text \<open>Rounding does not fall below a number that the type represents.\<close>

lemma exponent_le:
  assumes "0 < x" shows "2 powi exponent x \<le> x"
proof -
  obtain a b where q: "quotient_of x = (a, b)" by (cases "quotient_of x")
  have b: "0 < b" using quotient_of_denom_pos [OF q] .
  have x: "x = of_int a / of_int b" using quotient_of_div [OF q] .
  have a: "0 < a" using assms b by (simp add: x zero_less_divide_iff)
  define k l where "k = bit_length a - 1" and "l = bit_length b"
  have A: "2 ^ k \<le> (of_int a :: rat)" using bit_length_bounds(1) [OF a] by (metis k_def of_int_le_iff of_int_power of_int_numeral)
  have B: "(of_int b :: rat) \<le> 2 ^ l" using bit_length_bounds(2) [OF b] by (metis l_def less_imp_le of_int_le_iff of_int_power of_int_numeral)
  have "int (bit_length a) - int (bit_length b) - 1 = int k - int l"
    using bit_length_bounds(3) [OF a] by (simp add: k_def l_def)
  then have "2 powi (int (bit_length a) - int (bit_length b) - 1) = (2 ^ k / 2 ^ l :: rat)"
    by (simp add: power_int_diff)
  also have "\<dots> \<le> x" unfolding x using A B a b by (intro frac_le) simp_all
  finally show ?thesis by (simp add: exponent_def q Let_def)
qed

lemma round_even_ge: "of_int m \<le> x \<Longrightarrow> m \<le> round_even x"
proof -
  assume "of_int m \<le> x"
  then have "m \<le> \<lfloor>x\<rfloor>" by (simp add: le_floor_iff)
  moreover have "\<lfloor>x\<rfloor> \<le> round_even x" by (simp add: round_even_def Let_def)
  ultimately show ?thesis by simp
qed

lemma powi_nonpos: "e \<le> 0 \<Longrightarrow> (2 :: rat) powi e = 1 / 2 ^ nat (- e)"
  by (cases "e = 0") (simp_all add: power_int_def power_one_over inverse_eq_divide)

lemma powi_nonneg: "0 \<le> e \<Longrightarrow> (2 :: rat) powi e = 2 ^ nat e"
  by (simp add: power_int_def)

lemma rnd_ge:
  assumes "0 < n" and "bit_length n \<le> p" and "of_int n \<le> x"
  shows "of_int n \<le> rnd p x"
proof -
  have x: "0 < x" using assms(1,3) by (meson less_le_trans of_int_0_less_iff)
  let ?u = "2 powi (exponent x - int p + 1) :: rat"
  have u: "0 < ?u" by simp
  show ?thesis
  proof (cases "exponent x - int p + 1 \<le> 0")
    case True
    define k where "k = nat (- (exponent x - int p + 1))"
    have uk: "?u = 1 / 2 ^ k" unfolding k_def by (rule powi_nonpos [OF True])
    have "of_int (n * 2 ^ k) \<le> x / ?u" using assms(3) by (simp add: uk)
    then have "of_int (n * 2 ^ k) \<le> (of_int (round_even (x / ?u)) :: rat)" unfolding of_int_le_iff by (rule round_even_ge)
    then have "of_int (n * 2 ^ k) * ?u \<le> of_int (round_even (x / ?u)) * ?u" using u by (intro mult_right_mono) simp_all
    then show ?thesis using x by (simp add: rnd_def Let_def uk)
  next
    case False
    define k where "k = nat (exponent x - int p + 1)"
    have p: "0 < p" using bit_length_bounds(3) [OF assms(1)] assms(2) by simp
    have uk: "?u = 2 ^ k" "0 < k" using False powi_nonneg [of "exponent x - int p + 1"] unfolding k_def by linarith+
    have "exponent x = int (p - 1 + k)" using False p by (simp add: k_def of_nat_diff)
    then have "2 powi int (p - 1 + k) \<le> x" using exponent_le [OF x] by (simp only:)
    then have "2 ^ (p - 1) * 2 ^ k \<le> x" unfolding power_add [symmetric] power_int_of_nat .
    then have "of_int (2 ^ (p - 1)) \<le> x / ?u" by (simp add: uk pos_le_divide_eq)
    then have "of_int (2 ^ (p - 1)) \<le> (of_int (round_even (x / ?u)) :: rat)" unfolding of_int_le_iff by (rule round_even_ge)
    then have r: "of_int (2 ^ (p - 1)) * ?u \<le> of_int (round_even (x / ?u)) * ?u" using u by (intro mult_right_mono) simp_all
    have "(2 :: int) ^ bit_length n \<le> 2 ^ p" using assms(2) by (rule power_increasing) simp
    then have np: "n \<le> 2 ^ p" using bit_length_bounds(2) [OF assms(1)] by linarith
    have "(of_int n :: rat) \<le> of_int (2 ^ p)" using np by (simp only: of_int_le_iff)
    also have "\<dots> \<le> of_int (2 ^ (p - 1)) * ?u"
    proof -
      have "(2 :: rat) ^ p = 2 ^ (p - 1) * 2" using p by (cases p) simp_all
      moreover have "(2 :: rat) \<le> 2 ^ k" using uk(2) self_le_power [of "2 :: rat" k] by simp
      ultimately show ?thesis by (simp add: uk(1))
    qed
    also note r
    finally show ?thesis using x by (simp add: rnd_def Let_def)
  qed
qed

text \<open>
  The effective price is never below the break-even price, and equal to it when the transaction
  does not offer more than the suggested price.
\<close>

lemma effective_price_cases:
  assumes be: "CalculateBreakEvenGasPrice cfg rawTx gp used l1 = Inr b" and "0 < b"
  shows "\<exists>e. CalculateEffectiveGasPrice cfg rawTx gp used l1 l2 = Inr e \<and> b \<le> e \<and> (l2 = 0 \<or> gp \<le> uint l2 \<longrightarrow> e = b)"
proof -
  let ?pb = "max 64 (bit_length b)" and ?pq = "max (max 64 (bit_length gp)) 64"
  have eff: "CalculateEffectiveGasPrice cfg rawTx gp used l1 l2 = Inr e"
    if "(if 0 < L \<and> L < gp then \<lfloor>rnd (max ?pb ?pq) (of_int b * rnd ?pq (of_int gp / of_int L))\<rfloor> else \<lfloor>rnd (max ?pb 53) (of_int b)\<rfloor>) = e"
      "e \<noteq> 0" "L = uint l2" for e L
  proof -
    have c: "(0 < (of_int L :: rat) \<and> of_int L < (of_int gp :: rat)) = (0 < L \<and> L < gp)" by simp
    show ?thesis
      using that(1,2) unfolding CalculateEffectiveGasPrice_def be bf_SetUint64_def bf_SetInt_def bf_Mul_def bf_Quo_def bf_one_def Let_def
        fst_conv snd_conv that(3) [symmetric] c
      by (cases "0 < L \<and> L < gp") auto
  qed
  show ?thesis
  proof (cases "0 < uint l2 \<and> uint l2 < gp")
    case True
    define L where "L = uint l2"
    have L: "0 < L" "L < gp" using True by (simp_all add: L_def)
    have one: "bit_length 1 = 1" by (simp add: bit_length_def floorlog_def)
    have "1 \<le> (of_int gp / of_int L :: rat)" using L by simp
    then have q: "1 \<le> rnd ?pq (of_int gp / of_int L)" using rnd_ge [of 1 ?pq "of_int gp / of_int L"] one by simp
    have "of_int b * 1 \<le> (of_int b * rnd ?pq (of_int gp / of_int L) :: rat)"
      using q assms(2) by (intro mult_left_mono) simp_all
    then have "of_int b \<le> rnd (max ?pb ?pq) (of_int b * rnd ?pq (of_int gp / of_int L))"
      using assms(2) by (intro rnd_ge) simp_all
    then have f: "b \<le> \<lfloor>rnd (max ?pb ?pq) (of_int b * rnd ?pq (of_int gp / of_int L))\<rfloor>" by (simp only: le_floor_iff)
    define e where "e = \<lfloor>rnd (max ?pb ?pq) (of_int b * rnd ?pq (of_int gp / of_int L))\<rfloor>"
    have e: "b \<le> e" using f unfolding e_def .
    have "CalculateEffectiveGasPrice cfg rawTx gp used l1 l2 = Inr e"
    proof (rule eff [OF _ _ L_def])
      show "(if 0 < L \<and> L < gp then \<lfloor>rnd (max ?pb ?pq) (of_int b * rnd ?pq (of_int gp / of_int L))\<rfloor> else \<lfloor>rnd (max ?pb 53) (of_int b)\<rfloor>) = e"
        unfolding e_def using L by (simp only: if_P conj_commute)
      show "e \<noteq> 0" using e assms(2) by linarith
    qed
    then show ?thesis using e True by auto
  next
    case False
    have "rnd (max ?pb 53) (of_int b) = of_int b" using rnd_int [OF assms(2)] by simp
    then have "CalculateEffectiveGasPrice cfg rawTx gp used l1 l2 = Inr b"
      using False assms(2) by (intro eff [OF _ _ refl]) auto
    then show ?thesis by auto
  qed
qed

lemma uint_pos: "0 < uint w \<longleftrightarrow> w \<noteq> 0"
  by (metis less_irrefl uint_0_eq uint_ge_0 uint_0_iff order_le_less)

lemma break_even_positive:
  assumes "CalculateBreakEvenGasPrice cfg rawTx gp used l1 = Inr b" and "0 < gp"
  shows "0 < b"
  using assms
  by (auto simp: CalculateBreakEvenGasPrice_def Let_def uint_pos split: if_splits)

end
