(* ===== verification/GasPriceSpec.thy ===== *)
theory GasPriceSpec
  imports EffectiveGasPrice
begin

text \<open>The properties of the effective gas price.\<close>

text \<open>
  C31. The percentage byte never charges less than the effective gas price, and the excess is less
  than 1/256 of the signed gas price: the executor charges \<open>gasPrice * (pct + 1) / 256\<close>. An
  effective price above the signed price is cut to the signed price.
\<close>

theorem percentage_bounds:
  assumes "0 < egp" and "0 < gp"
  shows "\<exists>pct. CalculateEffectiveGasPricePercentage (Some gp) (Some egp) = Inr pct \<and>
     (if egp \<le> gp then egp \<le> charged_price gp pct \<and> 256 * charged_price gp pct < 256 * egp + gp
      else charged_price gp pct = gp)"
  using assms by (rule percentage_covers)

theorem percentage_bounds_witness:
  "\<exists>pct. CalculateEffectiveGasPricePercentage (Some 1000) (Some 333) = Inr pct \<and> 333 \<le> charged_price 1000 pct"
  using percentage_bounds [of 333 1000] by auto

text \<open>
  C32. The effective price covers the cost: for every transaction with a positive gas price the
  calculation succeeds when the L1 gas price is known, the result is at least the break-even
  price, and it is exactly the break-even price for a transaction that does not pay more than
  the suggested price. Rounding of the floating point numbers is included.
\<close>

theorem effective_price_covers_cost:
  assumes "l1GasPrice \<noteq> 0" and "0 < gp"
  shows "\<exists>b e. CalculateBreakEvenGasPrice cfg rawTx gp used l1GasPrice = Inr b \<and>
     CalculateEffectiveGasPrice cfg rawTx gp used l1GasPrice l2GasPrice = Inr e \<and>
     0 < b \<and> b \<le> e \<and> (gp \<le> uint l2GasPrice \<longrightarrow> e = b)"
proof -
  obtain b where b: "CalculateBreakEvenGasPrice cfg rawTx gp used l1GasPrice = Inr b"
  proof (cases "CalculateBreakEvenGasPrice cfg rawTx gp used l1GasPrice")
    case (Inl e)
    then show ?thesis using assms(1) by (simp add: CalculateBreakEvenGasPrice_def Let_def split: if_splits)
  qed
  have "0 < b" using break_even_positive [OF b assms(2)] .
  then show ?thesis using effective_price_cases [OF b, of l2GasPrice] b by blast
qed

definition sample_cfg :: EffectiveGasPriceCfg where
  "sample_cfg = \<lparr>cfg_Enabled = True, L1GasPriceFactor = 1 / 4, ByteGasCost = 16, ZeroByteGasCost = 4, NetProfit = 1,
     BreakEvenFactor = 1, FinalDeviationPct = 10, EthTransferGasPrice = 0, EthTransferL1GasPriceFactor = 0,
     L2GasPriceSuggesterFactor = 1 / 2\<rparr>"

theorem effective_price_covers_cost_witness:
  "\<exists>b e. CalculateBreakEvenGasPrice sample_cfg [1, 0, 3] 2000 50000 1000 = Inr b \<and>
     CalculateEffectiveGasPrice sample_cfg [1, 0, 3] 2000 50000 1000 500 = Inr e \<and> b \<le> e"
  using effective_price_covers_cost [of 1000 2000 sample_cfg "[1, 0, 3]" 50000 500] by auto

end
