(* ===== verification/Batches.thy ===== *)
theory Batches
  imports TxTracking BatchCodec
begin

text \<open>
  A batch in the sequencer and its resources (\<open>sequencer/batch.go\<close>): the batch record, the
  resources that remain and that are used, opening a batch or loading it from the state, and the
  reasons to close it. Times are nanoseconds; \<open>unix_of\<close> gives seconds.
\<close>

section \<open>Data\<close>

datatype ClosingReason =
    EmptyClosingReason
  | MaxTxsClosingReason
  | ResourceExhaustedClosingReason
  | ResourceMarginExhaustedClosingReason
  | ForcedBatchClosingReason
  | ForcedBatchDeadlineClosingReason
  | MaxDeltaTimestampClosingReason
  | NoTxFitsClosingReason
  | L2BlockReorgClonsingReason
  | SyncL1EventInitialBatchClosingReason
  | SyncL1EventSequencedBatchClosingReason
  | SyncL1EventSequencedForcedBatchClosingReason
  | SyncL1EventUpdateEtrogSequenceClosingReason
  | SyncL2TrustedBatchClosingReason
  | SyncGenesisBatchClosingReason

record Batch =
  batchNumber :: uint64
  coinbase :: address
  timestamp :: go_time
  initialStateRoot :: hash
  imStateRoot :: hash
  finalStateRoot :: hash
  countOfTxs :: int
  countOfL2Blocks :: int
  imRemainingResources :: BatchResources
  imHighReservedZKCounters :: ZKCounters
  finalRemainingResources :: BatchResources
  finalHighReservedZKCounters :: ZKCounters
  closingReason :: ClosingReason
  finalLocalExitRoot :: hash

definition batch_isEmpty :: "Batch \<Rightarrow> bool" where
  "batch_isEmpty b \<longleftrightarrow> countOfL2Blocks b = 0"

text \<open>A batch in the database of the state; \<open>checked\<close> and \<open>closing_reason\<close> are columns of its table.\<close>

record StateBatch =
  sb_BatchNumber :: uint64
  sb_Coinbase :: address
  sb_BatchL2Data :: "byte list"
  sb_StateRoot :: hash
  sb_LocalExitRoot :: hash
  sb_AccInputHash :: hash
  sb_Timestamp :: go_time
  sb_GlobalExitRoot :: hash
  sb_ForcedBatchNum :: "uint64 option"
  sb_Resources :: BatchResources
  sb_HighReservedZKCounters :: ZKCounters
  sb_ClosingReason :: ClosingReason
  sb_WIP :: bool
  sb_Checked :: bool

record FinalizerCfg =
  ForcedBatchesTimeout :: int
  ResourceExhaustedMarginPct :: uint32
  ForcedBatchesL1BlockConfirmations :: uint64
  L1InfoTreeL1BlockConfirmations :: uint64
  L1InfoTreeCheckInterval :: int
  BatchMaxDeltaTimestamp :: int
  L2BlockMaxDeltaTimestamp :: int
  StateRootSyncInterval :: int
  HaltOnBatchNumber :: uint64
  SequentialBatchSanityCheck :: bool
  SequentialProcessL2Block :: bool

definition unix_of :: "go_time \<Rightarrow> int" where
  "unix_of t = t div 1000000000"

section \<open>Resources\<close>

definition getMaxBatchResources :: "BatchConstraintsCfg \<Rightarrow> BatchResources" where
  "getMaxBatchResources constraints = \<lparr>br_ZKCounters = \<lparr>
       GasUsed = MaxCumulativeGasUsed constraints,
       KeccakHashes = MaxKeccakHashes constraints,
       PoseidonHashes = MaxPoseidonHashes constraints,
       PoseidonPaddings = MaxPoseidonPaddings constraints,
       MemAligns = MaxMemAligns constraints,
       Arithmetics = MaxArithmetics constraints,
       Binaries = MaxBinaries constraints,
       Steps = MaxSteps constraints,
       Sha256Hashes_V2 = MaxSHA256Hashes constraints\<rparr>,
     br_Bytes = MaxBatchBytesSize constraints\<rparr>"

definition getUsedBatchResources :: "BatchConstraintsCfg \<Rightarrow> BatchResources \<Rightarrow> BatchResources" where
  "getUsedBatchResources constraints remaining = (let z = br_ZKCounters remaining in
     \<lparr>br_ZKCounters = \<lparr>
       GasUsed = MaxCumulativeGasUsed constraints - GasUsed z,
       KeccakHashes = MaxKeccakHashes constraints - KeccakHashes z,
       PoseidonHashes = MaxPoseidonHashes constraints - PoseidonHashes z,
       PoseidonPaddings = MaxPoseidonPaddings constraints - PoseidonPaddings z,
       MemAligns = MaxMemAligns constraints - MemAligns z,
       Arithmetics = MaxArithmetics constraints - Arithmetics z,
       Binaries = MaxBinaries constraints - Binaries z,
       Steps = MaxSteps constraints - Steps z,
       Sha256Hashes_V2 = MaxSHA256Hashes constraints - Sha256Hashes_V2 z\<rparr>,
     br_Bytes = MaxBatchBytesSize constraints - br_Bytes remaining\<rparr>)"

definition getConstraintThresholdUint64 :: "FinalizerCfg \<Rightarrow> uint64 \<Rightarrow> uint64" where
  "getConstraintThresholdUint64 cfg input = input * ucast (ResourceExhaustedMarginPct cfg) div 100"

definition getConstraintThresholdUint32 :: "FinalizerCfg \<Rightarrow> uint32 \<Rightarrow> uint32" where
  "getConstraintThresholdUint32 cfg input = input * ResourceExhaustedMarginPct cfg div 100"

definition isBatchResourcesMarginExhausted ::
    "FinalizerCfg \<Rightarrow> BatchConstraintsCfg \<Rightarrow> BatchResources \<Rightarrow> bool \<times> string" where
  "isBatchResourcesMarginExhausted cfg c resources =
     (let z = br_ZKCounters resources; t32 = getConstraintThresholdUint32 cfg; t64 = getConstraintThresholdUint64 cfg
      in if br_Bytes resources \<le> t64 (MaxBatchBytesSize c) then (True, ''Bytes'')
         else if Steps z \<le> t32 (MaxSteps c) then (True, ''Steps'')
         else if PoseidonPaddings z \<le> t32 (MaxPoseidonPaddings c) then (True, ''PoseidonPaddings'')
         else if PoseidonHashes z \<le> t32 (MaxPoseidonHashes c) then (True, ''PoseidonHashes'')
         else if Binaries z \<le> t32 (MaxBinaries c) then (True, ''Binaries'')
         else if KeccakHashes z \<le> t32 (MaxKeccakHashes c) then (True, ''KeccakHashes'')
         else if Arithmetics z \<le> t32 (MaxArithmetics c) then (True, ''Arithmetics'')
         else if MemAligns z \<le> t32 (MaxMemAligns c) then (True, ''MemAligns'')
         else if GasUsed z \<le> t64 (MaxCumulativeGasUsed c) then (True, ''CumulativeGas'')
         else if Sha256Hashes_V2 z \<le> t32 (MaxSHA256Hashes c) then (True, ''SHA256Hashes'')
         else (False, []))"

text \<open>
  How resources are taken from the remaining ones: the needed ones must fit, the used ones are
  subtracted. The result says whether they fit and whether the subtraction overflowed.
\<close>

definition reserve :: "BatchResources \<Rightarrow> ZKCounters \<Rightarrow> ZKCounters \<Rightarrow> ZKCounters \<Rightarrow> uint64 \<Rightarrow>
    bool \<times> bool \<times> BatchResources \<times> ZKCounters" where
  "reserve remaining high used reserved bytes =
     (case getNeededZKCounters high used reserved of
        (needed, newHigh) \<Rightarrow>
          if fst (br_Fits remaining \<lparr>br_ZKCounters = needed, br_Bytes = bytes\<rparr>)
          then (case br_Sub remaining \<lparr>br_ZKCounters = used, br_Bytes = bytes\<rparr> of
                  (rest, subOverflow, _) \<Rightarrow> (True, subOverflow, rest, newHigh))
          else (False, False, remaining, high))"

text \<open>\<open>int(x)\<close> of a \<open>uint64\<close> is its signed value.\<close>

definition maxTxsPerBatchReached :: "BatchConstraintsCfg \<Rightarrow> Batch \<Rightarrow> bool" where
  "maxTxsPerBatchReached c batch \<longleftrightarrow> MaxTxsPerBatch c \<noteq> 0 \<and> countOfTxs batch \<ge> sint (MaxTxsPerBatch c)"

text \<open>The two readings of the clock are arguments.\<close>

definition checkIfFinalizeBatch ::
    "FinalizerCfg \<Rightarrow> BatchConstraintsCfg \<Rightarrow> Batch \<Rightarrow> int \<Rightarrow> go_time \<Rightarrow> go_time \<Rightarrow> bool \<times> ClosingReason" where
  "checkIfFinalizeBatch cfg c wipBatch nextForcedBatchDeadline now1 now2 =
     (if maxTxsPerBatchReached c wipBatch then (True, MaxTxsClosingReason)
      else if fst (isBatchResourcesMarginExhausted cfg c (imRemainingResources wipBatch))
      then (True, ResourceMarginExhaustedClosingReason)
      else if nextForcedBatchDeadline \<noteq> 0 \<and> unix_of now1 \<ge> nextForcedBatchDeadline
      then (True, ForcedBatchDeadlineClosingReason)
      else if \<not> batch_isEmpty wipBatch \<and> timestamp wipBatch + BatchMaxDeltaTimestamp cfg < now2
      then (True, MaxDeltaTimestampClosingReason)
      else (False, EmptyClosingReason))"

section \<open>Opening and loading a batch\<close>

definition openNewWIPBatch :: "BatchConstraintsCfg \<Rightarrow> address \<Rightarrow> go_time \<Rightarrow> uint64 \<Rightarrow> hash \<Rightarrow> Batch" where
  "openNewWIPBatch c l2Coinbase now number stateRoot =
     (let maxRemainingResources = getMaxBatchResources c in
      \<lparr>batchNumber = number, coinbase = l2Coinbase, timestamp = now, initialStateRoot = stateRoot,
       imStateRoot = stateRoot, finalStateRoot = stateRoot, countOfTxs = 0, countOfL2Blocks = 0,
       imRemainingResources = maxRemainingResources, imHighReservedZKCounters = zero_counters,
       finalRemainingResources = maxRemainingResources, finalHighReservedZKCounters = zero_counters,
       closingReason = EmptyClosingReason, finalLocalExitRoot = 0\<rparr>)"

datatype load_error = ErrGetPrevBatch string | ErrDecode codec_error | ErrUsedResources string

text \<open>The batch before is read from the state; decoding may panic.\<close>

definition setWIPBatch ::
    "(byte list \<Rightarrow> byte list list option) \<Rightarrow> (uint64 \<Rightarrow> string + StateBatch) \<Rightarrow> BatchConstraintsCfg \<Rightarrow> StateBatch \<Rightarrow>
     (load_error + Batch) option" where
  "setWIPBatch rlp_dec GetBatchByNumber c wipStateBatch =
     (case GetBatchByNumber (sb_BatchNumber wipStateBatch - 1) of
        Inl e \<Rightarrow> Some (Inl (ErrGetPrevBatch e))
      | Inr prevStateBatch \<Rightarrow>
          (case DecodeBatchV2 rlp_dec (sb_BatchL2Data wipStateBatch) of
             None \<Rightarrow> None
           | Some (Inl e) \<Rightarrow> Some (Inl (ErrDecode e))
           | Some (Inr blocks) \<Rightarrow>
               (let countTxs = sum_list (map (\<lambda>b. int (length (Transactions b))) blocks)
                in case br_Sub (getMaxBatchResources c) (sb_Resources wipStateBatch) of
                  (remainingResources, overflow, overflowResource) \<Rightarrow>
                    if overflow then Some (Inl (ErrUsedResources overflowResource))
                    else Some (Inr \<lparr>batchNumber = sb_BatchNumber wipStateBatch, coinbase = sb_Coinbase wipStateBatch,
                      timestamp = sb_Timestamp wipStateBatch, initialStateRoot = sb_StateRoot prevStateBatch,
                      imStateRoot = sb_StateRoot wipStateBatch, finalStateRoot = sb_StateRoot wipStateBatch,
                      countOfTxs = countTxs, countOfL2Blocks = int (length blocks),
                      imRemainingResources = remainingResources,
                      imHighReservedZKCounters = sb_HighReservedZKCounters wipStateBatch,
                      finalRemainingResources = remainingResources,
                      finalHighReservedZKCounters = sb_HighReservedZKCounters wipStateBatch,
                      closingReason = EmptyClosingReason, finalLocalExitRoot = sb_LocalExitRoot wipStateBatch\<rparr>))))"

section \<open>Remaining and used\<close>

lemma reserve_props:
  assumes "reserve r h u v n = (fits, ov, r', h')"
  defines "used \<equiv> \<lparr>br_ZKCounters = u, br_Bytes = n\<rparr>"
  shows "\<not> fits \<Longrightarrow> r' = r \<and> h' = h \<and> \<not> ov"
    and "ov \<Longrightarrow> r' = r"
    and "fits \<Longrightarrow> \<not> ov \<Longrightarrow> br_le used r \<and> r' = fst (br_Sub r used)"
proof -
  obtain needed newHigh where n: "getNeededZKCounters h u v = (needed, newHigh)" by fastforce
  obtain rem o2 nm where s: "br_Sub r used = (rem, o2, nm)" by (cases "br_Sub r used")
  have fl: "o2 \<longleftrightarrow> \<not> br_le used r" using br_Sub_flag [of r used] s by simp
  have rm: "o2 \<Longrightarrow> rem = r" using br_Sub_fail [of used r] s fl by simp
  have d: "(fits, ov, r', h') = (if fst (br_Fits r \<lparr>br_ZKCounters = needed, br_Bytes = n\<rparr>)
      then (True, o2, rem, newHigh) else (False, False, r, h))"
    using assms(1) s unfolding reserve_def n prod.case used_def by (auto split: if_splits)
  show "\<not> fits \<Longrightarrow> r' = r \<and> h' = h \<and> \<not> ov" "ov \<Longrightarrow> r' = r" using d rm by (auto split: if_splits)
  show "fits \<Longrightarrow> \<not> ov \<Longrightarrow> br_le used r \<and> r' = fst (br_Sub r used)" using d fl s by (auto split: if_splits)
qed

text \<open>What is used and what remains make up the maximum, and each determines the other.\<close>

lemma used_plus_remaining: "br_SumUp r (getUsedBatchResources c r) = getMaxBatchResources c"
  by (cases r) (simp add: br_SumUp_def zk_SumUp_def getUsedBatchResources_def getMaxBatchResources_def Let_def)

lemma remaining_of_used:
  assumes "br_le u (getMaxBatchResources c)"
  shows "getUsedBatchResources c (fst (br_Sub (getMaxBatchResources c) u)) = u"
  using assms
  by (cases u; cases "br_ZKCounters u")
    (simp add: br_Sub_ok getUsedBatchResources_def getMaxBatchResources_def Let_def br_le_def zk_Sub_fields)

lemma used_of_max [simp]:
  "getUsedBatchResources c (getMaxBatchResources c) = \<lparr>br_ZKCounters = zero_counters, br_Bytes = 0\<rparr>"
  by (simp add: getUsedBatchResources_def getMaxBatchResources_def zero_counters_def)

text \<open>Taking resources adds them to what is used.\<close>

lemma used_after_Sub:
  assumes "br_le x r"
  shows "getUsedBatchResources c (fst (br_Sub r x)) = br_SumUp (getUsedBatchResources c r) x"
proof -
  have "GasUsed a - (GasUsed z - GasUsed o') = GasUsed a - GasUsed z + GasUsed o'" for a z o' :: ZKCounters by simp
  then show ?thesis
    using assms
    by (cases r) (simp add: br_Sub_ok getUsedBatchResources_def br_SumUp_def zk_SumUp_def Let_def br_le_def zk_Sub_fields)
qed

lemma setWIPBatch_used:
  assumes "setWIPBatch rlp_dec get c sb = Some (Inr b)"
  shows "getUsedBatchResources c (imRemainingResources b) = sb_Resources sb"
    and "br_le (imRemainingResources b) (getMaxBatchResources c)"
    and "finalRemainingResources b = imRemainingResources b"
proof -
  obtain prev where prev: "get (sb_BatchNumber sb - 1) = Inr prev"
    using assms by (cases "get (sb_BatchNumber sb - 1)") (simp_all add: setWIPBatch_def)
  obtain blocks where dec: "DecodeBatchV2 rlp_dec (sb_BatchL2Data sb) = Some (Inr blocks)"
    using assms prev by (simp add: setWIPBatch_def split: option.splits sum.splits)
  obtain rr ov name where s: "br_Sub (getMaxBatchResources c) (sb_Resources sb) = (rr, ov, name)"
    by (cases "br_Sub (getMaxBatchResources c) (sb_Resources sb)")
  have no: "\<not> ov" using assms prev dec s by (simp add: setWIPBatch_def split: if_splits)
  then have le: "br_le (sb_Resources sb) (getMaxBatchResources c)"
    using br_Sub_flag [of "getMaxBatchResources c" "sb_Resources sb"] s by simp
  have b: "imRemainingResources b = rr" "finalRemainingResources b = rr"
    using assms prev dec s no by (auto simp: setWIPBatch_def)
  show "getUsedBatchResources c (imRemainingResources b) = sb_Resources sb"
    using remaining_of_used [OF le] s b by simp
  show "br_le (imRemainingResources b) (getMaxBatchResources c)" using br_Sub_le [OF le] s b by simp
  show "finalRemainingResources b = imRemainingResources b" using b by simp
qed

end
