(* ===== verification/StateBatches.thy ===== *)
theory StateBatches
  imports Batches
begin

text \<open>
  The table of batches of the state database: the checks of \<open>state/batch.go\<close> and the statements
  of \<open>state/pgstatestorage/batch.go\<close>. A table is the list of its rows in the order of insertion.
  \<open>batch_num\<close> is the primary key and a \<open>BIGINT\<close>: an insertion fails when the number exists or does
  not fit. A lost connection is treated by the callers.
\<close>

section \<open>Queries\<close>

datatype db_error =
    ErrStateNotSynchronized
  | ErrNotFound
  | ErrUnexpectedBatch uint64 uint64
  | ErrLastBatchShouldBeClosed
  | ErrTimestampGE
  | ErrBatchAlreadyClosed
  | ErrSQL string

type_synonym table = "StateBatch list"

text \<open>\<open>ORDER BY batch_num DESC LIMIT 1\<close>.\<close>

fun last_row :: "table \<Rightarrow> StateBatch option" where
  "last_row [] = None"
| "last_row (r # rs) = (case last_row rs of
     None \<Rightarrow> Some r
   | Some m \<Rightarrow> Some (if sb_BatchNumber m \<ge> sb_BatchNumber r then m else r))"

definition GetLastBatchNumber :: "table \<Rightarrow> db_error + uint64" where
  "GetLastBatchNumber rows = (case last_row rows of None \<Rightarrow> Inl ErrStateNotSynchronized | Some r \<Rightarrow> Inr (sb_BatchNumber r))"

definition GetLastBatchTime :: "table \<Rightarrow> db_error + go_time" where
  "GetLastBatchTime rows = (case last_row rows of None \<Rightarrow> Inl ErrStateNotSynchronized | Some r \<Rightarrow> Inr (sb_Timestamp r))"

definition GetBatchByNumber :: "table \<Rightarrow> uint64 \<Rightarrow> db_error + StateBatch" where
  "GetBatchByNumber rows n = (case find (\<lambda>r. sb_BatchNumber r = n) rows of None \<Rightarrow> Inl ErrNotFound | Some r \<Rightarrow> Inr r)"

definition IsBatchClosed :: "table \<Rightarrow> uint64 \<Rightarrow> db_error + bool" where
  "IsBatchClosed rows n = (case find (\<lambda>r. sb_BatchNumber r = n) rows of
     None \<Rightarrow> Inl (ErrSQL ''no rows in result set'') | Some r \<Rightarrow> Inr (\<not> sb_WIP r))"

definition GetLatestBatchGlobalExitRoot :: "table \<Rightarrow> hash" where
  "GetLatestBatchGlobalExitRoot rows =
     (case last_row (filter (\<lambda>r. sb_GlobalExitRoot r \<noteq> 0) rows) of None \<Rightarrow> 0 | Some r \<Rightarrow> sb_GlobalExitRoot r)"

text \<open>\<open>COALESCE(MAX(forced_batch_num), 0)\<close>.\<close>

fun GetLastTrustedForcedBatchNumber :: "table \<Rightarrow> uint64" where
  "GetLastTrustedForcedBatchNumber [] = 0"
| "GetLastTrustedForcedBatchNumber (r # rs) = (case sb_ForcedBatchNum r of
     None \<Rightarrow> GetLastTrustedForcedBatchNumber rs
   | Some n \<Rightarrow> max n (GetLastTrustedForcedBatchNumber rs))"

section \<open>Updates\<close>

record ProcessingContext =
  pc_BatchNumber :: uint64
  pc_Coinbase :: address
  pc_Timestamp :: go_time
  pc_GlobalExitRoot :: hash
  pc_ForcedBatchNum :: "uint64 option"
  pc_BatchL2Data :: "byte list"

record ProcessingReceipt =
  rc_BatchNumber :: uint64
  rc_StateRoot :: hash
  rc_LocalExitRoot :: hash
  rc_GlobalExitRoot :: hash
  rc_AccInputHash :: hash
  rc_BatchL2Data :: "byte list"
  rc_ClosingReason :: ClosingReason
  rc_BatchResources :: BatchResources
  rc_HighReservedZKCounters :: ZKCounters

definition empty_resources :: BatchResources where
  "empty_resources = \<lparr>br_ZKCounters = zero_counters, br_Bytes = 0\<rparr>"

definition insert_row :: "StateBatch \<Rightarrow> table \<Rightarrow> db_error + table" where
  "insert_row r rows =
     (if find (\<lambda>x. sb_BatchNumber x = sb_BatchNumber r) rows \<noteq> None then Inl (ErrSQL ''duplicate key'')
      else if uint (sb_BatchNumber r) \<ge> 2 ^ 63 then Inl (ErrSQL ''out of range'')
      else Inr (rows @ [r]))"

definition update_rows :: "uint64 \<Rightarrow> (StateBatch \<Rightarrow> StateBatch) \<Rightarrow> table \<Rightarrow> table" where
  "update_rows n g rows = map (\<lambda>r. if sb_BatchNumber r = n then g r else r) rows"

definition StoreGenesisBatch :: "StateBatch \<Rightarrow> ClosingReason \<Rightarrow> table \<Rightarrow> db_error + table" where
  "StoreGenesisBatch batch reason rows =
     (if sb_BatchNumber batch \<noteq> 0 then Inl (ErrUnexpectedBatch (sb_BatchNumber batch) 0)
      else insert_row (batch\<lparr>sb_ClosingReason := reason, sb_Resources := empty_resources,
             sb_HighReservedZKCounters := zero_counters, sb_WIP := False, sb_Checked := True\<rparr>) rows)"

definition OpenBatchInStorage :: "ProcessingContext \<Rightarrow> table \<Rightarrow> db_error + table" where
  "OpenBatchInStorage c rows =
     insert_row \<lparr>sb_BatchNumber = pc_BatchNumber c, sb_Coinbase = pc_Coinbase c, sb_BatchL2Data = pc_BatchL2Data c,
       sb_StateRoot = 0, sb_LocalExitRoot = 0, sb_AccInputHash = 0, sb_Timestamp = pc_Timestamp c,
       sb_GlobalExitRoot = pc_GlobalExitRoot c, sb_ForcedBatchNum = pc_ForcedBatchNum c,
       sb_Resources = empty_resources, sb_HighReservedZKCounters = zero_counters,
       sb_ClosingReason = EmptyClosingReason, sb_WIP = True, sb_Checked = True\<rparr> rows"

definition OpenWIPBatchInStorage :: "StateBatch \<Rightarrow> table \<Rightarrow> db_error + table" where
  "OpenWIPBatchInStorage batch rows =
     insert_row (batch\<lparr>sb_AccInputHash := 0, sb_HighReservedZKCounters := zero_counters,
       sb_ClosingReason := EmptyClosingReason, sb_WIP := True, sb_Checked := False\<rparr>) rows"

text \<open>The three checks before a batch is opened.\<close>

definition check_open :: "uint64 \<Rightarrow> go_time \<Rightarrow> table \<Rightarrow> db_error option" where
  "check_open number time rows =
     (case GetLastBatchNumber rows of
        Inl e \<Rightarrow> Some e
      | Inr lastBatchNum \<Rightarrow>
          if lastBatchNum + 1 \<noteq> number then Some (ErrUnexpectedBatch number (lastBatchNum + 1))
          else (case IsBatchClosed rows lastBatchNum of
             Inl e \<Rightarrow> Some e
           | Inr isLastBatchClosed \<Rightarrow>
               if \<not> isLastBatchClosed then Some ErrLastBatchShouldBeClosed
               else (case GetLastBatchTime rows of
                  Inl e \<Rightarrow> Some e
                | Inr prevTimestamp \<Rightarrow> if unix_of prevTimestamp > unix_of time then Some ErrTimestampGE else None)))"

definition OpenBatch :: "ProcessingContext \<Rightarrow> table \<Rightarrow> db_error + table" where
  "OpenBatch c rows = (case check_open (pc_BatchNumber c) (pc_Timestamp c) rows of
     Some e \<Rightarrow> Inl e | None \<Rightarrow> OpenBatchInStorage c rows)"

definition OpenWIPBatch :: "StateBatch \<Rightarrow> table \<Rightarrow> db_error + table" where
  "OpenWIPBatch batch rows = (case check_open (sb_BatchNumber batch) (sb_Timestamp batch) rows of
     Some e \<Rightarrow> Inl e | None \<Rightarrow> OpenWIPBatchInStorage batch rows)"

definition isBatchClosable :: "ProcessingReceipt \<Rightarrow> table \<Rightarrow> db_error option" where
  "isBatchClosable receipt rows =
     (case GetLastBatchNumber rows of
        Inl e \<Rightarrow> Some e
      | Inr lastBatchNum \<Rightarrow>
          if lastBatchNum \<noteq> rc_BatchNumber receipt then Some (ErrUnexpectedBatch (rc_BatchNumber receipt) lastBatchNum)
          else (case IsBatchClosed rows lastBatchNum of
             Inl e \<Rightarrow> Some e
           | Inr isLastBatchClosed \<Rightarrow> if isLastBatchClosed then Some ErrBatchAlreadyClosed else None))"

definition CloseBatchInStorage :: "ProcessingReceipt \<Rightarrow> table \<Rightarrow> table" where
  "CloseBatchInStorage rc = update_rows (rc_BatchNumber rc) (\<lambda>r. r\<lparr>sb_StateRoot := rc_StateRoot rc,
     sb_LocalExitRoot := rc_LocalExitRoot rc, sb_AccInputHash := rc_AccInputHash rc, sb_BatchL2Data := rc_BatchL2Data rc,
     sb_Resources := rc_BatchResources rc, sb_ClosingReason := rc_ClosingReason rc, sb_WIP := False\<rparr>)"

definition CloseBatch :: "ProcessingReceipt \<Rightarrow> table \<Rightarrow> db_error + table" where
  "CloseBatch rc rows = (case isBatchClosable rc rows of Some e \<Rightarrow> Inl e | None \<Rightarrow> Inr (CloseBatchInStorage rc rows))"

definition CloseWIPBatch :: "ProcessingReceipt \<Rightarrow> table \<Rightarrow> table" where
  "CloseWIPBatch rc = update_rows (rc_BatchNumber rc) (\<lambda>r. r\<lparr>sb_Resources := rc_BatchResources rc,
     sb_ClosingReason := rc_ClosingReason rc, sb_WIP := False\<rparr>)"

definition UpdateWIPBatch :: "ProcessingReceipt \<Rightarrow> table \<Rightarrow> table" where
  "UpdateWIPBatch rc = update_rows (rc_BatchNumber rc) (\<lambda>r. r\<lparr>sb_BatchL2Data := rc_BatchL2Data rc,
     sb_GlobalExitRoot := rc_GlobalExitRoot rc, sb_StateRoot := rc_StateRoot rc, sb_LocalExitRoot := rc_LocalExitRoot rc,
     sb_Resources := rc_BatchResources rc, sb_HighReservedZKCounters := rc_HighReservedZKCounters rc\<rparr>)"

definition UpdateBatchAsChecked :: "uint64 \<Rightarrow> table \<Rightarrow> table" where
  "UpdateBatchAsChecked n = update_rows n (\<lambda>r. r\<lparr>sb_Checked := True\<rparr>)"

definition UpdateBatchL2Data :: "uint64 \<Rightarrow> byte list \<Rightarrow> table \<Rightarrow> table" where
  "UpdateBatchL2Data n d = update_rows n (\<lambda>r. r\<lparr>sb_BatchL2Data := d\<rparr>)"

definition AddAccumulatedInputHash :: "uint64 \<Rightarrow> hash \<Rightarrow> table \<Rightarrow> table" where
  "AddAccumulatedInputHash n h = update_rows n (\<lambda>r. r\<lparr>sb_AccInputHash := h\<rparr>)"

definition UpdateBatchTimestamp :: "uint64 \<Rightarrow> go_time \<Rightarrow> table \<Rightarrow> table" where
  "UpdateBatchTimestamp n t = update_rows n (\<lambda>r. r\<lparr>sb_Timestamp := t\<rparr>)"

definition ResetTrustedState :: "uint64 \<Rightarrow> table \<Rightarrow> table" where
  "ResetTrustedState n rows = filter (\<lambda>r. \<not> sb_BatchNumber r > n) rows"

section \<open>Well-formed tables\<close>

text \<open>
  The batches are numbered from 0 on, without a gap, and only the last one may be open. In a
  well-formed table the times do not decrease either (in seconds).
\<close>

definition rows_num :: "table \<Rightarrow> bool" where
  "rows_num rows \<longleftrightarrow> map sb_BatchNumber rows = map word_of_nat [0..<length rows] \<and> length rows \<le> 2 ^ 63 \<and>
     (\<forall>r \<in> set (butlast rows). \<not> sb_WIP r)"

definition rows_wf :: "table \<Rightarrow> bool" where
  "rows_wf rows \<longleftrightarrow> map sb_BatchNumber rows = map word_of_nat [0..<length rows] \<and> length rows \<le> 2 ^ 63 \<and>
     (\<forall>r \<in> set (butlast rows). \<not> sb_WIP r) \<and> sorted (map (\<lambda>r. unix_of (sb_Timestamp r)) rows)"

lemma rows_wf_num: "rows_wf rows \<longleftrightarrow> rows_num rows \<and> sorted (map (\<lambda>r. unix_of (sb_Timestamp r)) rows)"
  by (auto simp: rows_wf_def rows_num_def)

lemma wf_num: "rows_wf rows \<Longrightarrow> rows_num rows"
  by (simp add: rows_wf_num)

lemma nat63 [simp]: "n < 2 ^ 64 \<Longrightarrow> unat (word_of_nat n :: uint64) = n"
  using of_nat_inverse [where 'a = 64, of n] by simp

lemma num_nth:
  assumes "rows_num rows" and "i < length rows"
  shows "sb_BatchNumber (rows ! i) = word_of_nat i" and "unat (sb_BatchNumber (rows ! i)) = i"
proof -
  have "map sb_BatchNumber rows ! i = map word_of_nat [0..<length rows] ! i" using assms by (simp add: rows_num_def)
  then show n: "sb_BatchNumber (rows ! i) = word_of_nat i" using assms(2) by simp
  have "i < 2 ^ 64" using assms by (simp add: rows_num_def)
  then show "unat (sb_BatchNumber (rows ! i)) = i" unfolding n by (rule nat63)
qed

lemmas number_nth = num_nth [OF wf_num]

lemma last_row_last:
  "sorted (map sb_BatchNumber rows) \<Longrightarrow> rows \<noteq> [] \<Longrightarrow> last_row rows = Some (last rows)"
proof (induction rows)
  case (Cons r rs)
  then show ?case by (cases rs rule: rev_cases) auto
qed simp

lemma numbers_sorted:
  assumes "rows_num rows" shows "sorted (map sb_BatchNumber rows)"
  unfolding sorted_iff_nth_mono using num_nth(2) [OF assms] by (auto simp: word_le_nat_alt)

lemma last_row_num: "rows_num rows \<Longrightarrow> rows \<noteq> [] \<Longrightarrow> last_row rows = Some (last rows)"
  using last_row_last numbers_sorted by blast

lemmas last_row_wf = last_row_num [OF wf_num]

lemma num_last:
  assumes "rows_num rows" and "rows \<noteq> []"
  shows "sb_BatchNumber (last rows) = word_of_nat (length rows - 1)" "unat (sb_BatchNumber (last rows)) = length rows - 1"
  using num_nth [OF assms(1), of "length rows - 1"] assms(2) by (simp_all add: last_conv_nth)

lemmas last_number = num_last [OF wf_num]

lemma find_last_num:
  assumes "rows_num rows" and "rows \<noteq> []"
  shows "find (\<lambda>r. sb_BatchNumber r = sb_BatchNumber (last rows)) rows = Some (last rows)"
proof -
  let ?i = "length rows - 1"
  have "\<not> sb_BatchNumber (rows ! j) = sb_BatchNumber (last rows)" if "j < ?i" for j
  proof -
    have "j < length rows" using that by simp
    then show ?thesis using num_nth(2) [OF assms(1), of j] num_last(2) [OF assms] that by auto
  qed
  then show ?thesis using assms(2) unfolding find_Some_iff by (auto simp: last_conv_nth intro!: exI [of _ ?i])
qed

lemmas find_last = find_last_num [OF wf_num]

lemma open_row_num:
  assumes wf: "rows_num rows" and ck: "check_open n t rows = None" and ins: "insert_row r rows = Inr rows'"
    and r: "sb_BatchNumber r = n"
  shows "rows_num rows'" and "rows' = rows @ [r]" and "rows \<noteq> []" and "unix_of (sb_Timestamp (last rows)) \<le> unix_of t"
proof -
  show ne: "rows \<noteq> []" using ck by (auto simp: check_open_def GetLastBatchNumber_def)
  have c: "n = sb_BatchNumber (last rows) + 1" "\<not> sb_WIP (last rows)" "unix_of (sb_Timestamp (last rows)) \<le> unix_of t"
    using ck find_last_num [OF wf ne] last_row_num [OF wf ne]
    by (auto simp: check_open_def GetLastBatchNumber_def IsBatchClosed_def GetLastBatchTime_def split: if_splits)
  show "unix_of (sb_Timestamp (last rows)) \<le> unix_of t" by (rule c(3))
  have num: "n = word_of_nat (length rows)"
    using c(1) num_last(1) [OF wf ne] ne by (simp add: of_nat_diff Suc_le_eq)
  have len: "length rows < 2 ^ 64" using wf by (simp add: rows_num_def)
  have i: "rows' = rows @ [r]" "uint n < 2 ^ 63" using ins r by (auto simp: insert_row_def split: if_splits)
  have "uint n = int (length rows)" unfolding uint_nat num using nat63 [OF len] by simp
  then have "length rows < 2 ^ 63" using i(2) by simp
  moreover have "\<forall>x \<in> set rows. \<not> sb_WIP x"
  proof -
    have "set rows = insert (last rows) (set (butlast rows))"
      using arg_cong [OF append_butlast_last_id [OF ne], of set] by simp
    then show ?thesis using wf c(2) by (simp add: rows_num_def)
  qed
  ultimately show "rows_num rows'" using wf num r unfolding rows_num_def i(1) by simp
  show "rows' = rows @ [r]" by (rule i(1))
qed

lemma open_row_wf:
  assumes wf: "rows_wf rows" and ck: "check_open n t rows = None" and ins: "insert_row r rows = Inr rows'"
    and r: "sb_BatchNumber r = n" "sb_Timestamp r = t"
  shows "rows_wf rows'" and "rows' = rows @ [r]"
proof -
  note o = open_row_num [OF wf_num [OF wf] ck ins r(1)]
  show i: "rows' = rows @ [r]" by (rule o(2))
  have "unix_of (sb_Timestamp x) \<le> unix_of t" if x: "x \<in> set rows" for x
  proof -
    obtain j where j: "j < length rows" "x = rows ! j" using x by (auto simp: in_set_conv_nth)
    have "sorted (map (\<lambda>r. unix_of (sb_Timestamp r)) rows)" using wf unfolding rows_wf_def by blast
    from sorted_nth_mono [OF this, of j "length rows - 1"]
    have "unix_of (sb_Timestamp x) \<le> unix_of (sb_Timestamp (last rows))" using j o(3) by (simp add: last_conv_nth)
    then show ?thesis using o(4) by simp
  qed
  then show "rows_wf rows'" using wf o(1) r unfolding rows_wf_num i by (simp add: sorted_append)
qed

lemma map_update_rows:
  assumes "\<And>r. p (g r) = p r" shows "map p (update_rows n g rows) = map p rows"
  using assms by (simp add: update_rows_def)

lemma update_num:
  assumes wf: "rows_num rows" and g: "\<And>r. sb_BatchNumber (g r) = sb_BatchNumber r" "\<And>r. sb_WIP (g r) \<Longrightarrow> sb_WIP r"
  shows "rows_num (update_rows n g rows)"
proof -
  have "butlast (update_rows n g rows) = update_rows n g (butlast rows)" by (simp add: update_rows_def map_butlast)
  then have "\<forall>r \<in> set (butlast (update_rows n g rows)). \<not> sb_WIP r"
    using wf g(2) by (auto simp: update_rows_def rows_num_def)
  moreover have "length (update_rows n g rows) = length rows" by (simp add: update_rows_def)
  moreover have "map sb_BatchNumber (update_rows n g rows) = map sb_BatchNumber rows" using g(1) by (simp add: map_update_rows)
  ultimately show ?thesis using wf unfolding rows_num_def by (metis (no_types, lifting))
qed

lemma update_wf:
  assumes wf: "rows_wf rows"
    and g: "\<And>r. sb_BatchNumber (g r) = sb_BatchNumber r" "\<And>r. sb_Timestamp (g r) = sb_Timestamp r" "\<And>r. sb_WIP (g r) \<Longrightarrow> sb_WIP r"
  shows "rows_wf (update_rows n g rows)"
proof -
  have "map (\<lambda>r. unix_of (sb_Timestamp r)) (update_rows n g rows) = map (\<lambda>r. unix_of (sb_Timestamp r)) rows"
    using g(2) by (simp add: map_update_rows)
  then show ?thesis using wf update_num [OF wf_num [OF wf] g(1,3)] by (simp add: rows_wf_num)
qed

lemma prefix_num:
  assumes wf: "rows_num rows"
  shows "rows_num (take k rows)"
proof -
  have t: "take k [0..<n] = [0..<min n k]" for n by (cases "k \<le> n") simp_all
  have "map sb_BatchNumber (take k rows) = take k (map word_of_nat [0..<length rows])"
    using wf unfolding rows_num_def take_map [symmetric] by (rule conjE) (rule arg_cong)
  also have "\<dots> = map word_of_nat [0..<length (take k rows)]" by (simp only: take_map t length_take)
  finally have n: "map sb_BatchNumber (take k rows) = map word_of_nat [0..<length (take k rows)]" .
  have "butlast (take k rows) = take (min (length rows) k - 1) rows" by (simp add: butlast_conv_take)
  then have sub: "set (butlast (take k rows)) \<subseteq> set (butlast rows)"
    using set_take_subset_set_take [of "min (length rows) k - 1" "length rows - 1" rows] by (simp add: butlast_conv_take)
  moreover have "length (take k rows) \<le> 2 ^ 63" using wf unfolding rows_num_def by auto
  ultimately show ?thesis using n wf unfolding rows_num_def by blast
qed

lemma prefix_wf:
  assumes wf: "rows_wf rows"
  shows "rows_wf (take k rows)"
proof -
  have "sorted (take k (map (\<lambda>r. unix_of (sb_Timestamp r)) rows))" using wf by (simp add: rows_wf_def sorted_wrt_take)
  then show ?thesis using prefix_num [OF wf_num [OF wf]] by (simp add: rows_wf_num take_map)
qed

lemma reset_take:
  assumes "rows_num rows"
  shows "ResetTrustedState n rows = take (Suc (unat n)) rows"
proof -
  have "filter (\<lambda>r. unat (sb_BatchNumber r) \<le> m) (rows) = take (Suc m) rows" for m
    using assms
  proof (induction rows rule: rev_induct)
    case (snoc x xs)
    have xs: "rows_num xs" using prefix_num [OF snoc.prems, of "length xs"] by simp
    have "unat (sb_BatchNumber x) = length xs" using num_nth(2) [OF snoc.prems, of "length xs"] by simp
    then show ?case using snoc.IH [OF xs] by simp
  qed simp
  then show ?thesis by (simp add: ResetTrustedState_def word_le_nat_alt not_less word_less_nat_alt)
qed

section \<open>Any sequence of statements\<close>

text \<open>
  Every statement that inserts into, updates or deletes from the table; the second way of closing a batch is
  the one of \<open>ProcessAndStoreClosedBatch\<close>, which does not check the batch first.
\<close>

datatype statement =
    DoStoreGenesis StateBatch ClosingReason
  | DoOpenBatch ProcessingContext
  | DoOpenWIPBatch StateBatch
  | DoCloseBatch ProcessingReceipt
  | DoCloseStored ProcessingReceipt
  | DoCloseWIPBatch ProcessingReceipt
  | DoUpdateWIPBatch ProcessingReceipt
  | DoUpdateBatchAsChecked uint64
  | DoUpdateBatchL2Data uint64 "byte list"
  | DoAddAccumulatedInputHash uint64 hash
  | DoUpdateBatchTimestamp uint64 go_time
  | DoResetTrustedState uint64

fun run_statement :: "statement \<Rightarrow> table \<Rightarrow> db_error + table" where
  "run_statement (DoStoreGenesis b r) rows = StoreGenesisBatch b r rows"
| "run_statement (DoOpenBatch c) rows = OpenBatch c rows"
| "run_statement (DoOpenWIPBatch b) rows = OpenWIPBatch b rows"
| "run_statement (DoCloseBatch rc) rows = CloseBatch rc rows"
| "run_statement (DoCloseStored rc) rows = Inr (CloseBatchInStorage rc rows)"
| "run_statement (DoCloseWIPBatch rc) rows = Inr (CloseWIPBatch rc rows)"
| "run_statement (DoUpdateWIPBatch rc) rows = Inr (UpdateWIPBatch rc rows)"
| "run_statement (DoUpdateBatchAsChecked n) rows = Inr (UpdateBatchAsChecked n rows)"
| "run_statement (DoUpdateBatchL2Data n d) rows = Inr (UpdateBatchL2Data n d rows)"
| "run_statement (DoAddAccumulatedInputHash n h) rows = Inr (AddAccumulatedInputHash n h rows)"
| "run_statement (DoUpdateBatchTimestamp n t) rows = Inr (UpdateBatchTimestamp n t rows)"
| "run_statement (DoResetTrustedState n) rows = Inr (ResetTrustedState n rows)"

text \<open>A statement that fails leaves the table alone.\<close>

inductive table_reach :: "table \<Rightarrow> bool" where
  empty: "table_reach []"
| step: "table_reach rows \<Longrightarrow> run_statement st rows = Inr rows' \<Longrightarrow> table_reach rows'"

fun sets_time :: "statement \<Rightarrow> bool" where
  "sets_time (DoUpdateBatchTimestamp n t) = True"
| "sets_time _ = False"

lemma genesis_first:
  assumes wf: "rows_num rows" and run: "StoreGenesisBatch b r rows = Inr rows'"
  shows "rows = []"
proof (rule ccontr)
  assume ne: "rows \<noteq> []"
  then have "sb_BatchNumber (hd rows) = 0" using num_nth(1) [OF wf, of 0] by (simp add: hd_conv_nth)
  then have "find (\<lambda>x. sb_BatchNumber x = 0) rows \<noteq> None" using ne by (cases rows) auto
  then show False using run by (auto simp: StoreGenesisBatch_def insert_row_def split: if_splits)
qed

lemmas statement_defs = CloseBatch_def CloseBatchInStorage_def CloseWIPBatch_def UpdateWIPBatch_def
  UpdateBatchAsChecked_def UpdateBatchL2Data_def AddAccumulatedInputHash_def UpdateBatchTimestamp_def

lemma run_statement_num:
  assumes wf: "rows_num rows" and run: "run_statement st rows = Inr rows'"
  shows "rows_num rows'"
proof (cases st)
  case (DoStoreGenesis b r)
  then have "rows = []" using genesis_first [OF wf] run by simp
  then show ?thesis using run DoStoreGenesis
    by (auto simp: StoreGenesisBatch_def insert_row_def rows_num_def split: if_splits)
next
  case (DoOpenBatch c)
  then show ?thesis using run open_row_num(1) [OF wf, of "pc_BatchNumber c" "pc_Timestamp c"]
    by (auto simp: OpenBatch_def OpenBatchInStorage_def split: option.splits)
next
  case (DoOpenWIPBatch b)
  then show ?thesis using run open_row_num(1) [OF wf, of "sb_BatchNumber b" "sb_Timestamp b"]
    by (auto simp: OpenWIPBatch_def OpenWIPBatchInStorage_def split: option.splits)
next
  case (DoResetTrustedState n)
  then show ?thesis using run prefix_num [OF wf] reset_take [OF wf] by auto
qed (use run in \<open>auto simp: statement_defs split: option.splits intro!: update_num [OF wf]\<close>)

lemma run_statement_wf:
  assumes wf: "rows_wf rows" and run: "run_statement st rows = Inr rows'" and "\<not> sets_time st"
  shows "rows_wf rows'"
proof (cases st)
  case (DoStoreGenesis b r)
  then have "rows = []" using genesis_first [OF wf_num [OF wf]] run by simp
  then show ?thesis using run DoStoreGenesis
    by (auto simp: StoreGenesisBatch_def insert_row_def rows_wf_def split: if_splits)
next
  case (DoOpenBatch c)
  then show ?thesis using run open_row_wf [OF wf, of "pc_BatchNumber c" "pc_Timestamp c"]
    by (auto simp: OpenBatch_def OpenBatchInStorage_def split: option.splits)
next
  case (DoOpenWIPBatch b)
  then show ?thesis using run open_row_wf [OF wf, of "sb_BatchNumber b" "sb_Timestamp b"]
    by (auto simp: OpenWIPBatch_def OpenWIPBatchInStorage_def split: option.splits)
next
  case (DoResetTrustedState n)
  then show ?thesis using run prefix_wf [OF wf] reset_take [OF wf_num [OF wf]] by auto
qed (use run assms(3) in \<open>auto simp: statement_defs split: option.splits intro!: update_wf [OF wf]\<close>)

lemma table_reach_num: "table_reach rows \<Longrightarrow> rows_num rows"
proof (induction rule: table_reach.induct)
  case empty show ?case by (simp add: rows_num_def)
qed (rule run_statement_num)

section \<open>Reading back\<close>

lemma find_number_unique:
  assumes wf: "rows_wf rows" and "r \<in> set rows"
  shows "find (\<lambda>x. sb_BatchNumber x = sb_BatchNumber r) rows = Some r"
proof -
  obtain i where i: "i < length rows" "r = rows ! i" using assms(2) by (auto simp: in_set_conv_nth)
  have "\<not> sb_BatchNumber (rows ! j) = sb_BatchNumber r" if "j < i" for j
  proof -
    have "j < length rows" using that i(1) by simp
    then show ?thesis using number_nth(2) [OF wf, of j] number_nth(2) [OF wf i(1)] i(2) that by auto
  qed
  then show ?thesis using i unfolding find_Some_iff by (auto intro!: exI [of _ i])
qed

lemma get_after_update:
  assumes "GetBatchByNumber rows n = Inr r" and "sb_BatchNumber (g r) = n"
  shows "GetBatchByNumber (update_rows n g rows) n = Inr (g r)"
proof -
  have "find (\<lambda>x. sb_BatchNumber x = n) rows = Some r" using assms(1) by (simp add: GetBatchByNumber_def split: option.splits)
  then have "find (\<lambda>x. sb_BatchNumber x = n) (update_rows n g rows) = Some (g r)"
    using assms(2) by (induction rows) (auto simp: update_rows_def split: if_splits)
  then show ?thesis by (simp add: GetBatchByNumber_def)
qed

end
