(* ===== verification/FinalizerState.thy ===== *)
theory FinalizerState
  imports StateBatches WorkerMachine ExecutorErrors EffectiveGasPrice
begin

text \<open>
  The state of the finalizer (\<open>sequencer/finalizer.go\<close>), the messages it exchanges with the
  executor, and the services it calls.

  The finalizer, the thread that processes L2 blocks and the thread that stores them share
  batches through pointers. A batch therefore lives in a store and a pointer is a number;
  \<open>None\<close> is nil. An L2 block has one owner at a time and is a value. The worker is the one of
  \<open>Worker\<close>; a transaction tracker is written through \<open>map_trackers\<close>, which reaches every holder
  of the pointer.
\<close>

section \<open>How a call ends\<close>

text \<open>
  A call returns, stops the process (\<open>os.Exit\<close>, \<open>log.Fatal\<close>), panics, or never returns: it halts
  in an endless loop, waits for something that does not come, or recurs more often than a bound.
\<close>

datatype 'a outcome = Ret 'a | Exit | Panic | Stuck

fun bnd :: "'a outcome \<Rightarrow> ('a \<Rightarrow> 'b outcome) \<Rightarrow> 'b outcome" where
  "bnd (Ret a) k = k a"
| "bnd Exit k = Exit"
| "bnd Panic k = Panic"
| "bnd Stuck k = Stuck"

fun of_option :: "'a option \<Rightarrow> 'a outcome" where
  "of_option None = Panic"
| "of_option (Some a) = Ret a"

lemma bnd_Ret_iff: "bnd m k = Ret b \<longleftrightarrow> (\<exists>a. m = Ret a \<and> k a = Ret b)"
  by (cases m) auto

lemma bnd_RetE:
  assumes "bnd m k = Ret b"
  obtains a where "m = Ret a" "k a = Ret b"
  using assms by (cases m) auto

lemma bnd_Stuck: "bnd m k = Stuck \<longleftrightarrow> m = Stuck \<or> (\<exists>a. m = Ret a \<and> k a = Stuck)"
  by (cases m) auto

lemma of_option_Ret [simp]: "of_option x = Ret a \<longleftrightarrow> x = Some a" "of_option x \<noteq> Exit" "of_option x \<noteq> Stuck"
  by (cases x; simp)+

lemma bnd_assoc: "bnd (bnd m k) l = bnd m (\<lambda>a. bnd (k a) l)"
  by (cases m) simp_all

section \<open>Messages of the executor\<close>

record L1DataV2 =
  ld_GlobalExitRoot :: hash
  ld_BlockHashL1 :: hash
  ld_MinTimestamp :: uint64

record ProcessRequest =
  rq_BatchNumber :: uint64
  rq_OldStateRoot :: hash
  rq_Coinbase :: address
  rq_L1InfoRoot_V2 :: hash
  rq_ForcedBlockHashL1 :: hash
  rq_TimestampLimit_V2 :: uint64
  rq_ForkID :: uint64
  rq_Transactions :: "byte list"
  rq_SkipFirstChangeL2Block_V2 :: bool
  rq_SkipWriteBlockInfoRoot_V2 :: bool
  rq_SkipVerifyL1InfoRoot_V2 :: bool
  rq_L1InfoTreeData_V2 :: "(uint32, L1DataV2) gomap"

record ProcessTransactionResponse =
  tr_TxHash :: hash
  tr_Tx :: LegacyTx
  tr_RomError :: go_error
  tr_GasUsed :: uint64
  tr_EffectivePercentage :: uint32
  HasGaspriceOpcode :: bool
  HasBalanceOpcode :: bool

record ProcessBlockResponse =
  bl_BlockNumber :: uint64
  bl_Timestamp :: uint64
  bl_GlobalExitRoot :: hash
  TransactionResponses :: "ProcessTransactionResponse list"

record ProcessBatchResponse =
  NewStateRoot :: hash
  NewLocalExitRoot :: hash
  pr_UsedZkCounters :: ZKCounters
  pr_ReservedZkCounters :: ZKCounters
  BlockResponses :: "ProcessBlockResponse list"
  pr_ExecutorError :: go_error
  ReadWriteAddresses :: "(address, InfoReadWrite) gomap"
  FlushID :: uint64
  StoredFlushID :: uint64
  IsRomLevelError :: bool
  IsRomOOCError :: bool

definition mockL1InfoRoot :: hash where
  "mockL1InfoRoot = 0x000102030405060708090a0b0c0d0e0f101112131415161718191a1b1c1d1e1f"

text \<open>An error of the call itself; the finalizer singles out two of them.\<close>

datatype proc_error = ErrExecutorDBError | ErrInvalidTxChangeL2BlockMinTimestamp | ErrCall string

section \<open>State\<close>

record L1InfoTreeExitRootStorageEntry =
  en_L1InfoTreeIndex :: uint32
  en_L1InfoTreeRoot :: hash
  en_GlobalExitRoot :: hash
  en_PreviousBlockHash :: hash
  en_BlockNumber :: uint64
  en_Timestamp :: go_time

type_synonym batch_ref = nat

record L2Block =
  createdAt :: go_time
  trackingNum :: uint64
  l2_timestamp :: uint64
  deltaTimestamp :: uint32
  l2_imStateRoot :: hash
  l1InfoTreeExitRoot :: L1InfoTreeExitRootStorageEntry
  l1InfoTreeExitRootChanged :: bool
  l2_bytes :: uint64
  usedZKCountersOnNew :: ZKCounters
  reservedZKCountersOnNew :: ZKCounters
  highReservedZKCounters :: ZKCounters
  transactions :: "TxTracker list"
  l2_batch :: "batch_ref option"
  batchResponse :: "ProcessBatchResponse option"

record ForcedBatch =
  fb_ForcedBatchNumber :: uint64
  fb_BlockNumber :: uint64
  fb_GlobalExitRoot :: hash
  fb_RawTxsData :: "byte list"
  fb_ForcedAt :: go_time

text \<open>What the finalizer tells the pool about a transaction, and why.\<close>

datatype TxStatus = TxStatusInvalid | TxStatusFailed | TxStatusSelected
datatype reason = NoReason | RomReason errcode | ExecReason proc_error | NodeOOC | TrackerReason "string option"

record finalizer =
  worker :: Worker
  store :: "batch_ref \<Rightarrow> Batch"
  next_ref :: batch_ref
  wipBatch :: "batch_ref option"
  pipBatch :: "batch_ref option"
  sipBatch :: "batch_ref option"
  wipL2Block :: "L2Block option"
  pool_updates :: "(hash \<times> TxStatus \<times> reason) list"
  exec_calls :: nat
  nextStateRootSync :: go_time
  nextForcedBatches :: "ForcedBatch list"
  nextForcedBatchDeadline :: int
  lastForcedBatchNum :: uint64
  lastL1InfoTreeValid :: bool
  lastL1InfoTree :: L1InfoTreeExitRootStorageEntry
  pendingL2BlocksToProcess :: "L2Block list"
  l2BlockReorg :: bool
  lastL2BlockWasReorg :: bool
  pendingL2BlocksToStore :: "L2Block list"
  l2BlockCounter :: uint64
  storedFlushID :: uint64
  lastPendingFlushID :: uint64
  state_batches :: table
  stored_blocks :: "(uint64 \<times> ProcessBlockResponse) list"
  ticks :: nat
  db_calls :: nat

text \<open>
  The configuration and the services. The answer of the executor, the clock, the database and the
  gas prices may differ from call to call: the argument is the number of calls made before. The
  codec of RLP is the one of \<open>go-ethereum\<close>. The last virtual batch is zero when there is none. A
  loop that waits for the executor or for the synchronizer is followed for \<open>patience\<close> rounds; a
  wait that takes longer does not end.
\<close>

record fin_env =
  cfg :: FinalizerCfg
  constraints :: BatchConstraintsCfg
  egp_cfg :: EffectiveGasPriceCfg
  l2Coinbase :: address
  wenv :: worker_env
  stIntf :: stateIntf
  ProcessBatchV2 :: "nat \<Rightarrow> ProcessRequest \<Rightarrow> proc_error + ProcessBatchResponse"
  GetL1AndL2GasPrice :: "nat \<Rightarrow> uint64 \<times> uint64"
  GetForkIDByBatchNumber :: "uint64 \<Rightarrow> uint64"
  UpdateTxStatus_fails :: "hash \<Rightarrow> TxStatus \<Rightarrow> string option"
  clock :: "nat \<Rightarrow> go_time"
  db_fails :: "nat \<Rightarrow> string option"
  rlp_enc :: "byte list list \<Rightarrow> byte list"
  rlp_dec :: "byte list \<Rightarrow> byte list list option"
  chain_id :: "bigint \<Rightarrow> bigint"
  GetLastL2Block_ReceivedAt :: "nat \<Rightarrow> string + go_time"
  GetL1InfoRootLeafByIndex :: "uint32 \<Rightarrow> string + L1InfoTreeExitRootStorageEntry"
  GetBlockByNumber_ParentHash :: "uint64 \<Rightarrow> string + hash"
  GetForcedBatch :: "uint64 \<Rightarrow> string + ForcedBatch"
  GetSender :: "LegacyTx \<Rightarrow> string + address"
  address_order :: "Worker \<Rightarrow> address list"
  GetStoredFlushID :: "nat \<Rightarrow> string + uint64"
  GetLastVirtualBatchNum :: "nat \<Rightarrow> string + uint64"
  GetLatestBatchNumber :: "nat \<Rightarrow> string + uint64"
  patience :: nat

text \<open>Reading the clock, and a call of the database.\<close>

definition tick :: "fin_env \<Rightarrow> finalizer \<Rightarrow> go_time \<times> finalizer" where
  "tick env f = (clock env (ticks f), f\<lparr>ticks := ticks f + 1\<rparr>)"

definition db :: "fin_env \<Rightarrow> finalizer \<Rightarrow> string option \<times> finalizer" where
  "db env f = (db_fails env (db_calls f), f\<lparr>db_calls := db_calls f + 1\<rparr>)"

text \<open>A new batch gets a new place in the store.\<close>

definition new_batch :: "Batch \<Rightarrow> finalizer \<Rightarrow> batch_ref \<times> finalizer" where
  "new_batch b f = (next_ref f, f\<lparr>store := (store f)(next_ref f := b), next_ref := next_ref f + 1\<rparr>)"

definition UpdateTxStatus :: "fin_env \<Rightarrow> finalizer \<Rightarrow> hash \<Rightarrow> TxStatus \<Rightarrow> reason \<Rightarrow> finalizer \<times> string option" where
  "UpdateTxStatus env f h status why =
     (f\<lparr>pool_updates := pool_updates f @ [(h, status, why)]\<rparr>, UpdateTxStatus_fails env h status)"

text \<open>Reading and writing the wip batch and the wip L2 block through their pointers.\<close>

definition wip :: "finalizer \<Rightarrow> Batch outcome" where
  "wip f = (case wipBatch f of None \<Rightarrow> Panic | Some r \<Rightarrow> Ret (store f r))"

definition set_batch :: "batch_ref \<Rightarrow> Batch \<Rightarrow> finalizer \<Rightarrow> finalizer" where
  "set_batch r b f = f\<lparr>store := (store f)(r := b)\<rparr>"

definition set_wip :: "Batch \<Rightarrow> finalizer \<Rightarrow> finalizer outcome" where
  "set_wip b f = (case wipBatch f of None \<Rightarrow> Panic | Some r \<Rightarrow> Ret (set_batch r b f))"

definition add_tx :: "TxTracker \<Rightarrow> finalizer \<Rightarrow> finalizer outcome" where
  "add_tx tx f = (case wipL2Block f of
     None \<Rightarrow> Panic
   | Some b \<Rightarrow> Ret (f\<lparr>wipL2Block := Some (b\<lparr>transactions := transactions b @ [tx]\<rparr>)\<rparr>))"

lemma set_batch_simps [simp]:
  "worker (set_batch r b f) = worker f" "wipBatch (set_batch r b f) = wipBatch f"
  "wipL2Block (set_batch r b f) = wipL2Block f" "exec_calls (set_batch r b f) = exec_calls f"
  "store (set_batch r b f) = (store f)(r := b)" "pool_updates (set_batch r b f) = pool_updates f"
  by (simp_all add: set_batch_def)

text \<open>Assignments to fields of a tracker are seen by every holder of the pointer.\<close>

definition assign :: "(TxTracker \<Rightarrow> TxTracker) \<Rightarrow> TxTracker \<Rightarrow> finalizer \<Rightarrow> TxTracker \<times> finalizer" where
  "assign g tx f = (g tx, f\<lparr>worker := map_trackers (\<lambda>t. if tx_ptr t = tx_ptr tx then g t else t) (worker f)\<rparr>)"

lemma assign_simps [simp]:
  "fst (assign g tx f) = g tx" "store (snd (assign g tx f)) = store f" "wipBatch (snd (assign g tx f)) = wipBatch f"
  "wipL2Block (snd (assign g tx f)) = wipL2Block f" "exec_calls (snd (assign g tx f)) = exec_calls f"
  "pool_updates (snd (assign g tx f)) = pool_updates f"
  by (simp_all add: assign_def)

lemma UpdateTxStatus_simps [simp]:
  "store (fst (UpdateTxStatus env f h s y)) = store f" "wipBatch (fst (UpdateTxStatus env f h s y)) = wipBatch f"
  "wipL2Block (fst (UpdateTxStatus env f h s y)) = wipL2Block f" "worker (fst (UpdateTxStatus env f h s y)) = worker f"
  "exec_calls (fst (UpdateTxStatus env f h s y)) = exec_calls f"
  "pool_updates (fst (UpdateTxStatus env f h s y)) = pool_updates f @ [(h, s, y)]"
  by (simp_all add: UpdateTxStatus_def)

lemma assign_wf:
  assumes "w_wf we so (worker f)" and "same_keys g"
  shows "w_wf we so (worker (snd (assign g tx f)))"
  using map_trackers_wf [OF assms(1)] assms(2) by (simp add: assign_def same_keys_def)

end
