(* ===== verification/TxProcessing.thy ===== *)
theory TxProcessing
  imports FinalizerState
begin

text \<open>
  Processing one transaction (\<open>processTransaction\<close> and the functions it calls in
  \<open>sequencer/finalizer.go\<close>): the effective gas price, the call of the executor, the treatment of
  its answer, and the loop that executes a transaction a second time.

  Updates of the pool that the code makes in goroutines are made at once; log messages and metrics
  are left out.
\<close>

section \<open>Effective gas price\<close>

datatype fin_error =
    ErrEffectiveGasPriceReprocess
  | ErrBatchResourceOverFlow
  | ErrEgp egp_error
  | ErrRom sentinel
  | ErrProc proc_error
  | ErrPool string
  | ErrNoBlockResponses
  | ErrHexDecode

fun egp_message :: "egp_error \<Rightarrow> string" where
  "egp_message ErrZeroL1GasPrice = ''L1 gas price 0''"
| "egp_message ErrEffectiveGasPriceIsZero = ''effectiveGasPrice cannot be zero''"
| "egp_message ErrEffectiveGasPriceEmpty = ''effectiveGasPrice or gasPrice cannot be nil or zero''"

text \<open>The first calculation, with the gas used when the transaction entered the pool.\<close>

definition first_price :: "EffectiveGasPriceCfg \<Rightarrow> uint64 \<Rightarrow> uint64 \<Rightarrow> TxTracker \<Rightarrow> egp_error option \<times> (TxTracker \<Rightarrow> TxTracker)" where
  "first_price c l1 l2 tx =
     (case GetTxAndL2GasPrice c (GasPrice tx) l1 l2 of (txGasPrice, txL2GasPrice) \<Rightarrow>
        (let save = (\<lambda>t. t\<lparr>L1GasPrice := l1, L2GasPrice := l2, EGPLog := (EGPLog t)
               \<lparr>egp_L1GasPrice := l1, egp_L2GasPrice := txL2GasPrice, GasUsedFirst := GasUsed (UsedZKCounters tx),
                egp_GasPrice := txGasPrice\<rparr>\<rparr>)
         in case CalculateEffectiveGasPrice c (RawTx tx) txGasPrice (GasUsed (UsedZKCounters tx)) l1 txL2GasPrice of
              Inl e \<Rightarrow>
                if cfg_Enabled c then (Some e, save)
                else (None, \<lambda>t. (save t)\<lparr>EGPLog := (EGPLog (save t))
                       \<lparr>egp_Error := ''CalculateEffectiveGasPrice#1: '' @ egp_message e\<rparr>\<rparr>)
            | Inr egp \<Rightarrow>
                (None, \<lambda>t. (save t)\<lparr>EffectiveGasPrice := (if egp \<ge> txGasPrice then txGasPrice else egp),
                   EGPLog := (EGPLog (save t))\<lparr>ValueFirst := egp\<rparr>,
                   IsLastExecution := (egp \<ge> txGasPrice \<or> IsLastExecution t)\<rparr>)))"

text \<open>The percentage with which the transaction is executed.\<close>

definition price_percentage :: "EffectiveGasPriceCfg \<Rightarrow> TxTracker \<Rightarrow> egp_error option \<times> (TxTracker \<Rightarrow> TxTracker)" where
  "price_percentage c tx =
     (case CalculateEffectiveGasPricePercentage (Some (GasPrice tx)) (Some (EffectiveGasPrice tx)) of
        Inl e \<Rightarrow>
          if cfg_Enabled c then (Some e, \<lambda>t. t)
          else (None, \<lambda>t. t\<lparr>EGPLog := (EGPLog t)
                 \<lparr>egp_Error := egp_Error (EGPLog t) @ ''; CalculateEffectiveGasPricePercentage#1: '' @ egp_message e\<rparr>,
                 EGPPercentage := MaxEffectivePercentage\<rparr>)
      | Inr pct \<Rightarrow>
          (None, \<lambda>t. t\<lparr>EGPLog := (EGPLog t)\<lparr>Percentage := pct\<rparr>,
             EGPPercentage := (if cfg_Enabled c then pct else MaxEffectivePercentage)\<rparr>))"

text \<open>\<open>hex.DecodeHex\<close> of the digits \<open>%x\<close> writes.\<close>

definition DecodeHex :: "nat list \<Rightarrow> byte list option" where
  "DecodeHex ds = unhex (if odd (length ds) then 0 # ds else ds)"

definition percentage_bytes :: "byte \<Rightarrow> byte list option" where
  "percentage_bytes pct = DecodeHex (if pct = 0 then [0] else hex_digits (uint pct))"

definition compareTxEffectiveGasPrice :: "EffectiveGasPriceCfg \<Rightarrow> TxTracker \<Rightarrow> bigint \<Rightarrow> bool \<Rightarrow> bool \<Rightarrow>
    fin_error option \<times> (TxTracker \<Rightarrow> TxTracker)" where
  "compareTxEffectiveGasPrice c tx newEffectiveGasPrice hasGasPriceOC hasBalanceOC =
     (let txGasPrice = fst (GetTxAndL2GasPrice c (GasPrice tx) (L1GasPrice tx) (L2GasPrice tx));
          diff = abs (EffectiveGasPrice tx - newEffectiveGasPrice);
          maxDeviation = EffectiveGasPrice tx * uint (FinalDeviationPct c) div 100;
          save = (\<lambda>t. t\<lparr>EGPLog := (EGPLog t)\<lparr>FinalDeviation := diff, MaxDeviation := maxDeviation\<rparr>\<rparr>)
      in if diff > maxDeviation
         then (Some ErrEffectiveGasPriceReprocess, \<lambda>t. (save t)\<lparr>
                 EffectiveGasPrice := (if newEffectiveGasPrice < txGasPrice \<and> \<not> (hasGasPriceOC \<or> hasBalanceOC)
                                       then newEffectiveGasPrice else txGasPrice),
                 EGPLog := (EGPLog (save t))\<lparr>Reprocess := True\<rparr>\<rparr>)
         else (None, save))"

text \<open>The second calculation, with the gas the execution used.\<close>

definition second_price :: "EffectiveGasPriceCfg \<Rightarrow> TxTracker \<Rightarrow> ProcessTransactionResponse \<Rightarrow>
    fin_error option \<times> (TxTracker \<Rightarrow> TxTracker)" where
  "second_price c tx txResponse =
     (case GetTxAndL2GasPrice c (GasPrice tx) (L1GasPrice tx) (L2GasPrice tx) of (txGasPrice, txL2GasPrice) \<Rightarrow>
        (case CalculateEffectiveGasPrice c (RawTx tx) txGasPrice (tr_GasUsed txResponse) (L1GasPrice tx) txL2GasPrice of
           Inl e \<Rightarrow>
             if cfg_Enabled c then (Some (ErrEgp e), \<lambda>t. t\<lparr>IsLastExecution := True\<rparr>)
             else (None, \<lambda>t. t\<lparr>IsLastExecution := True, EGPLog := (EGPLog t)
                    \<lparr>egp_Error := egp_Error (EGPLog t) @ ''; CalculateEffectiveGasPrice#2: '' @ egp_message e\<rparr>\<rparr>)
         | Inr newEffectiveGasPrice \<Rightarrow>
             (let save = (\<lambda>t. t\<lparr>IsLastExecution := True, EGPLog := (EGPLog t)
                    \<lparr>ValueSecond := newEffectiveGasPrice, GasUsedSecond := tr_GasUsed txResponse\<rparr>\<rparr>);
                  cmp = compareTxEffectiveGasPrice c tx newEffectiveGasPrice (HasGaspriceOpcode txResponse) (HasBalanceOpcode txResponse)
              in if cfg_Enabled c then (fst cmp, \<lambda>t. snd cmp (save t))
                 else (None, \<lambda>t. let t = snd cmp (save t) in
                        case CalculateEffectiveGasPricePercentage (Some txGasPrice) (Some (EffectiveGasPrice t)) of
                          Inl e \<Rightarrow> t\<lparr>EGPLog := (EGPLog t)
                            \<lparr>egp_Error := egp_Error (EGPLog t) @ '', CalculateEffectiveGasPricePercentage#2: '' @ egp_message e\<rparr>\<rparr>
                        | Inr pct \<Rightarrow> t\<lparr>EGPLog := (EGPLog t)\<lparr>Percentage := pct\<rparr>\<rparr>))))"

section \<open>The worker\<close>

fun fail_all :: "fin_env \<Rightarrow> TxTracker list \<Rightarrow> (TxTracker \<Rightarrow> reason) \<Rightarrow> finalizer \<Rightarrow> finalizer" where
  "fail_all env [] why f = f"
| "fail_all env (t # ts) why f = fail_all env ts why (fst (UpdateTxStatus env f (Hash t) TxStatusFailed (why t)))"

text \<open>
  After an execution that ran out of gas the balance of the sender is read from the last state
  root; when the root cannot be read it is the zero hash, when the balance cannot, it is 0.
\<close>

definition oog_balance :: "stateIntf \<Rightarrow> address \<Rightarrow> ProcessBatchResponse \<Rightarrow> (address, InfoReadWrite) gomap" where
  "oog_balance st from result =
     (case map_of (ReadWriteAddresses result) from of
        None \<Rightarrow> ReadWriteAddresses result
      | Some info \<Rightarrow>
          (case BlockResponses result of
             [] \<Rightarrow> ReadWriteAddresses result
           | b # _ \<Rightarrow>
               (case TransactionResponses b of
                  [] \<Rightarrow> ReadWriteAddresses result
                | txResponse # _ \<Rightarrow>
                    if IsROMOutOfGasError (RomErrorCode (tr_RomError txResponse)) then
                      let root = (case GetLastStateRoot st of Inl _ \<Rightarrow> 0 | Inr r \<Rightarrow> r);
                          balance = (case GetBalanceByStateRoot st from root of Inl _ \<Rightarrow> 0 | Inr b \<Rightarrow> b)
                      in AList.update from (info\<lparr>irw_Balance := Some balance\<rparr>) (ReadWriteAddresses result)
                    else ReadWriteAddresses result)))"

definition updateWorkerAfterSuccessfulProcessing ::
    "fin_env \<Rightarrow> finalizer \<Rightarrow> hash \<Rightarrow> address \<Rightarrow> bool \<Rightarrow> ProcessBatchResponse \<Rightarrow> finalizer outcome" where
  "updateWorkerAfterSuccessfulProcessing env f txHash txFrom isForced result =
     (if isForced then Ret (f\<lparr>worker := DeleteForcedTx (wenv env) (worker f) txHash txFrom\<rparr>)
      else bnd (of_option (MoveTxPendingToStore (wenv env) (worker f) txHash txFrom)) (\<lambda>w.
        bnd (of_option (UpdateAfterSingleSuccessfulTxExecution (wenv env) w txFrom (oog_balance (stIntf env) txFrom result)))
          (\<lambda>(w, txsToDelete). Ret (fail_all env txsToDelete (\<lambda>t. TrackerReason (FailedReason t)) (f\<lparr>worker := w\<rparr>)))))"

definition delete_tx :: "fin_env \<Rightarrow> finalizer \<Rightarrow> TxTracker \<Rightarrow> finalizer outcome" where
  "delete_tx env f tx = bnd (of_option (DeleteTx (wenv env) (worker f) (Hash tx) (From tx))) (\<lambda>w. Ret (f\<lparr>worker := w\<rparr>))"

definition handleProcessTransactionError ::
    "fin_env \<Rightarrow> finalizer \<Rightarrow> ProcessBatchResponse \<Rightarrow> ProcessTransactionResponse \<Rightarrow> TxTracker \<Rightarrow> finalizer outcome" where
  "handleProcessTransactionError env f result txResponse tx =
     (let errorCode = RomErrorCode (tr_RomError txResponse)
      in if RomErr errorCode = None then Panic
         else if IsROMOutOfCountersError errorCode then
           bnd (delete_tx env f tx) (\<lambda>f. Ret (fst (UpdateTxStatus env f (Hash tx) TxStatusInvalid (RomReason errorCode))))
         else if IsInvalidNonceError errorCode \<or> IsInvalidBalanceError errorCode then
           (let info = map_of (ReadWriteAddresses result) (From tx);
                nonce = Option.bind info irw_Nonce;
                balance = Option.bind info irw_Balance
            in bnd (of_option (MoveTxToNotReady (wenv env) (worker f) (Hash tx) (From tx) nonce balance))
                 (\<lambda>(w, txsToDelete). Ret (fail_all env txsToDelete (\<lambda>_. RomReason errorCode) (f\<lparr>worker := w\<rparr>))))
         else
           bnd (delete_tx env f tx) (\<lambda>f. Ret (fst (UpdateTxStatus env f (Hash tx) TxStatusFailed (RomReason errorCode)))))"

section \<open>The answer of the executor\<close>

text \<open>
  The resources of the transaction are taken from the batch: the needed ones must fit, the used
  ones are subtracted. The result says whether both worked.
\<close>

definition take_resources :: "Batch \<Rightarrow> TxTracker \<Rightarrow> ProcessBatchResponse \<Rightarrow> bool \<times> bool \<times> Batch" where
  "take_resources b tx result =
     (case reserve (imRemainingResources b) (imHighReservedZKCounters b) (pr_UsedZkCounters result)
        (pr_ReservedZkCounters result) (word_of_nat (length (RawTx tx))) of
        (fits, subOverflow, remaining, newHigh) \<Rightarrow>
          (fits, subOverflow, b\<lparr>imRemainingResources := remaining, imHighReservedZKCounters := newHigh\<rparr>))"

definition final_log :: "fin_env \<Rightarrow> ProcessTransactionResponse \<Rightarrow> TxTracker \<Rightarrow> TxTracker" where
  "final_log env txResponse t = t\<lparr>EGPLog := (EGPLog t)\<lparr>egp_Enabled := cfg_Enabled (egp_cfg env),
     GasPriceOC := HasGaspriceOpcode txResponse, BalanceOC := HasBalanceOpcode txResponse,
     ValueFinal := EffectiveGasPrice t\<rparr>\<rparr>"

definition account_tx :: "fin_env \<Rightarrow> TxTracker \<Rightarrow> finalizer \<Rightarrow> ProcessBatchResponse \<Rightarrow> ProcessTransactionResponse \<Rightarrow>
    (finalizer \<times> fin_error option) outcome" where
  "account_tx env tx f result txResponse =
     bnd (wip f) (\<lambda>b.
       case take_resources b tx result of
         (fits, subOverflow, b') \<Rightarrow>
           if \<not> fits \<and> CheckNodeLevelOOC (constraints env) (pr_ReservedZkCounters result) \<noteq> None then
             bnd (delete_tx env f tx) (\<lambda>f.
               Ret (fst (UpdateTxStatus env f (Hash tx) TxStatusInvalid NodeOOC), Some ErrBatchResourceOverFlow))
           else
             bnd (set_wip b' f) (\<lambda>f.
               if \<not> fits \<or> subOverflow then
                 Ret (f\<lparr>worker := UpdateTxZKCounters (wenv env) (worker f) (tr_TxHash txResponse) (From tx)
                          (pr_UsedZkCounters result) (pr_ReservedZkCounters result)\<rparr>, Some ErrBatchResourceOverFlow)
               else
                 (case assign (final_log env txResponse) tx f of
                    (tx, f) \<Rightarrow>
                      bnd (add_tx tx f) (\<lambda>f.
                        bnd (set_wip (b'\<lparr>countOfTxs := countOfTxs b' + 1\<rparr>) f) (\<lambda>f.
                          bnd (updateWorkerAfterSuccessfulProcessing env f (Hash tx) (From tx) False result) (\<lambda>f.
                            Ret (f, None)))))))"

definition handleProcessTransactionResponse ::
    "fin_env \<Rightarrow> TxTracker \<Rightarrow> finalizer \<Rightarrow> ProcessBatchResponse \<Rightarrow> (TxTracker \<times> finalizer \<times> fin_error option) outcome" where
  "handleProcessTransactionResponse env tx f result =
     (case BlockResponses result of
        [] \<Rightarrow> Panic
      | block # _ \<Rightarrow>
          (case TransactionResponses block of
             [] \<Rightarrow> Panic
           | txResponse # _ \<Rightarrow>
               if \<not> IsStateRootChanged (RomErrorCode (tr_RomError txResponse)) then
                 bnd (handleProcessTransactionError env f result txResponse tx) (\<lambda>f.
                   Ret (tx, f, map_option ErrRom (tr_RomError txResponse)))
               else
                 (let (err, upd) = (if IsLastExecution tx then (None, \<lambda>t. t) else second_price (egp_cfg env) tx txResponse);
                      (tx, f) = assign upd tx f
                  in if err \<noteq> None then Ret (tx, f, err)
                     else bnd (account_tx env tx f result txResponse) (\<lambda>(f, err). Ret (tx, f, err)))))"

section \<open>Processing a transaction\<close>

definition tx_request :: "fin_env \<Rightarrow> Batch \<Rightarrow> L2Block \<Rightarrow> byte list \<Rightarrow> ProcessRequest" where
  "tx_request env b l2 txs =
     \<lparr>rq_BatchNumber = batchNumber b, rq_OldStateRoot = imStateRoot b, rq_Coinbase = coinbase b,
      rq_L1InfoRoot_V2 = mockL1InfoRoot, rq_ForcedBlockHashL1 = 0, rq_TimestampLimit_V2 = l2_timestamp l2,
      rq_ForkID = GetForkIDByBatchNumber env (batchNumber b), rq_Transactions = txs,
      rq_SkipFirstChangeL2Block_V2 = True, rq_SkipWriteBlockInfoRoot_V2 = True, rq_SkipVerifyL1InfoRoot_V2 = True,
      rq_L1InfoTreeData_V2 = []\<rparr>"

text \<open>What is done with the answer of the executor or the error of the call.\<close>

definition after_execution ::
    "fin_env \<Rightarrow> TxTracker \<Rightarrow> finalizer \<Rightarrow> proc_error + ProcessBatchResponse \<Rightarrow> (TxTracker \<times> finalizer \<times> fin_error option) outcome" where
  "after_execution env tx f answer =
     (case answer of
        Inl e \<Rightarrow>
          if e = ErrExecutorDBError \<or> e = ErrInvalidTxChangeL2BlockMinTimestamp then Ret (tx, f, Some (ErrProc e))
          else bnd (delete_tx env f tx) (\<lambda>f.
                 case UpdateTxStatus env f (Hash tx) TxStatusInvalid (ExecReason e) of
                   (f, err) \<Rightarrow> Ret (tx, f, map_option ErrPool err))
      | Inr result \<Rightarrow>
          if BlockResponses result = [] then
            (if IsRomLevelError result then Ret (tx, f, Some ErrNoBlockResponses) else Exit)
          else
            bnd (handleProcessTransactionResponse env tx f result) (\<lambda>(tx, f, err).
              case err of
                Some e \<Rightarrow> Ret (tx, f, Some e)
              | None \<Rightarrow>
                  bnd (wip f) (\<lambda>b. bnd (set_wip (b\<lparr>imStateRoot := NewStateRoot result\<rparr>) f) (\<lambda>f. Ret (tx, f, None)))))"

definition processTransaction ::
    "fin_env \<Rightarrow> TxTracker \<Rightarrow> finalizer \<Rightarrow> bool \<Rightarrow> (TxTracker \<times> finalizer \<times> fin_error option) outcome" where
  "processTransaction env tx f firstTxProcess =
     bnd (wip f) (\<lambda>b.
       case wipL2Block f of
         None \<Rightarrow> Panic
       | Some l2 \<Rightarrow>
           (let (l1Price, l2Price) = GetL1AndL2GasPrice env (exec_calls f);
                (err, upd) = (if firstTxProcess then first_price (egp_cfg env) l1Price l2Price tx else (None, \<lambda>t. t));
                (tx, f) = assign upd tx f
            in case err of
                 Some e \<Rightarrow> Ret (tx, f, Some (ErrEgp e))
               | None \<Rightarrow>
                   (let (err, upd) = price_percentage (egp_cfg env) tx; (tx, f) = assign upd tx f
                    in case err of
                         Some e \<Rightarrow> Ret (tx, f, Some (ErrEgp e))
                       | None \<Rightarrow>
                           (case percentage_bytes (EGPPercentage tx) of
                              None \<Rightarrow> Ret (tx, f, Some ErrHexDecode)
                            | Some pctBytes \<Rightarrow>
                                (let answer = ProcessBatchV2 env (exec_calls f) (tx_request env b l2 (RawTx tx @ pctBytes));
                                     f = f\<lparr>exec_calls := exec_calls f + 1\<rparr>
                                 in after_execution env tx f answer)))))"

text \<open>The loop of \<open>finalizeBatches\<close> around it; the first argument bounds its rounds.\<close>

fun process_loop :: "nat \<Rightarrow> fin_env \<Rightarrow> TxTracker \<Rightarrow> finalizer \<Rightarrow> bool \<Rightarrow> (TxTracker \<times> finalizer \<times> fin_error option) outcome option" where
  "process_loop 0 env tx f first = None"
| "process_loop (Suc n) env tx f first =
     (case processTransaction env tx f first of
        Ret (tx', f', err) \<Rightarrow>
          if err = Some ErrEffectiveGasPriceReprocess then process_loop n env tx' f' False
          else Some (Ret (tx', f', err))
      | Exit \<Rightarrow> Some Exit
      | Panic \<Rightarrow> Some Panic
      | Stuck \<Rightarrow> Some Stuck)"

end
