(* ===== verification/TxProcessingProofs.thy ===== *)
theory TxProcessingProofs
  imports TxProcessing
begin

text \<open>
  Proofs about one transaction: the percentage byte, what an execution leaves alone, absence of
  panics, the all-or-nothing accounting of resources, the bound on the number of executions, and
  the price that is charged.
\<close>

section \<open>The percentage byte\<close>

lemma percentage_bytes_eq [simp]: "percentage_bytes pct = Some [pct]"
proof -
  define ds where "ds = (if pct = 0 then [0] else hex_digits (uint pct))"
  define es where "es = (if odd (length ds) then 0 # ds else ds)"
  have u: "0 \<le> uint pct" "uint pct < 16 ^ 2" using uint_bounded [of pct] by simp_all
  note p = hex_digits_props [OF u(1), of 2]
  have ne: "ds \<noteq> []"
  proof (cases "pct = 0")
    case False
    then have "hex_val (hex_digits (uint pct)) \<noteq> 0" using p by (simp add: uint_0_iff)
    then show ?thesis using False by (auto simp: ds_def)
  qed (simp add: ds_def)
  have ds: "hex_val ds = uint pct" "\<forall>d \<in> set ds. d < 16" "length ds \<le> 2" using p u(2) by (auto simp: ds_def)
  have es: "length es = 2" "\<forall>d \<in> set es. d < 16" "hex_val es = uint pct"
  proof -
    have "length ds \<noteq> 0" using ne by simp
    then have "length ds = 1 \<or> length ds = 2" using ds(3) by linarith
    then show "length es = 2" by (auto simp: es_def)
  qed (use ds in \<open>auto simp: es_def\<close>)
  obtain bs where bs: "unhex es = Some bs" "2 * length bs = length es" "be_val bs = hex_val es"
    using unhex_props [of es] es by auto
  then obtain x where "bs = [x]" using es(1) by (cases bs) auto
  then have "unhex es = Some [pct]" using bs es(3) by (simp add: word_uint_eq_iff)
  then show ?thesis
    unfolding percentage_bytes_def ds_def [symmetric] DecodeHex_def es_def [symmetric] .
qed

section \<open>What stays the same\<close>

text \<open>The price calculations do not touch the keys of a tracker.\<close>

lemma same_keys_id [simp]: "same_keys (\<lambda>t. t)"
  by (simp add: same_keys_def)

lemma price_keys [simp]:
  "same_keys (snd (first_price c l1 l2 tx))" "same_keys (snd (price_percentage c tx))"
  "same_keys (snd (compareTxEffectiveGasPrice c tx n g b))" "same_keys (snd (second_price c tx r))"
proof -
  show "same_keys (snd (first_price c l1 l2 tx))"
    by (simp add: first_price_def same_keys_def Let_def split: prod.split sum.split)
  show "same_keys (snd (price_percentage c tx))"
    by (simp add: price_percentage_def same_keys_def split: sum.split)
  have cmp: "same_keys (snd (compareTxEffectiveGasPrice c tx n g b))" for n g b
    by (simp add: compareTxEffectiveGasPrice_def same_keys_def Let_def)
  then show "same_keys (snd (compareTxEffectiveGasPrice c tx n g b))" .
  show "same_keys (snd (second_price c tx r))"
    using cmp unfolding same_keys_def by (simp add: second_price_def Let_def split: prod.split sum.split)
qed

text \<open>Nothing outside the worker and the list of pool updates changes.\<close>

definition same_batch :: "finalizer \<Rightarrow> finalizer \<Rightarrow> bool" where
  "same_batch f f' \<longleftrightarrow> store f' = store f \<and> wipBatch f' = wipBatch f \<and> wipL2Block f' = wipL2Block f \<and>
     exec_calls f' = exec_calls f"

lemma same_batch_refl [simp]: "same_batch f f"
  by (simp add: same_batch_def)

lemma same_batch_trans: "same_batch f g \<Longrightarrow> same_batch g h \<Longrightarrow> same_batch f h"
  by (simp add: same_batch_def)

lemma same_batch_worker [simp]: "same_batch f (g\<lparr>worker := w\<rparr>) = same_batch f g"
  by (simp add: same_batch_def)

lemma same_batch_pool [simp]: "same_batch f (fst (UpdateTxStatus env g h s y)) = same_batch f g"
  by (simp add: same_batch_def)

lemma same_batch_assign [simp]: "same_batch f (snd (assign g tx f'))= same_batch f f'"
  by (simp add: same_batch_def)

lemma fail_all_keeps: "same_batch f (fail_all env ts why f) \<and> worker (fail_all env ts why f) = worker f"
proof (induction ts arbitrary: f)
  case (Cons t ts)
  let ?g = "fst (UpdateTxStatus env f (Hash t) TxStatusFailed (why t))"
  have g: "same_batch f ?g" by simp
  show ?case using Cons [of ?g] same_batch_trans [OF g] by simp
qed simp

lemma fail_all_same [simp]: "same_batch f (fail_all env ts why g) = same_batch f g"
  using fail_all_keeps [of g] by (auto simp: same_batch_def)

lemma delete_tx_safe:
  assumes "w_wf (wenv env) so (worker f)"
  shows "\<exists>f'. delete_tx env f tx = Ret f' \<and> same_batch f f' \<and> w_wf (wenv env) so (worker f')"
  using DeleteTx_wf [OF assms, of "Hash tx" "From tx"] by (auto simp: delete_tx_def)

lemma delete_tx_same: "delete_tx env f tx = Ret f' \<Longrightarrow> same_batch f f'"
  by (auto simp: delete_tx_def bnd_Ret_iff)

lemma updateWorker_safe:
  assumes "w_wf (wenv env) so (worker f)"
  shows "\<exists>f'. updateWorkerAfterSuccessfulProcessing env f h a forced result = Ret f' \<and> same_batch f f' \<and>
    w_wf (wenv env) so (worker f')"
proof (cases forced)
  case True
  then show ?thesis using queue_sets_wf [OF assms] by (auto simp: updateWorkerAfterSuccessfulProcessing_def)
next
  case False
  obtain w where w: "MoveTxPendingToStore (wenv env) (worker f) h a = Some w" "w_wf (wenv env) so w"
    using MoveTxPendingToStore_wf [OF assms, of h a] by auto
  obtain w' ts where w': "UpdateAfterSingleSuccessfulTxExecution (wenv env) w a (oog_balance (stIntf env) a result) = Some (w', ts)"
    "w_wf (wenv env) so w'"
    using UpdateAfterSingleSuccessfulTxExecution_wf [OF w(2), of a "oog_balance (stIntf env) a result"] by auto
  have "same_batch f (fail_all env ts (\<lambda>t. TrackerReason (FailedReason t)) (f\<lparr>worker := w'\<rparr>)) \<and>
     worker (fail_all env ts (\<lambda>t. TrackerReason (FailedReason t)) (f\<lparr>worker := w'\<rparr>)) = w'"
    using fail_all_keeps [of "f\<lparr>worker := w'\<rparr>"] by (simp add: same_batch_def)
  then show ?thesis using False w w' by (simp add: updateWorkerAfterSuccessfulProcessing_def)
qed

lemma updateWorker_same:
  "updateWorkerAfterSuccessfulProcessing env f h a forced result = Ret f' \<Longrightarrow> same_batch f f'"
  by (auto simp: updateWorkerAfterSuccessfulProcessing_def bnd_Ret_iff split: if_splits)

section \<open>No panic, and the worker stays well formed\<close>

lemma rom_error_not_nil:
  assumes "\<not> IsStateRootChanged c"
  shows "RomErr c \<noteq> None"
proof -
  have "0 \<le> c" "c \<le> 34" "c \<noteq> 1"
    using assms by (auto simp: IsStateRootChanged_def IsIntrinsicError_def IsROMOutOfCountersError_def)
  then show ?thesis using rom.nil_iff [of c] by simp
qed

lemma skipped_has_error:
  assumes "\<not> IsStateRootChanged (RomErrorCode e)"
  shows "e \<noteq> None"
proof
  assume "e = None"
  then have "RomErrorCode e = 1" by (simp add: RomErrorCode_def RomErrorCode_cases_def)
  then show False using assms
    by (simp add: IsStateRootChanged_def IsIntrinsicError_def IsROMOutOfCountersError_def)
qed

lemma handleError_safe:
  assumes wf: "w_wf (wenv env) so (worker f)" and "\<not> IsStateRootChanged (RomErrorCode (tr_RomError r))"
  shows "\<exists>f'. handleProcessTransactionError env f result r tx = Ret f' \<and> same_batch f f' \<and> w_wf (wenv env) so (worker f')"
proof -
  let ?c = "RomErrorCode (tr_RomError r)"
  have nn: "RomErr ?c \<noteq> None" using rom_error_not_nil [OF assms(2)] .
  obtain f1 where del: "delete_tx env f tx = Ret f1" "same_batch f f1" "w_wf (wenv env) so (worker f1)"
    using delete_tx_safe [OF wf] by blast
  let ?info = "map_of (ReadWriteAddresses result) (From tx)"
  obtain w ts where mv: "MoveTxToNotReady (wenv env) (worker f) (Hash tx) (From tx) (Option.bind ?info irw_Nonce)
      (Option.bind ?info irw_Balance) = Some (w, ts)" "w_wf (wenv env) so w"
    using MoveTxToNotReady_wf [OF wf, of "Hash tx" "From tx"] by blast
  have k: "same_batch f (fail_all env ts (\<lambda>_. RomReason ?c) (f\<lparr>worker := w\<rparr>))"
    "worker (fail_all env ts (\<lambda>_. RomReason ?c) (f\<lparr>worker := w\<rparr>)) = w"
    using fail_all_keeps [of "f\<lparr>worker := w\<rparr>"] by (simp_all add: same_batch_def)
  show ?thesis
    unfolding handleProcessTransactionError_def Let_def using nn del mv k by simp
qed

lemma handleError_same: "handleProcessTransactionError env f result r tx = Ret f' \<Longrightarrow> same_batch f f'"
  unfolding handleProcessTransactionError_def Let_def
  by (auto simp: bnd_Ret_iff split: if_splits dest: delete_tx_same)

lemma final_log_keys [simp]:
  "same_keys (final_log env r)" "Hash (final_log env r t) = Hash t" "From (final_log env r t) = From t"
  "RawTx (final_log env r t) = RawTx t" "GasPrice (final_log env r t) = GasPrice t"
  "EffectiveGasPrice (final_log env r t) = EffectiveGasPrice t" "EGPPercentage (final_log env r t) = EGPPercentage t"
  by (simp_all add: same_keys_def final_log_def)

text \<open>The state in which the worker is told about the transaction.\<close>

definition added :: "fin_env \<Rightarrow> TxTracker \<Rightarrow> finalizer \<Rightarrow> ProcessTransactionResponse \<Rightarrow> batch_ref \<Rightarrow> L2Block \<Rightarrow> Batch \<Rightarrow> finalizer" where
  "added env tx f r ref l2 b' = set_batch ref (b'\<lparr>countOfTxs := countOfTxs b' + 1\<rparr>)
     ((snd (assign (final_log env r) tx (set_batch ref b' f)))
        \<lparr>wipL2Block := Some (l2\<lparr>transactions := transactions l2 @ [final_log env r tx]\<rparr>)\<rparr>)"

lemma added_simps [simp]:
  "store (added env tx f r ref l2 b') = (store f)(ref := b'\<lparr>countOfTxs := countOfTxs b' + 1\<rparr>)"
  "wipBatch (added env tx f r ref l2 b') = wipBatch f" "exec_calls (added env tx f r ref l2 b') = exec_calls f"
  "wipL2Block (added env tx f r ref l2 b') = Some (l2\<lparr>transactions := transactions l2 @ [final_log env r tx]\<rparr>)"
  by (simp_all add: added_def)

lemma added_wf: "w_wf we so (worker f) \<Longrightarrow> w_wf we so (worker (added env tx f r ref l2 b'))"
  using assign_wf [of we so "set_batch ref b' f" "final_log env r" tx] by (simp add: added_def)

lemma account_tx_eq:
  assumes "wipBatch f = Some ref" and "wipL2Block f = Some l2"
    and t: "take_resources (store f ref) tx result = (fits, ov, b')"
  shows "account_tx env tx f result r =
    (if \<not> fits \<and> CheckNodeLevelOOC (constraints env) (pr_ReservedZkCounters result) \<noteq> None then
       bnd (delete_tx env f tx) (\<lambda>f. Ret (fst (UpdateTxStatus env f (Hash tx) TxStatusInvalid NodeOOC), Some ErrBatchResourceOverFlow))
     else if \<not> fits \<or> ov then
       Ret ((set_batch ref b' f)\<lparr>worker := UpdateTxZKCounters (wenv env) (worker f) (tr_TxHash r) (From tx)
         (pr_UsedZkCounters result) (pr_ReservedZkCounters result)\<rparr>, Some ErrBatchResourceOverFlow)
     else bnd (updateWorkerAfterSuccessfulProcessing env (added env tx f r ref l2 b') (Hash tx) (From tx) False result)
       (\<lambda>f. Ret (f, None)))"
proof -
  have w: "wip f = Ret (store f ref)" "set_wip b' f = Ret (set_batch ref b' f)"
    using assms(1) by (simp_all add: wip_def set_wip_def)
  obtain tx1 f1 where a: "assign (final_log env r) tx (set_batch ref b' f) = (tx1, f1)"
    by (cases "assign (final_log env r) tx (set_batch ref b' f)")
  have f1: "tx1 = final_log env r tx" "wipBatch f1 = Some ref" "wipL2Block f1 = Some l2"
    using assign_simps(1,3,4) [of "final_log env r" tx "set_batch ref b' f"] a assms(1,2) by simp_all
  have ad: "added env tx f r ref l2 b' = set_batch ref (b'\<lparr>countOfTxs := countOfTxs b' + 1\<rparr>)
      (f1\<lparr>wipL2Block := Some (l2\<lparr>transactions := transactions l2 @ [final_log env r tx]\<rparr>)\<rparr>)"
    by (simp add: added_def a)
  show ?thesis
    unfolding account_tx_def w bnd.simps t prod.case ad
    using f1 by (simp add: a add_tx_def set_wip_def del: assign_simps)
qed

lemma account_safe:
  assumes wf: "w_wf (wenv env) so (worker f)" and "wipBatch f = Some ref" and "wipL2Block f = Some l2"
  shows "\<exists>f' err. account_tx env tx f result r = Ret (f', err) \<and> w_wf (wenv env) so (worker f')"
proof -
  obtain fits ov b' where t: "take_resources (store f ref) tx result = (fits, ov, b')"
    by (cases "take_resources (store f ref) tx result")
  obtain f1 where del: "delete_tx env f tx = Ret f1" "w_wf (wenv env) so (worker f1)"
    using delete_tx_safe [OF wf] by blast
  obtain f2 where upd: "updateWorkerAfterSuccessfulProcessing env (added env tx f r ref l2 b') (Hash tx) (From tx) False result = Ret f2"
    "w_wf (wenv env) so (worker f2)" using updateWorker_safe [OF added_wf [OF wf]] by blast
  show ?thesis
    unfolding account_tx_eq [OF assms(2,3) t] using del upd UpdateTxZKCounters_wf [OF wf] by simp
qed

lemma take_resources_props:
  assumes "take_resources b tx result = (fits, ov, b')"
  defines "used \<equiv> \<lparr>br_ZKCounters = pr_UsedZkCounters result, br_Bytes = word_of_nat (length (RawTx tx))\<rparr>"
  shows "\<not> fits \<Longrightarrow> b' = b \<and> \<not> ov"
    and "ov \<Longrightarrow> imRemainingResources b' = imRemainingResources b"
    and "fits \<Longrightarrow> \<not> ov \<Longrightarrow> br_le used (imRemainingResources b) \<and> imRemainingResources b' = fst (br_Sub (imRemainingResources b) used)"
    and "countOfTxs b' = countOfTxs b" "imStateRoot b' = imStateRoot b"
proof -
  obtain rem high where r: "reserve (imRemainingResources b) (imHighReservedZKCounters b) (pr_UsedZkCounters result)
        (pr_ReservedZkCounters result) (word_of_nat (length (RawTx tx))) = (fits, ov, rem, high)"
    and b': "b' = b\<lparr>imRemainingResources := rem, imHighReservedZKCounters := high\<rparr>"
    using assms(1) by (auto simp: take_resources_def split: prod.splits)
  note p = reserve_props [OF r]
  show "\<not> fits \<Longrightarrow> b' = b \<and> \<not> ov" using p(1) b' by (cases b) simp
  show "ov \<Longrightarrow> imRemainingResources b' = imRemainingResources b" "countOfTxs b' = countOfTxs b" "imStateRoot b' = imStateRoot b"
    using p(2) b' by simp_all
  show "fits \<Longrightarrow> \<not> ov \<Longrightarrow> br_le used (imRemainingResources b) \<and> imRemainingResources b' = fst (br_Sub (imRemainingResources b) used)"
    using p(3) b' by (simp add: used_def)
qed

text \<open>All or nothing: either the transaction is in the block and its resources are taken, or nothing has changed.\<close>

definition untouched :: "finalizer \<Rightarrow> finalizer \<Rightarrow> batch_ref \<Rightarrow> bool" where
  "untouched f f' ref \<longleftrightarrow> wipBatch f' = wipBatch f \<and> wipL2Block f' = wipL2Block f \<and>
     (\<forall>r. r \<noteq> ref \<longrightarrow> store f' r = store f r) \<and>
     imRemainingResources (store f' ref) = imRemainingResources (store f ref) \<and>
     countOfTxs (store f' ref) = countOfTxs (store f ref) \<and> imStateRoot (store f' ref) = imStateRoot (store f ref)"

definition accounted :: "finalizer \<Rightarrow> finalizer \<Rightarrow> batch_ref \<Rightarrow> L2Block \<Rightarrow> TxTracker \<Rightarrow> ProcessBatchResponse \<Rightarrow> bool" where
  "accounted f f' ref l2 t result \<longleftrightarrow>
     (let b = store f ref; b' = store f' ref; used = \<lparr>br_ZKCounters = pr_UsedZkCounters result, br_Bytes = word_of_nat (length (RawTx t))\<rparr>
      in wipBatch f' = wipBatch f \<and> wipL2Block f' = Some (l2\<lparr>transactions := transactions l2 @ [t]\<rparr>) \<and>
         (\<forall>r. r \<noteq> ref \<longrightarrow> store f' r = store f r) \<and>
         br_le used (imRemainingResources b) \<and> imRemainingResources b' = fst (br_Sub (imRemainingResources b) used) \<and>
         countOfTxs b' = countOfTxs b + 1)"

lemma account_errors:
  assumes "account_tx env tx f result r = Ret (f', err)"
  shows "err = None \<or> err = Some ErrBatchResourceOverFlow"
proof -
  obtain b where b: "wip f = Ret b" using assms by (auto simp: account_tx_def bnd_Ret_iff)
  obtain fits ov b' where t: "take_resources b tx result = (fits, ov, b')" by (cases "take_resources b tx result")
  show ?thesis
    using assms b t by (auto simp: account_tx_def bnd_Ret_iff assign_def split: if_splits)
qed

lemma account_effect:
  assumes "account_tx env tx f result r = Ret (f', err)" and "wipBatch f = Some ref" and "wipL2Block f = Some l2"
  shows "if err = None then accounted f f' ref l2 (final_log env r tx) result \<and> imStateRoot (store f' ref) = imStateRoot (store f ref)
    else err = Some ErrBatchResourceOverFlow \<and> untouched f f' ref"
    and "exec_calls f' = exec_calls f"
proof -
  obtain fits ov b' where t: "take_resources (store f ref) tx result = (fits, ov, b')"
    by (cases "take_resources (store f ref) tx result")
  note p = take_resources_props [OF t]
  note e = assms(1) [unfolded account_tx_eq [OF assms(2,3) t]]
  consider (ooc) "\<not> fits" "CheckNodeLevelOOC (constraints env) (pr_ReservedZkCounters result) \<noteq> None"
    | (over) "\<not> fits \<or> ov" "fits \<or> CheckNodeLevelOOC (constraints env) (pr_ReservedZkCounters result) = None"
    | (ok) "fits" "\<not> ov" by blast
  then have "(if err = None then accounted f f' ref l2 (final_log env r tx) result \<and> imStateRoot (store f' ref) = imStateRoot (store f ref)
    else err = Some ErrBatchResourceOverFlow \<and> untouched f f' ref) \<and> exec_calls f' = exec_calls f"
  proof cases
    case ooc
    then obtain f1 where "delete_tx env f tx = Ret f1" "err = Some ErrBatchResourceOverFlow"
      "f' = fst (UpdateTxStatus env f1 (Hash tx) TxStatusInvalid NodeOOC)" using e by (auto simp: bnd_Ret_iff)
    then show ?thesis using delete_tx_same [of env f tx f1] by (simp add: untouched_def same_batch_def)
  next
    case over
    then have "err = Some ErrBatchResourceOverFlow" "store f' = (store f)(ref := b')" "wipBatch f' = wipBatch f"
      "wipL2Block f' = wipL2Block f" "exec_calls f' = exec_calls f" using e by (auto split: if_splits)
    moreover have "imRemainingResources b' = imRemainingResources (store f ref)" using p(1,2) over(1) by blast
    ultimately show ?thesis using p(4,5) by (simp add: untouched_def)
  next
    case ok
    then have "updateWorkerAfterSuccessfulProcessing env (added env tx f r ref l2 b') (Hash tx) (From tx) False result = Ret f'"
      "err = None" using e by (auto simp: bnd_Ret_iff)
    then show ?thesis using updateWorker_same p(3) [OF ok] p(4,5) by (simp add: accounted_def same_batch_def Let_def)
  qed
  then show "if err = None then accounted f f' ref l2 (final_log env r tx) result \<and> imStateRoot (store f' ref) = imStateRoot (store f ref)
    else err = Some ErrBatchResourceOverFlow \<and> untouched f f' ref" "exec_calls f' = exec_calls f" by blast+
qed

text \<open>The answer of the executor.\<close>

lemma handleResponse_cases:
  assumes "BlockResponses result = block # bs" and "TransactionResponses block = r # rs"
  obtains (skip) "\<not> IsStateRootChanged (RomErrorCode (tr_RomError r))"
      "handleProcessTransactionResponse env tx f result =
        bnd (handleProcessTransactionError env f result r tx) (\<lambda>f. Ret (tx, f, map_option ErrRom (tr_RomError r)))"
  | (again) e where "\<not> IsLastExecution tx" "fst (second_price (egp_cfg env) tx r) = Some e"
      "handleProcessTransactionResponse env tx f result =
        Ret (snd (second_price (egp_cfg env) tx r) tx, snd (assign (snd (second_price (egp_cfg env) tx r)) tx f), Some e)"
  | (go) upd where "IsLastExecution tx \<longrightarrow> upd = (\<lambda>t. t)"
      "\<not> IsLastExecution tx \<longrightarrow> upd = snd (second_price (egp_cfg env) tx r) \<and> fst (second_price (egp_cfg env) tx r) = None"
      "same_keys upd"
      "handleProcessTransactionResponse env tx f result =
        bnd (account_tx env (upd tx) (snd (assign upd tx f)) result r) (\<lambda>(f, err). Ret (upd tx, f, err))"
proof (cases "IsStateRootChanged (RomErrorCode (tr_RomError r))")
  case False
  then show ?thesis using assms skip by (simp add: handleProcessTransactionResponse_def)
next
  case changed: True
  have eq: "handleProcessTransactionResponse env tx f result =
     (let ep = (if IsLastExecution tx then (None, \<lambda>t. t) else second_price (egp_cfg env) tx r)
      in if fst ep \<noteq> None then Ret (snd ep tx, snd (assign (snd ep) tx f), fst ep)
         else bnd (account_tx env (snd ep tx) (snd (assign (snd ep) tx f)) result r) (\<lambda>(f, err). Ret (snd ep tx, f, err)))"
    using assms changed by (simp add: handleProcessTransactionResponse_def assign_def Let_def case_prod_beta)
  show ?thesis
  proof (cases "IsLastExecution tx \<or> fst (second_price (egp_cfg env) tx r) = None")
    case True
    then show ?thesis
      by (intro go [of "if IsLastExecution tx then (\<lambda>t. t) else snd (second_price (egp_cfg env) tx r)"])
        (auto simp: eq Let_def)
  next
    case False
    then show ?thesis using again by (auto simp: eq Let_def)
  qed
qed

lemma second_price_error: "fst (second_price c tx r) = Some e \<Longrightarrow> e = ErrEffectiveGasPriceReprocess \<or> (\<exists>x. e = ErrEgp x)"
  by (auto simp: second_price_def compareTxEffectiveGasPrice_def Let_def split: prod.splits sum.splits if_splits)

lemma handleResponse_safe:
  assumes wf: "w_wf (wenv env) so (worker f)" and wip: "wipBatch f = Some ref" "wipL2Block f = Some l2"
    and br: "BlockResponses result = block # bs" "TransactionResponses block = r # rs"
  shows "\<exists>tx' f' err. handleProcessTransactionResponse env tx f result = Ret (tx', f', err) \<and> w_wf (wenv env) so (worker f') \<and>
    wipBatch f' = Some ref"
proof (rule handleResponse_cases [OF br, of env tx f])
  assume s: "\<not> IsStateRootChanged (RomErrorCode (tr_RomError r))" and
    e: "handleProcessTransactionResponse env tx f result =
        bnd (handleProcessTransactionError env f result r tx) (\<lambda>f. Ret (tx, f, map_option ErrRom (tr_RomError r)))"
  show ?thesis using handleError_safe [OF wf s, of result tx] e wip by (auto simp: same_batch_def)
next
  fix e assume "handleProcessTransactionResponse env tx f result =
        Ret (snd (second_price (egp_cfg env) tx r) tx, snd (assign (snd (second_price (egp_cfg env) tx r)) tx f), Some e)"
  then show ?thesis using assign_wf [OF wf] wip by simp
next
  fix upd assume k: "same_keys upd" and e: "handleProcessTransactionResponse env tx f result =
        bnd (account_tx env (upd tx) (snd (assign upd tx f)) result r) (\<lambda>(f, err). Ret (upd tx, f, err))"
  let ?g = "snd (assign upd tx f)"
  have g: "wipBatch ?g = Some ref" "wipL2Block ?g = Some l2" using wip by simp_all
  obtain f' err where a: "account_tx env (upd tx) ?g result r = Ret (f', err)" "w_wf (wenv env) so (worker f')"
    using account_safe [OF assign_wf [OF wf k] g] by blast
  have "wipBatch f' = Some ref" using account_effect(1) [OF a(1) g] g(1)
    by (auto simp: accounted_def untouched_def Let_def split: if_splits)
  then show ?thesis using e a by simp
qed

section \<open>One execution\<close>

lemma price_fields [simp]:
  "GasPrice (snd (first_price c l1 l2 tx) t) = GasPrice t" "RawTx (snd (first_price c l1 l2 tx) t) = RawTx t"
  "GasPrice (snd (price_percentage c tx) t) = GasPrice t" "RawTx (snd (price_percentage c tx) t) = RawTx t"
  "EffectiveGasPrice (snd (price_percentage c tx) t) = EffectiveGasPrice t"
  "IsLastExecution (snd (price_percentage c tx) t) = IsLastExecution t"
  by (simp_all add: first_price_def price_percentage_def Let_def split: prod.split sum.split)

lemma second_price_fields [simp]:
  "GasPrice (snd (second_price c tx r) t) = GasPrice t" "RawTx (snd (second_price c tx r) t) = RawTx t"
  "EGPPercentage (snd (second_price c tx r) t) = EGPPercentage t" "IsLastExecution (snd (second_price c tx r) t)"
  by (simp_all add: second_price_def compareTxEffectiveGasPrice_def Let_def split: prod.split sum.split)

text \<open>The trackers before and after the percentage is chosen.\<close>

definition at_first :: "fin_env \<Rightarrow> finalizer \<Rightarrow> bool \<Rightarrow> TxTracker \<Rightarrow> egp_error option \<times> (TxTracker \<Rightarrow> TxTracker)" where
  "at_first env f first tx = (if first then first_price (egp_cfg env) (fst (GetL1AndL2GasPrice env (exec_calls f)))
     (snd (GetL1AndL2GasPrice env (exec_calls f))) tx else (None, \<lambda>t. t))"

lemma at_first_fields [simp]:
  "same_keys (snd (at_first env f first tx))" "GasPrice (snd (at_first env f first tx) t) = GasPrice t"
  "RawTx (snd (at_first env f first tx) t) = RawTx t"
  by (simp_all add: at_first_def)

lemma processTransaction_cases:
  assumes "wipBatch f = Some ref" and "wipL2Block f = Some l2"
  obtains (no_price) t1 f1 e where "processTransaction env tx f first = Ret (t1, f1, Some (ErrEgp e))" "same_batch f f1"
      "\<forall>so. w_wf (wenv env) so (worker f) \<longrightarrow> w_wf (wenv env) so (worker f1)"
  | (run) t1 t2 f2 where "fst (at_first env f first tx) = None" "t1 = snd (at_first env f first tx) tx"
      "fst (price_percentage (egp_cfg env) t1) = None" "t2 = snd (price_percentage (egp_cfg env) t1) t1"
      "processTransaction env tx f first = after_execution env t2 (f2\<lparr>exec_calls := exec_calls f + 1\<rparr>)
         (ProcessBatchV2 env (exec_calls f) (tx_request env (store f ref) l2 (RawTx tx @ [EGPPercentage t2])))"
      "same_batch f f2" "\<forall>so. w_wf (wenv env) so (worker f) \<longrightarrow> w_wf (wenv env) so (worker f2)"
proof -
  define t1 f1 where "t1 = snd (at_first env f first tx) tx" and "f1 = snd (assign (snd (at_first env f first tx)) tx f)"
  define t2 f2 where "t2 = snd (price_percentage (egp_cfg env) t1) t1"
    and "f2 = snd (assign (snd (price_percentage (egp_cfg env) t1)) t1 f1)"
  have k: "same_batch f f1" "same_batch f f2" "RawTx t2 = RawTx tx"
    by (simp_all add: f1_def f2_def t1_def t2_def)
  have w1: "w_wf (wenv env) so (worker f1)" if "w_wf (wenv env) so (worker f)" for so
    using assign_wf [OF that] by (simp add: f1_def)
  have w2: "w_wf (wenv env) so (worker f2)" if "w_wf (wenv env) so (worker f)" for so
    using assign_wf [OF w1 [OF that]] by (simp add: f2_def)
  have eq: "processTransaction env tx f first =
     (case fst (at_first env f first tx) of
        Some e \<Rightarrow> Ret (t1, f1, Some (ErrEgp e))
      | None \<Rightarrow> (case fst (price_percentage (egp_cfg env) t1) of
          Some e \<Rightarrow> Ret (t2, f2, Some (ErrEgp e))
        | None \<Rightarrow> after_execution env t2 (f2\<lparr>exec_calls := exec_calls f + 1\<rparr>)
            (ProcessBatchV2 env (exec_calls f) (tx_request env (store f ref) l2 (RawTx tx @ [EGPPercentage t2])))))"
    using assms k unfolding processTransaction_def at_first_def t1_def f1_def t2_def f2_def same_batch_def
    by (cases first) (simp_all add: wip_def assign_def Let_def case_prod_beta split: option.split)
  show ?thesis
  proof (cases "fst (at_first env f first tx)")
    case (Some e) then show ?thesis using no_price [of t1 f1 e] k w1 eq by simp
  next
    case None
    show ?thesis
    proof (cases "fst (price_percentage (egp_cfg env) t1)")
      case (Some e) then show ?thesis using no_price [of t2 f2 e] None k w2 eq by simp
    next
      case none2: None
      show ?thesis by (rule run [of t1 t2 f2]) (use None none2 k w2 eq t1_def t2_def in simp_all)
    qed
  qed
qed

text \<open>An answer of the executor with blocks, the first of which has no response to a transaction.\<close>

definition empty_answer :: "proc_error + ProcessBatchResponse \<Rightarrow> bool" where
  "empty_answer answer = (case answer of
     Inr result \<Rightarrow> (case BlockResponses result of block # _ \<Rightarrow> TransactionResponses block = [] | [] \<Rightarrow> False)
   | Inl _ \<Rightarrow> False)"

lemma after_execution_empty:
  "empty_answer answer \<Longrightarrow> after_execution env tx f answer = Panic"
  by (auto simp: empty_answer_def after_execution_def handleProcessTransactionResponse_def split: sum.splits list.splits)

lemma after_execution_safe:
  assumes wf: "w_wf (wenv env) so (worker f)" and wip: "wipBatch f = Some ref" "wipL2Block f = Some l2"
    and ans: "\<And>result block bs. answer = Inr result \<Longrightarrow> BlockResponses result = block # bs \<Longrightarrow> TransactionResponses block \<noteq> []"
  shows "after_execution env tx f answer = Exit \<or>
    (\<exists>tx' f' err. after_execution env tx f answer = Ret (tx', f', err) \<and> w_wf (wenv env) so (worker f'))"
proof (cases answer)
  case (Inl e)
  obtain f1 where "delete_tx env f tx = Ret f1" "w_wf (wenv env) so (worker f1)" using delete_tx_safe [OF wf] by blast
  then show ?thesis using Inl wf by (auto simp: after_execution_def UpdateTxStatus_def)
next
  case (Inr result)
  show ?thesis
  proof (cases "BlockResponses result")
    case Nil
    then show ?thesis using Inr wf by (simp add: after_execution_def)
  next
    case (Cons block bs)
    then obtain r rs where r: "TransactionResponses block = r # rs"
      using ans [OF Inr Cons] by (cases "TransactionResponses block") auto
    obtain tx' f' err where h: "handleProcessTransactionResponse env tx f result = Ret (tx', f', err)"
      "w_wf (wenv env) so (worker f')" "wipBatch f' = Some ref" using handleResponse_safe [OF wf wip Cons r] by blast
    then show ?thesis using Inr Cons by (cases err) (simp_all add: after_execution_def wip_def set_wip_def)
  qed
qed

lemma processTransaction_safe:
  assumes "w_wf (wenv env) so (worker f)" and "wipBatch f = Some ref" and "wipL2Block f = Some l2"
  shows "(processTransaction env tx f first = Panic \<and>
      (\<exists>pct. empty_answer (ProcessBatchV2 env (exec_calls f) (tx_request env (store f ref) l2 (RawTx tx @ [pct]))))) \<or>
    processTransaction env tx f first = Exit \<or>
    (\<exists>tx' f' err. processTransaction env tx f first = Ret (tx', f', err) \<and> w_wf (wenv env) so (worker f'))"
proof (rule processTransaction_cases [OF assms(2,3), of env tx first])
  fix t2 :: TxTracker and f2 :: finalizer
  let ?answer = "ProcessBatchV2 env (exec_calls f) (tx_request env (store f ref) l2 (RawTx tx @ [EGPPercentage t2]))"
  assume e: "processTransaction env tx f first = after_execution env t2 (f2\<lparr>exec_calls := exec_calls f + 1\<rparr>) ?answer"
    and s: "same_batch f f2" "\<forall>so. w_wf (wenv env) so (worker f) \<longrightarrow> w_wf (wenv env) so (worker f2)"
  show ?thesis
  proof (cases "empty_answer ?answer")
    case True
    then show ?thesis using e after_execution_empty by auto
  next
    case False
    let ?g = "f2\<lparr>exec_calls := exec_calls f + 1\<rparr>"
    have "after_execution env t2 ?g ?answer = Exit \<or>
        (\<exists>tx' f' err. after_execution env t2 ?g ?answer = Ret (tx', f', err) \<and> w_wf (wenv env) so (worker f'))"
      by (rule after_execution_safe) (use s assms False in \<open>auto simp: same_batch_def empty_answer_def\<close>)
    then show ?thesis unfolding e by blast
  qed
qed (use assms(1) in auto)

lemma after_execution_responses:
  assumes "after_execution env tx f (Inr result) = Ret y" and "BlockResponses result = block # bs"
  shows "TransactionResponses block \<noteq> []"
  using assms by (auto simp: after_execution_def handleProcessTransactionResponse_def)

lemma processTransaction_wf:
  assumes p: "processTransaction env tx f first = Ret (tx', f', err)" and wf: "w_wf (wenv env) so (worker f)"
  shows "w_wf (wenv env) so (worker f')"
proof -
  obtain ref l2 where wip: "wipBatch f = Some ref" "wipL2Block f = Some l2"
    using p by (cases "wipBatch f"; cases "wipL2Block f") (auto simp: processTransaction_def wip_def)
  show ?thesis
  proof (rule processTransaction_cases [OF wip, of env tx first])
    fix t2 :: TxTracker and f2 :: finalizer
    let ?g = "f2\<lparr>exec_calls := exec_calls f + 1\<rparr>"
    let ?a = "ProcessBatchV2 env (exec_calls f) (tx_request env (store f ref) l2 (RawTx tx @ [EGPPercentage t2]))"
    assume e: "processTransaction env tx f first = after_execution env t2 ?g ?a"
      and s: "same_batch f f2" "\<forall>so. w_wf (wenv env) so (worker f) \<longrightarrow> w_wf (wenv env) so (worker f2)"
    have "TransactionResponses block \<noteq> []" if "?a = Inr result" "BlockResponses result = block # bs" for result block bs
      using p that e by (auto dest: after_execution_responses)
    then have "after_execution env t2 ?g ?a = Exit \<or>
      (\<exists>tx' f' err. after_execution env t2 ?g ?a = Ret (tx', f', err) \<and> w_wf (wenv env) so (worker f'))"
      by (intro after_execution_safe [where ref = ref and ?l2.0 = l2]) (use s wf wip in \<open>auto simp: same_batch_def\<close>)
    then show ?thesis using p e by auto
  qed (use p wf in auto)
qed

text \<open>All or nothing, for one execution.\<close>

definition outcome_ok :: "fin_env \<Rightarrow> finalizer \<Rightarrow> finalizer \<Rightarrow> batch_ref \<Rightarrow> L2Block \<Rightarrow> proc_error + ProcessBatchResponse \<Rightarrow>
    TxTracker \<Rightarrow> fin_error option \<Rightarrow> bool" where
  "outcome_ok env f f' ref l2 answer tx' err \<longleftrightarrow> untouched f f' ref \<or>
     (err = None \<and> (\<exists>result r. answer = Inr result \<and> accounted f f' ref l2 (final_log env r tx') result \<and>
        imStateRoot (store f' ref) = NewStateRoot result))"

lemma untouched_trans: "untouched f g ref \<Longrightarrow> untouched g h ref \<Longrightarrow> untouched f h ref"
  by (simp add: untouched_def)

lemma same_untouched: "same_batch f f' \<Longrightarrow> untouched f f' ref"
  by (simp add: same_batch_def untouched_def)

lemma handleResponse_effect:
  assumes h: "handleProcessTransactionResponse env tx f result = Ret (tx', f', err)"
    and wip: "wipBatch f = Some ref" "wipL2Block f = Some l2"
    and br: "BlockResponses result = block # bs" "TransactionResponses block = r # rs"
  shows "(if err = None then accounted f f' ref l2 (final_log env r tx') result else untouched f f' ref) \<and>
    exec_calls f' = exec_calls f"
proof (rule handleResponse_cases [OF br, of env tx f])
  assume s: "\<not> IsStateRootChanged (RomErrorCode (tr_RomError r))"
    "handleProcessTransactionResponse env tx f result =
        bnd (handleProcessTransactionError env f result r tx) (\<lambda>f. Ret (tx, f, map_option ErrRom (tr_RomError r)))"
  have "handleProcessTransactionError env f result r tx = Ret f'" using h [unfolded s(2)] by (auto simp: bnd_Ret_iff)
  then have "same_batch f f'" by (rule handleError_same)
  moreover have "err \<noteq> None" using h [unfolded s(2)] skipped_has_error [OF s(1)] by (auto simp: bnd_Ret_iff)
  ultimately show ?thesis using same_untouched [of f f' ref] by (auto simp: same_batch_def)
next
  fix e assume "handleProcessTransactionResponse env tx f result =
        Ret (snd (second_price (egp_cfg env) tx r) tx, snd (assign (snd (second_price (egp_cfg env) tx r)) tx f), Some e)"
  then show ?thesis using h by (auto simp: untouched_def)
next
  fix upd assume e: "handleProcessTransactionResponse env tx f result =
        bnd (account_tx env (upd tx) (snd (assign upd tx f)) result r) (\<lambda>(f, err). Ret (upd tx, f, err))"
  let ?g = "snd (assign upd tx f)"
  have g: "wipBatch ?g = Some ref" "wipL2Block ?g = Some l2" using wip by simp_all
  have a: "account_tx env (upd tx) ?g result r = Ret (f', err)" and t: "tx' = upd tx"
    using h [unfolded e] by (auto simp: bnd_Ret_iff)
  have "accounted ?g f' ref l2 (final_log env r tx') result = accounted f f' ref l2 (final_log env r tx') result"
    "untouched ?g f' ref = untouched f f' ref" by (simp_all add: accounted_def untouched_def)
  then show ?thesis using account_effect [OF a g] t by (simp split: if_splits)
qed

text \<open>The tracker that comes back.\<close>

lemma after_execution_tracker:
  assumes a: "after_execution env tx f answer = Ret (tx', f', err)"
  obtains (same) "tx' = tx" "err \<noteq> Some ErrEffectiveGasPriceReprocess"
  | (second) r where "tx' = snd (second_price (egp_cfg env) tx r) tx" "\<not> IsLastExecution tx"
      "fst (second_price (egp_cfg env) tx r) = (if \<exists>e. err = Some (ErrEgp e) \<or> err = Some ErrEffectiveGasPriceReprocess then err else None)"
proof (cases answer)
  case (Inl e)
  then show ?thesis using a same by (auto simp: after_execution_def bnd_Ret_iff UpdateTxStatus_def split: if_splits)
next
  case (Inr result)
  show ?thesis
  proof (cases "BlockResponses result")
    case Nil
    then show ?thesis using a Inr same by (auto simp: after_execution_def split: if_splits)
  next
    case (Cons block bs)
    obtain t g e where h: "handleProcessTransactionResponse env tx f result = Ret (t, g, e)"
      using a Inr Cons by (auto simp: after_execution_def bnd_Ret_iff)
    then have te: "t = tx'" "e = err"
      using a Inr Cons by (cases e; auto simp: after_execution_def bnd_Ret_iff)+
    obtain r rs where r: "TransactionResponses block = r # rs"
      using Cons h by (cases "TransactionResponses block") (simp_all add: handleProcessTransactionResponse_def)
    show ?thesis
    proof (rule handleResponse_cases [OF Cons r, of env tx f])
      assume "handleProcessTransactionResponse env tx f result =
        bnd (handleProcessTransactionError env f result r tx) (\<lambda>f. Ret (tx, f, map_option ErrRom (tr_RomError r)))"
      from h [unfolded this] show ?thesis using te same by (auto simp: bnd_Ret_iff)
    next
      fix e' assume "\<not> IsLastExecution tx" "fst (second_price (egp_cfg env) tx r) = Some e'"
        "handleProcessTransactionResponse env tx f result =
        Ret (snd (second_price (egp_cfg env) tx r) tx, snd (assign (snd (second_price (egp_cfg env) tx r)) tx f), Some e')"
      then show ?thesis using h te second [of r] second_price_error by fastforce
    next
      fix upd assume u: "IsLastExecution tx \<longrightarrow> upd = (\<lambda>t. t)"
        "\<not> IsLastExecution tx \<longrightarrow> upd = snd (second_price (egp_cfg env) tx r) \<and> fst (second_price (egp_cfg env) tx r) = None"
        and e: "handleProcessTransactionResponse env tx f result =
        bnd (account_tx env (upd tx) (snd (assign upd tx f)) result r) (\<lambda>(f, err). Ret (upd tx, f, err))"
      have "tx' = upd tx" and acc: "account_tx env (upd tx) (snd (assign upd tx f)) result r = Ret (g, err)"
        using h [unfolded e] te by (auto simp: bnd_Ret_iff)
      moreover have "err = None \<or> err = Some ErrBatchResourceOverFlow" using account_errors [OF acc] .
      ultimately show ?thesis using u same second [of r] by (cases "IsLastExecution tx") auto
    qed
  qed
qed

lemma after_execution_percentage:
  "after_execution env tx f answer = Ret (tx', f', err) \<Longrightarrow> EGPPercentage tx' = EGPPercentage tx"
  by (erule after_execution_tracker) auto

lemma after_execution_effect:
  assumes a: "after_execution env tx f answer = Ret (tx', f', err)"
    and wip: "wipBatch f = Some ref" "wipL2Block f = Some l2"
  shows "outcome_ok env f f' ref l2 answer tx' err \<and> exec_calls f' = exec_calls f"
proof (cases answer)
  case (Inl e)
  show ?thesis
  proof (cases "e = ErrExecutorDBError \<or> e = ErrInvalidTxChangeL2BlockMinTimestamp")
    case True
    then have "f' = f" using a Inl by (auto simp: after_execution_def)
    then show ?thesis by (simp add: outcome_ok_def untouched_def)
  next
    case False
    then obtain g where "delete_tx env f tx = Ret g" "f' = fst (UpdateTxStatus env g (Hash tx) TxStatusInvalid (ExecReason e))"
      using a Inl by (auto simp: after_execution_def bnd_Ret_iff UpdateTxStatus_def)
    then have "same_batch f f'" using delete_tx_same by simp
    then show ?thesis using same_untouched by (simp add: outcome_ok_def same_batch_def)
  qed
next
  case (Inr result)
  show ?thesis
  proof (cases "BlockResponses result")
    case Nil
    then have "f' = f" using a Inr by (auto simp: after_execution_def split: if_splits)
    then show ?thesis by (simp add: outcome_ok_def untouched_def)
  next
    case (Cons block bs)
    obtain t g e where h: "handleProcessTransactionResponse env tx f result = Ret (t, g, e)"
      using a Inr Cons by (auto simp: after_execution_def bnd_Ret_iff)
    then obtain r rs where r: "TransactionResponses block = r # rs"
      using Cons by (cases "TransactionResponses block") (simp_all add: handleProcessTransactionResponse_def)
    note eff = handleResponse_effect [OF h wip Cons r]
    show ?thesis
    proof (cases e)
      case (Some x)
      then show ?thesis using a Inr Cons h eff by (auto simp: after_execution_def outcome_ok_def)
    next
      case None
      then have acc: "accounted f g ref l2 (final_log env r t) result" using eff by simp
      then have "wipBatch g = Some ref" using wip by (simp add: accounted_def Let_def)
      then have f': "t = tx'" "err = None" "f' = set_batch ref ((store g ref)\<lparr>imStateRoot := NewStateRoot result\<rparr>) g"
        using a Inr Cons h None by (simp_all add: after_execution_def wip_def set_wip_def)
      then have "accounted f f' ref l2 (final_log env r tx') result" using acc by (simp add: accounted_def Let_def)
      then show ?thesis using f' Inr eff by (auto simp: outcome_ok_def)
    qed
  qed
qed

lemma processTransaction_effect:
  assumes p: "processTransaction env tx f first = Ret (tx', f', err)"
    and wip: "wipBatch f = Some ref" "wipL2Block f = Some l2"
  shows "outcome_ok env f f' ref l2
    (ProcessBatchV2 env (exec_calls f) (tx_request env (store f ref) l2 (RawTx tx @ [EGPPercentage tx']))) tx' err"
    and "exec_calls f' \<le> exec_calls f + 1"
proof -
  have "outcome_ok env f f' ref l2
      (ProcessBatchV2 env (exec_calls f) (tx_request env (store f ref) l2 (RawTx tx @ [EGPPercentage tx']))) tx' err \<and>
    exec_calls f' \<le> exec_calls f + 1"
  proof (rule processTransaction_cases [OF wip, of env tx first])
    fix t1 f1 e assume "processTransaction env tx f first = Ret (t1, f1, Some (ErrEgp e))" "same_batch f f1"
    then show ?thesis using p same_untouched by (simp add: outcome_ok_def same_batch_def)
  next
    fix t2 and f2 :: finalizer
    let ?g = "f2\<lparr>exec_calls := exec_calls f + 1\<rparr>"
    assume e: "processTransaction env tx f first = after_execution env t2 ?g
         (ProcessBatchV2 env (exec_calls f) (tx_request env (store f ref) l2 (RawTx tx @ [EGPPercentage t2])))"
      and s: "same_batch f f2"
    have g: "wipBatch ?g = Some ref" "wipL2Block ?g = Some l2" using s wip by (simp_all add: same_batch_def)
    note a = p [unfolded e]
    have "accounted ?g f' ref l2 t r = accounted f f' ref l2 t r" "untouched ?g f' ref = untouched f f' ref" for t r
      using s by (simp_all add: accounted_def untouched_def same_batch_def)
    then show ?thesis using after_execution_effect [OF a g] after_execution_percentage [OF a]
      by (simp add: outcome_ok_def)
  qed
  then show "outcome_ok env f f' ref l2
      (ProcessBatchV2 env (exec_calls f) (tx_request env (store f ref) l2 (RawTx tx @ [EGPPercentage tx']))) tx' err"
    "exec_calls f' \<le> exec_calls f + 1" by blast+
qed

section \<open>At most two executions\<close>

lemma processTransaction_wip:
  assumes "processTransaction env tx f first = Ret y"
  obtains ref l2 where "wipBatch f = Some ref" "wipL2Block f = Some l2"
  using assms by (cases "wipBatch f"; cases "wipL2Block f") (simp_all add: processTransaction_def wip_def)

lemma processTransaction_reprocess:
  assumes p: "processTransaction env tx f first = Ret (tx', f', Some ErrEffectiveGasPriceReprocess)"
  shows "IsLastExecution tx' \<and> (first \<or> \<not> IsLastExecution tx)"
proof -
  obtain ref l2 where "wipBatch f = Some ref" "wipL2Block f = Some l2" using processTransaction_wip [OF p] .
  then show ?thesis
  proof (cases rule: processTransaction_cases [of f ref l2 env tx first])
    case (run t1 t2 f2)
    have a: "after_execution env t2 (f2\<lparr>exec_calls := exec_calls f + 1\<rparr>)
         (ProcessBatchV2 env (exec_calls f) (tx_request env (store f ref) l2 (RawTx tx @ [EGPPercentage t2])))
        = Ret (tx', f', Some ErrEffectiveGasPriceReprocess)" using p run(5) by simp
    have l: "IsLastExecution t2 = IsLastExecution t1" "\<not> first \<longrightarrow> t1 = tx" using run(2,4) by (simp_all add: at_first_def)
    from a show ?thesis by (rule after_execution_tracker) (use l in auto)
  qed (use p in simp)
qed

lemma process_loop_two: "process_loop 2 env tx f first \<noteq> None"
proof (cases "processTransaction env tx f first")
  case (Ret y)
  obtain tx1 f1 e1 where y: "y = (tx1, f1, e1)" by (cases y)
  show ?thesis
  proof (cases "e1 = Some ErrEffectiveGasPriceReprocess")
    case True
    then have l: "IsLastExecution tx1" using processTransaction_reprocess Ret y by blast
    have "process_loop 1 env tx1 f1 False \<noteq> None"
    proof (cases "processTransaction env tx1 f1 False")
      case ret1: (Ret z)
      obtain tx2 f2 e2 where z: "z = (tx2, f2, e2)" by (cases z)
      then have "e2 \<noteq> Some ErrEffectiveGasPriceReprocess" using processTransaction_reprocess ret1 l by blast
      then show ?thesis using ret1 z by simp
    qed simp_all
    then show ?thesis using Ret y True by (simp add: numeral_2_eq_2)
  qed (use Ret y in \<open>simp add: numeral_2_eq_2\<close>)
qed (simp_all add: numeral_2_eq_2)

section \<open>The price that is charged\<close>

definition priced :: "TxTracker \<Rightarrow> bool" where
  "priced t \<longleftrightarrow> 0 < EffectiveGasPrice t \<and> EffectiveGasPrice t \<le> GasPrice t"

definition percentage_ok :: "TxTracker \<Rightarrow> bool" where
  "percentage_ok t \<longleftrightarrow> CalculateEffectiveGasPricePercentage (Some (GasPrice t)) (Some (EffectiveGasPrice t)) = Inr (EGPPercentage t)"

lemma effective_price_positive:
  assumes "CalculateEffectiveGasPrice c raw gp used l1 l2 = Inr e" and "0 < gp"
  shows "0 < e"
proof -
  obtain b where b: "CalculateBreakEvenGasPrice c raw gp used l1 = Inr b"
    using assms(1) by (cases "CalculateBreakEvenGasPrice c raw gp used l1") (simp_all add: CalculateEffectiveGasPrice_def)
  then show ?thesis using effective_price_cases [OF b, of l2] break_even_positive [OF b assms(2)] assms(1) by auto
qed

lemma first_price_priced:
  assumes "cfg_Enabled c" and "fst (first_price c l1 l2 tx) = None" and "0 < GasPrice tx"
  shows "priced (snd (first_price c l1 l2 tx) tx)"
  using assms effective_price_positive [of c "RawTx tx" "GasPrice tx" _ l1 l2]
  by (auto simp: first_price_def GetTxAndL2GasPrice_def priced_def Let_def split: sum.splits)

lemma percentage_priced:
  assumes "cfg_Enabled c" and "fst (price_percentage c t) = None"
  shows "percentage_ok (snd (price_percentage c t) t)" "priced (snd (price_percentage c t) t) = priced t"
  using assms by (auto simp: price_percentage_def percentage_ok_def priced_def split: sum.splits)

lemma second_price_priced:
  assumes "cfg_Enabled c" and "0 < GasPrice tx" and "priced tx"
  shows "fst (second_price c tx r) = None \<Longrightarrow>
      priced (snd (second_price c tx r) tx) \<and> percentage_ok (snd (second_price c tx r) tx) = percentage_ok tx"
    and "fst (second_price c tx r) = Some ErrEffectiveGasPriceReprocess \<Longrightarrow> priced (snd (second_price c tx r) tx)"
  using assms effective_price_positive [of c "RawTx tx" "GasPrice tx" "tr_GasUsed r" "L1GasPrice tx" "L2GasPrice tx"]
  by (auto simp: second_price_def compareTxEffectiveGasPrice_def GetTxAndL2GasPrice_def priced_def percentage_ok_def Let_def
      split: sum.splits if_splits)

lemma processTransaction_priced:
  assumes p: "processTransaction env tx f first = Ret (tx', f', err)"
    and c: "cfg_Enabled (egp_cfg env)" "0 < GasPrice tx" "first \<or> priced tx" and e: "\<forall>e. err \<noteq> Some (ErrEgp e)"
  shows "GasPrice tx' = GasPrice tx \<and> priced tx' \<and> (err \<noteq> Some ErrEffectiveGasPriceReprocess \<longrightarrow> percentage_ok tx')"
proof -
  obtain ref l2 where "wipBatch f = Some ref" "wipL2Block f = Some l2" using processTransaction_wip [OF p] .
  then show ?thesis
  proof (cases rule: processTransaction_cases [of f ref l2 env tx first])
    case (run t1 t2 f2)
    have a: "after_execution env t2 (f2\<lparr>exec_calls := exec_calls f + 1\<rparr>)
         (ProcessBatchV2 env (exec_calls f) (tx_request env (store f ref) l2 (RawTx tx @ [EGPPercentage t2])))
        = Ret (tx', f', err)" using p run(5) by simp
    have "priced t1" using run(1,2) c first_price_priced by (auto simp: at_first_def)
    then have t2: "priced t2" "percentage_ok t2" "GasPrice t2 = GasPrice tx"
      using percentage_priced [OF c(1) run(3)] run(2,4) by simp_all
    then have g: "0 < GasPrice t2" using c(2) by simp
    from a show ?thesis
    proof (cases rule: after_execution_tracker)
      case (second r)
      then show ?thesis using e second_price_priced [OF c(1) g t2(1), of r] t2
        by (cases "err = Some ErrEffectiveGasPriceReprocess") auto
    qed (use t2 in simp)
  qed (use p e in simp)
qed

lemma process_loop_priced:
  assumes "process_loop n env tx f first = Some (Ret (tx', f', err))"
    and "cfg_Enabled (egp_cfg env)" "0 < GasPrice tx" "first \<or> priced tx" and "\<forall>e. err \<noteq> Some (ErrEgp e)"
  shows "GasPrice tx' = GasPrice tx \<and> priced tx' \<and> percentage_ok tx'"
  using assms
proof (induction n env tx f first rule: process_loop.induct)
  case (2 n env tx f first)
  obtain y where y: "processTransaction env tx f first = Ret y" using 2(2) by (auto split: outcome.splits)
  obtain tx1 f1 e1 where t: "y = (tx1, f1, e1)" by (cases y)
  show ?case
  proof (cases "e1 = Some ErrEffectiveGasPriceReprocess")
    case True
    then have "GasPrice tx1 = GasPrice tx \<and> priced tx1"
      using processTransaction_priced [OF _ 2(3,4,5)] y t by blast
    then show ?thesis using 2(1) [of y tx1 "(f1, e1)" f1 e1] 2(2-) y t True by simp
  next
    case False
    then show ?thesis using processTransaction_priced [OF _ 2(3,4,5)] 2(2,6) y t by auto
  qed
qed simp

end
