(* ===== verification/L2Blocks.thy ===== *)
theory L2Blocks
  imports TxProcessingProofs
begin

text \<open>
  L2 blocks on their way to the database (\<open>sequencer/l2block.go\<close>, \<open>sequencer/batch.go\<close>): a closed
  block is executed as a whole (\<open>processL2Block\<close>) by one goroutine and stored (\<open>storeL2Block\<close>)
  by another. The channels between them are lists; a wait for a channel to drain runs the
  goroutine behind it until its channel is empty. The check of a closed batch that the code
  starts in a goroutine is made at once. Messages for the data stream, log messages and metrics
  are left out. The waits for the executor and for the synchronizer are loops over their answers.

  A database transaction saves the table when it begins and restores it when it is rolled back
  or its commit fails.
\<close>

section \<open>Executing a block\<close>

datatype block_error =
    BlkHex
  | BlkCall proc_error
  | BlkExecutor
  | BlkOOC
  | BlkResponses nat
  | BlkTxResponses
  | BlkTxHash
  | BlkTimestamp
  | BlkNoFit
  | BlkSubOverflow
  | BlkDb string
  | BlkSql db_error
  | BlkEncode codec_error
  | BlkPool string

definition l2_isEmpty :: "L2Block \<Rightarrow> bool" where
  "l2_isEmpty b \<longleftrightarrow> transactions b = []"

definition getL1InfoTreeIndex :: "L2Block \<Rightarrow> uint32" where
  "getL1InfoTreeIndex b = (if l1InfoTreeExitRootChanged b then en_L1InfoTreeIndex (l1InfoTreeExitRoot b) else 0)"

fun txs_data :: "TxTracker list \<Rightarrow> byte list option" where
  "txs_data [] = Some []"
| "txs_data (tx # txs) = (case percentage_bytes (EGPPercentage tx) of
     None \<Rightarrow> None
   | Some ep \<Rightarrow> map_option (\<lambda>d. RawTx tx @ ep @ d) (txs_data txs))"

text \<open>The entry of the L1 info tree that a block refers to.\<close>

definition l1_info_data :: "L1InfoTreeExitRootStorageEntry \<Rightarrow> (uint32, L1DataV2) gomap" where
  "l1_info_data e = [(en_L1InfoTreeIndex e, \<lparr>ld_GlobalExitRoot = en_GlobalExitRoot e,
     ld_BlockHashL1 = en_PreviousBlockHash e, ld_MinTimestamp = word_of_int (unix_of (en_Timestamp e))\<rparr>)]"

definition block_request :: "fin_env \<Rightarrow> Batch \<Rightarrow> L2Block \<Rightarrow> hash \<Rightarrow> byte list \<Rightarrow> ProcessRequest" where
  "block_request env b l2 stRoot d =
     \<lparr>rq_BatchNumber = batchNumber b, rq_OldStateRoot = stRoot, rq_Coinbase = coinbase b,
      rq_L1InfoRoot_V2 = mockL1InfoRoot, rq_ForcedBlockHashL1 = 0, rq_TimestampLimit_V2 = l2_timestamp l2,
      rq_ForkID = GetForkIDByBatchNumber env (batchNumber b), rq_Transactions = d,
      rq_SkipFirstChangeL2Block_V2 = False, rq_SkipWriteBlockInfoRoot_V2 = False, rq_SkipVerifyL1InfoRoot_V2 = True,
      rq_L1InfoTreeData_V2 = l1_info_data (l1InfoTreeExitRoot l2)\<rparr>"

definition executeL2Block ::
    "fin_env \<Rightarrow> finalizer \<Rightarrow> hash \<Rightarrow> L2Block \<Rightarrow> (finalizer \<times> (block_error + ProcessBatchResponse \<times> uint64)) outcome" where
  "executeL2Block env f initRoot l2 =
     (case txs_data (transactions l2) of
        None \<Rightarrow> Ret (f, Inl BlkHex)
      | Some txs \<Rightarrow>
          (case l2_batch l2 of
             None \<Rightarrow> Panic
           | Some r \<Rightarrow>
               (let batchL2Data = BuildChangeL2Block (deltaTimestamp l2) (getL1InfoTreeIndex l2) @ txs;
                    answer = ProcessBatchV2 env (exec_calls f) (block_request env (store f r) l2 initRoot batchL2Data);
                    f = f\<lparr>exec_calls := exec_calls f + 1\<rparr>
                in case answer of
                     Inl e \<Rightarrow> Ret (f, Inl (BlkCall e))
                   | Inr response \<Rightarrow>
                       if pr_ExecutorError response \<noteq> None then Ret (f, Inl BlkExecutor)
                       else if IsRomOOCError response then Ret (f, Inl BlkOOC)
                       else Ret (f, Inr (response, word_of_nat (length batchL2Data))))))"

section \<open>Closing a batch in the database\<close>

datatype sanity_error =
    ErrGetBatchByNumber | ErrProcessBatch | ErrExecutorError | ErrProcessBatchOOC | ErrStateRootNoMatch | ErrUpdateBatchAsChecked

fun findMax :: "L2BlockRaw list \<Rightarrow> uint32 \<Rightarrow> uint32" where
  "findMax [] m = m"
| "findMax (b # bs) m = findMax bs (if IndexL1InfoTree b > m then IndexL1InfoTree b else m)"

fun l1_info_of_blocks :: "fin_env \<Rightarrow> L2BlockRaw list \<Rightarrow> (uint32, L1DataV2) gomap \<Rightarrow> string + (uint32, L1DataV2) gomap" where
  "l1_info_of_blocks env [] acc = Inr acc"
| "l1_info_of_blocks env (b # bs) acc =
     (if IndexL1InfoTree b > 0 \<and> map_of acc (IndexL1InfoTree b) = None
      then (case GetL1InfoRootLeafByIndex env (IndexL1InfoTree b) of
              Inl e \<Rightarrow> Inl e
            | Inr e \<Rightarrow> l1_info_of_blocks env bs (acc @ [(IndexL1InfoTree b, \<lparr>ld_GlobalExitRoot = en_GlobalExitRoot e,
                ld_BlockHashL1 = en_PreviousBlockHash e, ld_MinTimestamp = word_of_int (unix_of (en_Timestamp e))\<rparr>)]))
      else l1_info_of_blocks env bs acc)"

text \<open>The first result of \<open>GetL1InfoTreeDataFromBatchL2Data\<close>; the finalizer does not use the other two.\<close>

definition GetL1InfoTreeDataFromBatchL2Data :: "fin_env \<Rightarrow> byte list \<Rightarrow> (string + (uint32, L1DataV2) gomap) outcome" where
  "GetL1InfoTreeDataFromBatchL2Data env d =
     (case DecodeBatchV2 (rlp_dec env) d of
        None \<Rightarrow> Panic
      | Some (Inl e) \<Rightarrow> Ret (Inl ''decode'')
      | Some (Inr []) \<Rightarrow> Ret (Inr [])
      | Some (Inr (b # bs)) \<Rightarrow>
          (case GetL1InfoRootLeafByIndex env (findMax (b # bs) (IndexL1InfoTree b)) of
             Inl e \<Rightarrow> Ret (Inl e)
           | Inr _ \<Rightarrow> Ret (l1_info_of_blocks env (b # bs) [])))"

text \<open>\<open>reprocessError\<close>: the batch is decoded for the log, then the sequencer halts.\<close>

definition reprocessError :: "fin_env \<Rightarrow> StateBatch option \<Rightarrow> 'a outcome \<Rightarrow> 'a outcome" where
  "reprocessError env batch continue =
     (case batch of
        None \<Rightarrow> Panic
      | Some b \<Rightarrow>
          (case DecodeBatchV2 (rlp_dec env) (sb_BatchL2Data b) of
             None \<Rightarrow> Panic
           | Some (Inl _) \<Rightarrow> continue
           | Some (Inr _) \<Rightarrow> Exit))"

definition sanity_request :: "fin_env \<Rightarrow> StateBatch \<Rightarrow> hash \<Rightarrow> go_time \<Rightarrow> (uint32, L1DataV2) gomap \<Rightarrow> ProcessRequest" where
  "sanity_request env batch stRoot now l1Data =
     \<lparr>rq_BatchNumber = sb_BatchNumber batch, rq_OldStateRoot = stRoot, rq_Coinbase = sb_Coinbase batch,
      rq_L1InfoRoot_V2 = mockL1InfoRoot, rq_ForcedBlockHashL1 = 0, rq_TimestampLimit_V2 = word_of_int (unix_of now),
      rq_ForkID = GetForkIDByBatchNumber env (sb_BatchNumber batch), rq_Transactions = sb_BatchL2Data batch,
      rq_SkipFirstChangeL2Block_V2 = False, rq_SkipWriteBlockInfoRoot_V2 = False, rq_SkipVerifyL1InfoRoot_V2 = True,
      rq_L1InfoTreeData_V2 = l1Data\<rparr>"

text \<open>What is checked in the answer of the executor.\<close>

definition sanity_verdict :: "hash \<Rightarrow> proc_error + ProcessBatchResponse \<Rightarrow> sanity_error option" where
  "sanity_verdict expected answer =
     (case answer of
        Inl _ \<Rightarrow> Some ErrProcessBatch
      | Inr response \<Rightarrow>
          if pr_ExecutorError response \<noteq> None then Some ErrExecutorError
          else if IsRomOOCError response then Some ErrProcessBatchOOC
          else if NewStateRoot response \<noteq> expected then Some ErrStateRootNoMatch
          else None)"

definition batchSanityCheck ::
    "fin_env \<Rightarrow> finalizer \<Rightarrow> uint64 \<Rightarrow> hash \<Rightarrow> hash \<Rightarrow> (finalizer \<times> sanity_error option) outcome" where
  "batchSanityCheck env f batchNum initRoot expectedNewStateRoot =
     (case db env f of (failure, f) \<Rightarrow>
        (case (failure, GetBatchByNumber (state_batches f) batchNum) of
           (None, Inr batch) \<Rightarrow>
             (case tick env f of (now, f) \<Rightarrow>
                bnd (GetL1InfoTreeDataFromBatchL2Data env (sb_BatchL2Data batch)) (\<lambda>l1.
                  case l1 of
                    Inl _ \<Rightarrow> reprocessError env None (Ret (f, Some ErrGetBatchByNumber))
                  | Inr l1Data \<Rightarrow>
                      (let answer = ProcessBatchV2 env (exec_calls f) (sanity_request env batch initRoot now l1Data);
                           f = f\<lparr>exec_calls := exec_calls f + 1\<rparr>
                       in case sanity_verdict expectedNewStateRoot answer of
                            Some e \<Rightarrow> reprocessError env (Some batch) (Ret (f, Some e))
                          | None \<Rightarrow>
                              (case db env f of
                                 (Some _, f) \<Rightarrow> reprocessError env (Some batch) (Ret (f, Some ErrUpdateBatchAsChecked))
                               | (None, f) \<Rightarrow>
                                   Ret (f\<lparr>state_batches := UpdateBatchAsChecked (sb_BatchNumber batch) (state_batches f)\<rparr>, None)))))
         | _ \<Rightarrow> Ret (f, Some ErrGetBatchByNumber)))"

definition closing_receipt :: "fin_env \<Rightarrow> Batch \<Rightarrow> ProcessingReceipt" where
  "closing_receipt env b =
     \<lparr>rc_BatchNumber = batchNumber b, rc_StateRoot = 0, rc_LocalExitRoot = 0, rc_GlobalExitRoot = 0, rc_AccInputHash = 0,
      rc_BatchL2Data = [], rc_ClosingReason = closingReason b,
      rc_BatchResources = getUsedBatchResources (constraints env) (imRemainingResources b),
      rc_HighReservedZKCounters = zero_counters\<rparr>"

definition closeSIPBatch :: "fin_env \<Rightarrow> finalizer \<Rightarrow> (finalizer \<times> block_error option) outcome" where
  "closeSIPBatch env f =
     (case sipBatch f of
        None \<Rightarrow> Exit
      | Some r \<Rightarrow>
          (let b = store f r in
           if batch_isEmpty b then Exit
           else case db env f of
             (Some e, f) \<Rightarrow> Ret (f, Some (BlkDb e))
           | (None, f) \<Rightarrow>
               (let f = f\<lparr>state_batches := CloseWIPBatch (closing_receipt env b) (state_batches f)\<rparr>
                in bnd (batchSanityCheck env f (batchNumber b) (initialStateRoot b) (finalStateRoot b)) (\<lambda>(f, _).
                     Ret (f\<lparr>sipBatch := None\<rparr>, None)))))"

text \<open>
  One look at whether the synchronizer is up to date, and the loop that looks until it is. It reads
  the committed rows, not those of the transaction in progress.
\<close>

definition isSynced :: "fin_env \<Rightarrow> nat \<Rightarrow> table \<Rightarrow> bool" where
  "isSynced env k rows =
     (case GetLastVirtualBatchNum env k of
        Inl _ \<Rightarrow> False
      | Inr lastVirtualBatchNum \<Rightarrow>
          if db_fails env k \<noteq> None then False
          else (case GetLastBatchNumber rows of
                  Inl _ \<Rightarrow> False
                | Inr lastTrustedBatchNum \<Rightarrow>
                    if lastTrustedBatchNum > lastVirtualBatchNum then True
                    else (case GetLatestBatchNumber env k of
                            Inl _ \<Rightarrow> False
                          | Inr lastEthBatchNum \<Rightarrow> \<not> lastVirtualBatchNum < lastEthBatchNum)))"

fun sync_loop :: "nat \<Rightarrow> fin_env \<Rightarrow> table \<Rightarrow> finalizer \<Rightarrow> finalizer outcome" where
  "sync_loop 0 env rows f = Stuck"
| "sync_loop (Suc n) env rows f =
     (if isSynced env (db_calls f) rows then Ret (f\<lparr>db_calls := db_calls f + 1\<rparr>)
      else sync_loop n env rows (f\<lparr>db_calls := db_calls f + 1\<rparr>))"

definition wait_synced :: "fin_env \<Rightarrow> table \<Rightarrow> finalizer \<Rightarrow> finalizer outcome" where
  "wait_synced env rows f = sync_loop (patience env) env rows f"

definition insertSIPBatch :: "fin_env \<Rightarrow> finalizer \<Rightarrow> uint64 \<Rightarrow> hash \<Rightarrow> (finalizer \<times> block_error option) outcome" where
  "insertSIPBatch env f number stRoot =
     (case tick env f of (now, f) \<Rightarrow>
        (case db env f of
           (Some e, f) \<Rightarrow> Ret (f, Some (BlkDb e))
         | (None, f) \<Rightarrow>
             (case OpenWIPBatch \<lparr>sb_BatchNumber = number, sb_Coinbase = l2Coinbase env, sb_BatchL2Data = [], sb_StateRoot = stRoot,
                 sb_LocalExitRoot = 0, sb_AccInputHash = 0, sb_Timestamp = now, sb_GlobalExitRoot = 0, sb_ForcedBatchNum = None,
                 sb_Resources = empty_resources, sb_HighReservedZKCounters = zero_counters,
                 sb_ClosingReason = EmptyClosingReason, sb_WIP = False, sb_Checked = False\<rparr> (state_batches f) of
                Inl e \<Rightarrow> Ret (f, Some (BlkSql e))
              | Inr rows \<Rightarrow> bnd (wait_synced env (state_batches f) f) (\<lambda>f. Ret (f\<lparr>state_batches := rows\<rparr>, None)))))"

definition finalizeSIPBatch :: "fin_env \<Rightarrow> finalizer \<Rightarrow> (finalizer \<times> block_error option) outcome" where
  "finalizeSIPBatch env f =
     (case db env f of
        (Some e, f) \<Rightarrow> if sipBatch f = None then Panic else Ret (f, Some (BlkDb e))
      | (None, f) \<Rightarrow>
          (let saved = state_batches f in
           bnd (closeSIPBatch env f) (\<lambda>(f, err).
             if err \<noteq> None then (if sipBatch f = None then Panic else Ret (f, err))
             else case db env f of
               (Some e, f) \<Rightarrow> (let f = f\<lparr>state_batches := saved\<rparr> in if sipBatch f = None then Panic else Ret (f, Some (BlkDb e)))
             | (None, f) \<Rightarrow> Ret (f, None))))"

section \<open>Storing a block\<close>

text \<open>
  The wait for the executor to flush the block. The goroutine \<open>updateProverIdAndFlushId\<close> asks the
  executor for the identifier it has stored, as long as there is a larger one pending; the wait ends
  when the identifier of the block is reached. The check of the prover that it makes on the way never fires:
  the finalizer does not remember the identifier of the prover.
\<close>

definition flush_poll :: "fin_env \<Rightarrow> finalizer \<Rightarrow> finalizer" where
  "flush_poll env f =
     (case GetStoredFlushID env (exec_calls f) of
        Inl _ \<Rightarrow> f\<lparr>exec_calls := exec_calls f + 1\<rparr>
      | Inr stored \<Rightarrow> f\<lparr>exec_calls := exec_calls f + 1, storedFlushID := stored\<rparr>)"

fun flush_loop :: "nat \<Rightarrow> fin_env \<Rightarrow> uint64 \<Rightarrow> finalizer \<Rightarrow> finalizer outcome" where
  "flush_loop 0 env flushID f = (if flushID \<le> storedFlushID f then Ret f else Stuck)"
| "flush_loop (Suc n) env flushID f =
     (if flushID \<le> storedFlushID f then Ret f
      else if lastPendingFlushID f \<le> storedFlushID f then Stuck
      else flush_loop n env flushID (flush_poll env f))"

definition wait_flush :: "fin_env \<Rightarrow> uint64 \<Rightarrow> finalizer \<Rightarrow> finalizer outcome" where
  "wait_flush env flushID f = flush_loop (patience env) env flushID f"

fun responses_data :: "fin_env \<Rightarrow> uint64 \<Rightarrow> ProcessTransactionResponse list \<Rightarrow> (codec_error + byte list) outcome" where
  "responses_data env forkID [] = Ret (Inr [])"
| "responses_data env forkID (r # rs) =
     (case EncodeTransaction (rlp_enc env) (chain_id env) (tr_Tx r) (ucast (tr_EffectivePercentage r)) forkID of
        None \<Rightarrow> Panic
      | Some (Inl e) \<Rightarrow> Ret (Inl e)
      | Some (Inr txData) \<Rightarrow>
          bnd (responses_data env forkID rs) (\<lambda>d. Ret (case d of Inl e \<Rightarrow> Inl e | Inr d \<Rightarrow> Inr (txData @ d))))"

definition store_receipt :: "Batch \<Rightarrow> L2Block \<Rightarrow> ProcessBatchResponse \<Rightarrow> ProcessBlockResponse \<Rightarrow> StateBatch \<Rightarrow> byte list \<Rightarrow> ProcessingReceipt" where
  "store_receipt b l2 resp blk batch blockL2Data =
     \<lparr>rc_BatchNumber = batchNumber b, rc_StateRoot = NewStateRoot resp, rc_LocalExitRoot = NewLocalExitRoot resp,
      rc_GlobalExitRoot = (if bl_GlobalExitRoot blk \<noteq> 0 then bl_GlobalExitRoot blk else sb_GlobalExitRoot batch),
      rc_AccInputHash = 0, rc_BatchL2Data = sb_BatchL2Data batch @ blockL2Data, rc_ClosingReason = EmptyClosingReason,
      rc_BatchResources = br_SumUp (sb_Resources batch)
        \<lparr>br_ZKCounters = pr_UsedZkCounters resp, br_Bytes = word_of_nat (length blockL2Data)\<rparr>,
      rc_HighReservedZKCounters = highReservedZKCounters l2\<rparr>"

text \<open>The statements after the batch of the block is open in the table; an error makes the caller roll back.\<close>

definition store_rows ::
    "fin_env \<Rightarrow> finalizer \<Rightarrow> Batch \<Rightarrow> L2Block \<Rightarrow> ProcessBatchResponse \<Rightarrow> ProcessBlockResponse \<Rightarrow> (finalizer \<times> block_error option) outcome" where
  "store_rows env f b l2 resp blk =
     (case db env f of
        (Some e, f) \<Rightarrow> Ret (f, Some (BlkDb e))
      | (None, f) \<Rightarrow>
          (let f = f\<lparr>stored_blocks := stored_blocks f @ [(batchNumber b, blk)]\<rparr> in
           case db env f of
             (Some e, f) \<Rightarrow> Ret (f, Some (BlkDb e))
           | (None, f) \<Rightarrow>
               (case GetBatchByNumber (state_batches f) (batchNumber b) of
                  Inl e \<Rightarrow> Ret (f, Some (BlkSql e))
                | Inr batch \<Rightarrow>
                    bnd (responses_data env (GetForkIDByBatchNumber env (batchNumber b)) (TransactionResponses blk)) (\<lambda>d.
                      case d of
                        Inl e \<Rightarrow> Ret (f, Some (BlkEncode e))
                      | Inr txs \<Rightarrow>
                          (case db env f of
                             (Some e, f) \<Rightarrow> Ret (f, Some (BlkDb e))
                           | (None, f) \<Rightarrow>
                               (let blockL2Data = BuildChangeL2Block (deltaTimestamp l2) (getL1InfoTreeIndex l2) @ txs
                                in Ret (f\<lparr>state_batches := UpdateWIPBatch (store_receipt b l2 resp blk batch blockL2Data)
                                           (state_batches f)\<rparr>, None)))))))"

text \<open>The batch of the block becomes the one that is stored.\<close>

definition switch_sip :: "fin_env \<Rightarrow> finalizer \<Rightarrow> batch_ref \<Rightarrow> (finalizer \<times> block_error option) outcome" where
  "switch_sip env f r =
     (let b = store f r in
      case sipBatch f of
        None \<Rightarrow>
          bnd (insertSIPBatch env f (batchNumber b) (initialStateRoot b)) (\<lambda>(f, err).
            Ret (if err = None then (f\<lparr>sipBatch := Some r\<rparr>, None) else (f, err)))
      | Some s \<Rightarrow>
          if batchNumber (store f s) = batchNumber b then Ret (f, None)
          else bnd (closeSIPBatch env f) (\<lambda>(f, err).
            if err \<noteq> None then Ret (f, err)
            else bnd (insertSIPBatch env f (batchNumber b) (initialStateRoot b)) (\<lambda>(f, err).
              Ret (if err = None then (f\<lparr>sipBatch := Some r\<rparr>, None) else (f, err)))))"

fun select_txs :: "fin_env \<Rightarrow> ProcessTransactionResponse list \<Rightarrow> finalizer \<Rightarrow> finalizer \<times> block_error option" where
  "select_txs env [] f = (f, None)"
| "select_txs env (r # rs) f =
     (case UpdateTxStatus env f (tr_TxHash r) TxStatusSelected NoReason of
        (f, Some e) \<Rightarrow> (f, Some (BlkPool e))
      | (f, None) \<Rightarrow> select_txs env rs f)"

fun delete_pending :: "fin_env \<Rightarrow> TxTracker list \<Rightarrow> finalizer \<Rightarrow> finalizer outcome" where
  "delete_pending env [] f = Ret f"
| "delete_pending env (t # ts) f =
     bnd (of_option (DeleteTxPendingToStore (wenv env) (worker f) (Hash t) (From t))) (\<lambda>w.
       delete_pending env ts (f\<lparr>worker := w\<rparr>))"

definition rollback :: "table \<Rightarrow> (uint64 \<times> ProcessBlockResponse) list \<Rightarrow> finalizer \<Rightarrow> finalizer" where
  "rollback rows blocks f = f\<lparr>state_batches := rows, stored_blocks := blocks\<rparr>"

text \<open>From the first statement to the commit; an error makes the caller roll back.\<close>

definition store_in_tx :: "fin_env \<Rightarrow> finalizer \<Rightarrow> batch_ref \<Rightarrow> L2Block \<Rightarrow> ProcessBatchResponse \<Rightarrow> ProcessBlockResponse \<Rightarrow>
    (finalizer \<times> block_error option) outcome" where
  "store_in_tx env f r l2 resp blk =
     bnd (switch_sip env f r) (\<lambda>(f, err).
       if err \<noteq> None then Ret (f, err)
       else bnd (store_rows env f (store f r) l2 resp blk) (\<lambda>(f, err).
         if err \<noteq> None then Ret (f, err)
         else (case db env f of (failure, f) \<Rightarrow> Ret (f, map_option BlkDb failure))))"

text \<open>After the commit the pool and the worker are told.\<close>

definition after_store :: "fin_env \<Rightarrow> L2Block \<Rightarrow> ProcessBlockResponse \<Rightarrow> finalizer \<Rightarrow> (finalizer \<times> block_error option) outcome" where
  "after_store env l2 blk f =
     (case select_txs env (TransactionResponses blk) f of
        (f, Some e) \<Rightarrow> Ret (f, Some e)
      | (f, None) \<Rightarrow> bnd (delete_pending env (transactions l2) f) (\<lambda>f. Ret (f, None)))"

definition storeL2Block :: "fin_env \<Rightarrow> finalizer \<Rightarrow> L2Block \<Rightarrow> (finalizer \<times> block_error option) outcome" where
  "storeL2Block env f l2 =
     (case (batchResponse l2, l2_batch l2) of
        (Some resp, Some r) \<Rightarrow>
          (case BlockResponses resp of
             [] \<Rightarrow> Panic
           | blk # _ \<Rightarrow>
               bnd (wait_flush env (FlushID resp) f) (\<lambda>f.
                 case db env f of
                   (Some e, f) \<Rightarrow> Ret (f, Some (BlkDb e))
                 | (None, f) \<Rightarrow>
                     bnd (store_in_tx env f r l2 resp blk) (\<lambda>(f', err).
                       if err \<noteq> None then Ret (rollback (state_batches f) (stored_blocks f) f', err)
                       else after_store env l2 blk f')))
      | _ \<Rightarrow> Panic)"

text \<open>\<open>storePendingL2Blocks\<close>, until the channel is empty.\<close>

fun store_all :: "fin_env \<Rightarrow> L2Block list \<Rightarrow> finalizer \<Rightarrow> finalizer outcome" where
  "store_all env [] f = Ret f"
| "store_all env (l2 # bs) f =
     bnd (storeL2Block env f l2) (\<lambda>(f, err). if err = None then store_all env bs f else Exit)"

definition store_pending :: "fin_env \<Rightarrow> finalizer \<Rightarrow> finalizer outcome" where
  "store_pending env f = store_all env (pendingL2BlocksToStore f) (f\<lparr>pendingL2BlocksToStore := []\<rparr>)"

section \<open>Processing a block\<close>

definition updateFlushIDs :: "uint64 \<Rightarrow> uint64 \<Rightarrow> finalizer \<Rightarrow> finalizer" where
  "updateFlushIDs newPending newStored f =
     f\<lparr>lastPendingFlushID := (if newPending > lastPendingFlushID f then newPending else lastPendingFlushID f),
       storedFlushID := (if newStored > storedFlushID f then newStored else storedFlushID f)\<rparr>"

text \<open>The batch in which blocks are processed, and the root it starts from.\<close>

definition next_pip :: "L2Block \<Rightarrow> finalizer \<Rightarrow> finalizer outcome" where
  "next_pip l2 f =
     (case pipBatch f of
        None \<Rightarrow> Ret (f\<lparr>pipBatch := l2_batch l2\<rparr>)
      | Some p \<Rightarrow>
          (case l2_batch l2 of
             None \<Rightarrow> Panic
           | Some r \<Rightarrow>
               if batchNumber (store f p) \<noteq> batchNumber (store f r) then
                 (let stRoot = finalStateRoot (store f p) in
                  Ret (set_batch r ((store f r)\<lparr>initialStateRoot := stRoot, finalStateRoot := stRoot\<rparr>) f\<lparr>pipBatch := Some r\<rparr>))
               else Ret f))"

fun same_hashes :: "ProcessTransactionResponse list \<Rightarrow> TxTracker list \<Rightarrow> bool" where
  "same_hashes (r # rs) (t # ts) = (tr_TxHash r = Hash t \<and> same_hashes rs ts)"
| "same_hashes _ _ = True"

definition check_response :: "L2Block \<Rightarrow> ProcessBatchResponse \<Rightarrow> block_error option" where
  "check_response l2 resp =
     (case BlockResponses resp of
        [blk] \<Rightarrow>
          if length (TransactionResponses blk) \<noteq> length (transactions l2) then Some BlkTxResponses
          else if \<not> same_hashes (TransactionResponses blk) (transactions l2) then Some BlkTxHash
          else if bl_Timestamp blk \<noteq> l2_timestamp l2 then Some BlkTimestamp
          else None
      | bs \<Rightarrow> Some (BlkResponses (length bs)))"

text \<open>The block is taken into its batch when its resources fit, and handed over to be stored.\<close>

definition accept_block ::
    "fin_env \<Rightarrow> L2Block \<Rightarrow> ProcessBatchResponse \<Rightarrow> uint64 \<Rightarrow> finalizer \<Rightarrow> (finalizer \<times> L2Block \<times> block_error option) outcome" where
  "accept_block env l2 resp dataSize f =
     (let l2 = l2\<lparr>batchResponse := Some resp\<rparr> in
      case l2_batch l2 of
        None \<Rightarrow> Panic
      | Some r \<Rightarrow>
          (case reserve (finalRemainingResources (store f r)) (finalHighReservedZKCounters (store f r))
               (pr_UsedZkCounters resp) (pr_ReservedZkCounters resp) dataSize of
             (fits, subOverflow, remaining, high) \<Rightarrow>
               if \<not> fits then Ret (f, l2, Some BlkNoFit)
               else if subOverflow then Ret (f, l2, Some BlkSubOverflow)
               else
                 (let b = (store f r)\<lparr>finalRemainingResources := remaining, finalHighReservedZKCounters := high,
                            finalStateRoot := NewStateRoot resp, finalLocalExitRoot := NewLocalExitRoot resp\<rparr>;
                      l2 = l2\<lparr>highReservedZKCounters := high\<rparr>
                  in bnd (store_pending env (updateFlushIDs (FlushID resp) (StoredFlushID resp) (set_batch r b f)))
                       (\<lambda>f. Ret (f\<lparr>pendingL2BlocksToStore := pendingL2BlocksToStore f @ [l2]\<rparr>, l2, None)))))"

definition processL2Block :: "fin_env \<Rightarrow> finalizer \<Rightarrow> L2Block \<Rightarrow> (finalizer \<times> L2Block \<times> block_error option) outcome" where
  "processL2Block env f l2 =
     bnd (next_pip l2 f) (\<lambda>f.
       case pipBatch f of
         None \<Rightarrow> Panic
       | Some p \<Rightarrow>
           bnd (executeL2Block env f (finalStateRoot (store f p)) l2) (\<lambda>(f, res).
             case res of
               Inl e \<Rightarrow> Ret (f, l2, Some e)
             | Inr (resp, dataSize) \<Rightarrow>
                 (case check_response l2 resp of
                    Some e \<Rightarrow> Ret (f, l2, Some e)
                  | None \<Rightarrow> accept_block env l2 resp dataSize f)))"

text \<open>\<open>processPendingL2Blocks\<close>, until the channel is empty. After an error the blocks that follow are discarded.\<close>

fun process_all :: "fin_env \<Rightarrow> L2Block list \<Rightarrow> finalizer \<Rightarrow> finalizer outcome" where
  "process_all env [] f = Ret f"
| "process_all env (l2 # bs) f =
     (if l2BlockReorg f then process_all env bs f
      else bnd (processL2Block env f l2) (\<lambda>(f, l2, err).
        if err = None then process_all env bs (f\<lparr>lastL2BlockWasReorg := False\<rparr>)
        else if l2_batch l2 = None then Panic
        else if lastL2BlockWasReorg f then Exit
        else process_all env bs (f\<lparr>l2BlockReorg := True, lastL2BlockWasReorg := True\<rparr>)))"

definition process_pending :: "fin_env \<Rightarrow> finalizer \<Rightarrow> finalizer outcome" where
  "process_pending env f = process_all env (pendingL2BlocksToProcess f) (f\<lparr>pendingL2BlocksToProcess := []\<rparr>)"

definition waitPendingL2Blocks :: "fin_env \<Rightarrow> finalizer \<Rightarrow> finalizer outcome" where
  "waitPendingL2Blocks env f = bnd (process_pending env f) (store_pending env)"

section \<open>Closing the block in progress\<close>

definition scheduleNextStateRootSync :: "fin_env \<Rightarrow> finalizer \<Rightarrow> finalizer" where
  "scheduleNextStateRootSync env f = (case tick env f of (now, f) \<Rightarrow> f\<lparr>nextStateRootSync := now + StateRootSyncInterval (cfg env)\<rparr>)"

definition sync_root :: "finalizer \<Rightarrow> finalizer outcome" where
  "sync_root f = bnd (wip f) (\<lambda>b. set_wip (b\<lparr>imStateRoot := finalStateRoot b\<rparr>) f)"

definition sync_state_root :: "fin_env \<Rightarrow> finalizer \<Rightarrow> finalizer outcome" where
  "sync_state_root env f =
     (case tick env f of (now, f) \<Rightarrow>
        if nextStateRootSync f < now then
          bnd (waitPendingL2Blocks env f) (\<lambda>f.
            bnd (wip f) (\<lambda>b.
              case sipBatch f of
                None \<Rightarrow> Panic
              | Some s \<Rightarrow>
                  if batchNumber b \<noteq> batchNumber (store f s) \<and> \<not> (l2BlockReorg f \<and> countOfL2Blocks b \<le> 2) then Exit
                  else bnd (sync_root f) (\<lambda>f. Ret (scheduleNextStateRootSync env f))))
        else Ret f)"

definition closeWIPL2Block :: "fin_env \<Rightarrow> finalizer \<Rightarrow> finalizer outcome" where
  "closeWIPL2Block env f =
     (case wipL2Block f of
        None \<Rightarrow> Panic
      | Some l2 \<Rightarrow>
          bnd (wip f) (\<lambda>b.
            bnd (set_wip (b\<lparr>countOfL2Blocks := countOfL2Blocks b + 1\<rparr>) f) (\<lambda>f.
              bnd (if SequentialProcessL2Block (cfg env) then
                     bnd (processL2Block env f l2) (\<lambda>(f, l2, err). if err \<noteq> None then Exit else sync_root f)
                   else
                     bnd (process_pending env f) (\<lambda>f.
                       if l2_batch l2 = None then Panic
                       else sync_state_root env (f\<lparr>pendingL2BlocksToProcess := pendingL2BlocksToProcess f @ [l2]\<rparr>)))
                (\<lambda>f. Ret (f\<lparr>wipL2Block := None\<rparr>)))))"

section \<open>What the waits change\<close>

lemma flush_loop_Ret:
  "flush_loop n env i f = Ret g \<Longrightarrow> \<exists>k v. exec_calls f \<le> k \<and> i \<le> v \<and> g = f\<lparr>exec_calls := k, storedFlushID := v\<rparr>"
proof (induction n arbitrary: f)
  case (Suc n)
  show ?case
  proof (cases "i \<le> storedFlushID f")
    case True
    then show ?thesis using Suc.prems by (intro exI [of _ "exec_calls f"] exI [of _ "storedFlushID f"]) simp
  next
    case False
    then have "flush_loop n env i (flush_poll env f) = Ret g" using Suc.prems by (simp split: if_splits)
    from Suc.IH [OF this] show ?thesis
      by (auto simp: flush_poll_def split: sum.splits) (metis Suc_leD)+
  qed
qed (auto intro!: exI [of _ "exec_calls g"] exI [of _ "storedFlushID g"] split: if_splits)

lemma wait_flush_Ret:
  assumes "wait_flush env i f = Ret g"
  obtains k v where "exec_calls f \<le> k" "i \<le> v" "g = f\<lparr>exec_calls := k, storedFlushID := v\<rparr>"
  using flush_loop_Ret assms unfolding wait_flush_def by blast

lemma sync_loop_Ret: "sync_loop n env rows f = Ret g \<Longrightarrow> \<exists>k. g = f\<lparr>db_calls := k\<rparr>"
  by (induction n arbitrary: f) (fastforce split: if_splits)+

lemma wait_synced_Ret:
  assumes "wait_synced env rows f = Ret g"
  obtains k where "g = f\<lparr>db_calls := k\<rparr>"
  using sync_loop_Ret assms unfolding wait_synced_def by blast

end
