(* ===== verification/ForcedBatches.thy ===== *)
theory ForcedBatches
  imports L2Blocks
begin

text \<open>
  Forced batches (\<open>sequencer/forcedbatch.go\<close>): the queue of batches that L1 forces on the
  sequencer, and how the finalizer processes them between two of its own batches.
\<close>

section \<open>The queue\<close>

text \<open>The inner loop of the sort: the element at \<open>i\<close> against those that follow.\<close>

fun sort_inner :: "ForcedBatch \<Rightarrow> ForcedBatch list \<Rightarrow> ForcedBatch \<times> ForcedBatch list" where
  "sort_inner x [] = (x, [])"
| "sort_inner x (y # ys) =
     (if fb_ForcedBatchNumber x > fb_ForcedBatchNumber y
      then (case sort_inner y ys of (m, r) \<Rightarrow> (m, x # r))
      else (case sort_inner x ys of (m, r) \<Rightarrow> (m, y # r)))"

lemma sort_inner_length: "length (snd (sort_inner x ys)) = length ys"
  by (induction x ys rule: sort_inner.induct) (auto split: prod.splits)

function sortForcedBatches :: "ForcedBatch list \<Rightarrow> ForcedBatch list" where
  "sortForcedBatches [] = []"
| "sortForcedBatches (x # xs) = fst (sort_inner x xs) # sortForcedBatches (snd (sort_inner x xs))"
  by pat_completeness auto
termination by (relation "measure length") (auto simp: sort_inner_length)

definition setNextForcedBatchDeadline :: "fin_env \<Rightarrow> finalizer \<Rightarrow> finalizer" where
  "setNextForcedBatchDeadline env f = (case tick env f of (now, f) \<Rightarrow>
     f\<lparr>nextForcedBatchDeadline := unix_of now + ForcedBatchesTimeout (cfg env) div 1000000000\<rparr>)"

fun add_forced :: "fin_env \<Rightarrow> ForcedBatch list \<Rightarrow> finalizer \<Rightarrow> finalizer" where
  "add_forced env [] f = f"
| "add_forced env (fb # fbs) f =
     (let f = f\<lparr>nextForcedBatches := sortForcedBatches (nextForcedBatches f @ [fb])\<rparr>;
          f = (if nextForcedBatchDeadline f = 0 then setNextForcedBatchDeadline env f else f)
      in add_forced env fbs (f\<lparr>lastForcedBatchNum := fb_ForcedBatchNumber fb\<rparr>))"

text \<open>
  One round of \<open>checkForcedBatches\<close>; the last L1 block and the query for forced batches are
  arguments.
\<close>

definition checkForcedBatches :: "fin_env \<Rightarrow> string + uint64 \<Rightarrow> (uint64 \<Rightarrow> uint64 \<Rightarrow> string + ForcedBatch list) \<Rightarrow> finalizer \<Rightarrow> finalizer" where
  "checkForcedBatches env lastBlock forcedSince f =
     (case (if lastForcedBatchNum f = 0 then db env f else (None, f)) of
        (Some _, f) \<Rightarrow> f
      | (None, f) \<Rightarrow>
          (let last = GetLastTrustedForcedBatchNumber (state_batches f);
               f = (if lastForcedBatchNum f = 0 \<and> last > 0 then f\<lparr>lastForcedBatchNum := last\<rparr> else f)
           in case lastBlock of
                Inl _ \<Rightarrow> f
              | Inr blockNumber \<Rightarrow>
                  (let confirmations = ForcedBatchesL1BlockConfirmations (cfg env);
                       maxBlockNumber = (if confirmations \<le> blockNumber then blockNumber - confirmations else 0)
                   in case forcedSince (lastForcedBatchNum f) maxBlockNumber of
                        Inl _ \<Rightarrow> f
                      | Inr fbs \<Rightarrow> add_forced env fbs f)))"

section \<open>Processing one forced batch\<close>

datatype forced_error =
    FbDb string
  | FbBlock string
  | FbSql db_error
  | FbCall proc_error

definition forced_context :: "fin_env \<Rightarrow> ForcedBatch \<Rightarrow> uint64 \<Rightarrow> go_time \<Rightarrow> ProcessingContext" where
  "forced_context env fb number now =
     \<lparr>pc_BatchNumber = number, pc_Coinbase = l2Coinbase env, pc_Timestamp = now, pc_GlobalExitRoot = fb_GlobalExitRoot fb,
      pc_ForcedBatchNum = Some (fb_ForcedBatchNumber fb), pc_BatchL2Data = []\<rparr>"

definition forced_request :: "fin_env \<Rightarrow> ForcedBatch \<Rightarrow> hash \<Rightarrow> uint64 \<Rightarrow> hash \<Rightarrow> ProcessRequest" where
  "forced_request env fb parentHash lastBatchNumber stRoot =
     \<lparr>rq_BatchNumber = lastBatchNumber + 1, rq_OldStateRoot = stRoot, rq_Coinbase = l2Coinbase env,
      rq_L1InfoRoot_V2 = fb_GlobalExitRoot fb, rq_ForcedBlockHashL1 = parentHash,
      rq_TimestampLimit_V2 = word_of_int (unix_of (fb_ForcedAt fb)),
      rq_ForkID = GetForkIDByBatchNumber env lastBatchNumber, rq_Transactions = fb_RawTxsData fb,
      rq_SkipFirstChangeL2Block_V2 = False, rq_SkipWriteBlockInfoRoot_V2 = False, rq_SkipVerifyL1InfoRoot_V2 = True,
      rq_L1InfoTreeData_V2 = []\<rparr>"

definition forced_receipt :: "ForcedBatch \<Rightarrow> uint64 \<Rightarrow> ProcessBatchResponse \<Rightarrow> ProcessingReceipt" where
  "forced_receipt fb number resp =
     \<lparr>rc_BatchNumber = number, rc_StateRoot = NewStateRoot resp, rc_LocalExitRoot = NewLocalExitRoot resp,
      rc_GlobalExitRoot = 0, rc_AccInputHash = 0, rc_BatchL2Data = fb_RawTxsData fb,
      rc_ClosingReason = ForcedBatchClosingReason,
      rc_BatchResources = \<lparr>br_ZKCounters = pr_UsedZkCounters resp, br_Bytes = word_of_nat (length (fb_RawTxsData fb))\<rparr>,
      rc_HighReservedZKCounters = zero_counters\<rparr>"

definition all_responses :: "ProcessBatchResponse \<Rightarrow> ProcessTransactionResponse list" where
  "all_responses resp = concat (map TransactionResponses (BlockResponses resp))"

definition add_forced_tx :: "fin_env \<Rightarrow> ProcessTransactionResponse \<Rightarrow> finalizer \<Rightarrow> finalizer" where
  "add_forced_tx env r f = (case GetSender env (tr_Tx r) of
     Inl _ \<Rightarrow> f
   | Inr sender \<Rightarrow> f\<lparr>worker := AddForcedTx (wenv env) (worker f) (tr_TxHash r) sender\<rparr>)"

definition addForcedTxToWorker :: "fin_env \<Rightarrow> ProcessBatchResponse \<Rightarrow> finalizer \<Rightarrow> finalizer" where
  "addForcedTxToWorker env resp f = fold (add_forced_tx env) (all_responses resp) f"

fun forced_txs :: "fin_env \<Rightarrow> ProcessBatchResponse \<Rightarrow> ProcessTransactionResponse list \<Rightarrow> finalizer \<Rightarrow> finalizer outcome" where
  "forced_txs env resp [] f = Ret f"
| "forced_txs env resp (r # rs) f =
     (case GetSender env (tr_Tx r) of
        Inl _ \<Rightarrow> forced_txs env resp rs f
      | Inr sender \<Rightarrow>
          bnd (updateWorkerAfterSuccessfulProcessing env f (tr_TxHash r) sender True resp) (forced_txs env resp rs))"

fun forced_blocks :: "fin_env \<Rightarrow> uint64 \<Rightarrow> ProcessBatchResponse \<Rightarrow> ProcessBlockResponse list \<Rightarrow> finalizer \<Rightarrow>
    (finalizer \<times> forced_error option) outcome" where
  "forced_blocks env number resp [] f = Ret (f, None)"
| "forced_blocks env number resp (blk # blks) f =
     (case db env f of
        (Some e, f) \<Rightarrow> Ret (f, Some (FbDb e))
      | (None, f) \<Rightarrow>
          bnd (forced_txs env resp (TransactionResponses blk) (f\<lparr>stored_blocks := stored_blocks f @ [(number, blk)]\<rparr>))
            (forced_blocks env number resp blks))"

definition handleProcessForcedBatchResponse :: "fin_env \<Rightarrow> uint64 \<Rightarrow> ProcessBatchResponse \<Rightarrow> finalizer \<Rightarrow>
    (finalizer \<times> forced_error option) outcome" where
  "handleProcessForcedBatchResponse env number resp f =
     bnd (wait_flush env (FlushID resp) (updateFlushIDs (FlushID resp) (StoredFlushID resp) (addForcedTxToWorker env resp f)))
       (forced_blocks env number resp (BlockResponses resp))"

text \<open>From the closing of the batch in the table to the commit; an error makes the caller roll back.\<close>

definition forced_close :: "fin_env \<Rightarrow> ForcedBatch \<Rightarrow> uint64 \<Rightarrow> ProcessBatchResponse \<Rightarrow> finalizer \<Rightarrow>
    (finalizer \<times> forced_error option) outcome" where
  "forced_close env fb number resp f =
     (case db env f of
        (Some e, f) \<Rightarrow> Ret (f, Some (FbDb e))
      | (None, f) \<Rightarrow>
          (case CloseBatch (forced_receipt fb number resp) (state_batches f) of
             Inl e \<Rightarrow> Ret (f, Some (FbSql e))
           | Inr rows \<Rightarrow>
               bnd (if BlockResponses resp \<noteq> [] \<and> \<not> IsRomOOCError resp
                    then handleProcessForcedBatchResponse env number resp (f\<lparr>state_batches := rows\<rparr>)
                    else Ret (f\<lparr>state_batches := rows\<rparr>, None)) (\<lambda>(f, err).
                 if err \<noteq> None then Ret (f, err)
                 else (case db env f of (failure, f) \<Rightarrow> Ret (f, map_option FbDb failure)))))"

text \<open>From the opening of the batch in the table on.\<close>

definition forced_body :: "fin_env \<Rightarrow> ForcedBatch \<Rightarrow> hash \<Rightarrow> uint64 \<Rightarrow> hash \<Rightarrow> finalizer \<Rightarrow>
    (finalizer \<times> (forced_error + hash)) outcome" where
  "forced_body env fb parentHash lastBatchNumber stRoot f =
     (case tick env f of (now, f) \<Rightarrow>
        (case db env f of
           (Some e, f) \<Rightarrow> Ret (f, Inl (FbDb e))
         | (None, f) \<Rightarrow>
             (case OpenBatch (forced_context env fb (lastBatchNumber + 1) now) (state_batches f) of
                Inl e \<Rightarrow> Ret (f, Inl (FbSql e))
              | Inr rows \<Rightarrow>
                  (case ProcessBatchV2 env (exec_calls f) (forced_request env fb parentHash lastBatchNumber stRoot) of
                     Inl e \<Rightarrow> Ret (f\<lparr>exec_calls := exec_calls f + 1\<rparr>, Inl (FbCall e))
                   | Inr resp \<Rightarrow>
                       bnd (forced_close env fb (lastBatchNumber + 1) resp
                              (f\<lparr>state_batches := rows, exec_calls := exec_calls f + 1\<rparr>)) (\<lambda>(f, err).
                         Ret (f, case err of Some e \<Rightarrow> Inl e | None \<Rightarrow> Inr (NewStateRoot resp)))))))"

definition processForcedBatch :: "fin_env \<Rightarrow> finalizer \<Rightarrow> ForcedBatch \<Rightarrow> uint64 \<Rightarrow> hash \<Rightarrow>
    (finalizer \<times> uint64 \<times> hash \<times> forced_error option) outcome" where
  "processForcedBatch env f fb lastBatchNumber stRoot =
     (case db env f of
        (Some e, f) \<Rightarrow> Ret (f, lastBatchNumber, stRoot, Some (FbDb e))
      | (None, f) \<Rightarrow>
          (case GetBlockByNumber_ParentHash env (fb_BlockNumber fb) of
             Inl e \<Rightarrow> Ret (f, lastBatchNumber, stRoot, Some (FbBlock e))
           | Inr parentHash \<Rightarrow>
               (let undo = rollback (state_batches f) (stored_blocks f) in
                bnd (forced_body env fb parentHash lastBatchNumber stRoot f) (\<lambda>(f, res).
                  case res of
                    Inl e \<Rightarrow> Ret (undo f, lastBatchNumber, stRoot, Some e)
                  | Inr newStateRoot \<Rightarrow> Ret (f, lastBatchNumber + 1, newStateRoot, None)))))"

section \<open>Processing the queue\<close>

fun forced_loop :: "fin_env \<Rightarrow> ForcedBatch list \<Rightarrow> uint64 \<Rightarrow> uint64 \<Rightarrow> hash \<Rightarrow> finalizer \<Rightarrow> (finalizer \<times> uint64 \<times> hash) outcome" where
  "forced_loop env [] next lastBatchNumber stRoot f = Ret (f\<lparr>nextForcedBatches := []\<rparr>, lastBatchNumber, stRoot)"
| "forced_loop env (fb # fbs) next lastBatchNumber stRoot f =
     (if fb_ForcedBatchNumber fb < next then forced_loop env fbs next lastBatchNumber stRoot f
      else case (if fb_ForcedBatchNumber fb > next then GetForcedBatch env next else Inr fb) of
        Inl _ \<Rightarrow> Ret (f, lastBatchNumber, stRoot)
      | Inr toProcess \<Rightarrow>
          bnd (processForcedBatch env f toProcess lastBatchNumber stRoot) (\<lambda>(f, lastBatchNumber, stRoot, err).
            if err \<noteq> None then Ret (f, lastBatchNumber, stRoot)
            else forced_loop env fbs (next + 1) lastBatchNumber stRoot f))"

definition processForcedBatches :: "fin_env \<Rightarrow> finalizer \<Rightarrow> uint64 \<Rightarrow> hash \<Rightarrow> (finalizer \<times> uint64 \<times> hash) outcome" where
  "processForcedBatches env f lastBatchNumber stRoot =
     (case db env (f\<lparr>nextForcedBatchDeadline := 0\<rparr>) of
        (Some _, f) \<Rightarrow> Ret (f, lastBatchNumber, stRoot)
      | (None, f) \<Rightarrow>
          forced_loop env (nextForcedBatches f) (GetLastTrustedForcedBatchNumber (state_batches f) + 1) lastBatchNumber stRoot f)"

section \<open>The sort\<close>

lemma sort_inner_props:
  "mset (fst (sort_inner x ys) # snd (sort_inner x ys)) = mset (x # ys) \<and>
   (\<forall>y \<in> set (snd (sort_inner x ys)). fb_ForcedBatchNumber (fst (sort_inner x ys)) \<le> fb_ForcedBatchNumber y) \<and>
   fb_ForcedBatchNumber (fst (sort_inner x ys)) \<le> fb_ForcedBatchNumber x"
  by (induction x ys rule: sort_inner.induct) (auto split: prod.splits)

lemma sortForcedBatches_mset: "mset (sortForcedBatches fbs) = mset fbs"
proof (induction fbs rule: sortForcedBatches.induct)
  case (2 x xs)
  then show ?case using sort_inner_props [of x xs] by simp
qed simp

lemma sortForcedBatches_sorted: "sorted (map fb_ForcedBatchNumber (sortForcedBatches fbs))"
proof (induction fbs rule: sortForcedBatches.induct)
  case (2 x xs)
  have "set (sortForcedBatches (snd (sort_inner x xs))) = set (snd (sort_inner x xs))"
    using sortForcedBatches_mset mset_eq_setD by blast
  then show ?case using 2 sort_inner_props [of x xs] by auto
qed simp

section \<open>What a forced batch leaves in the table\<close>

text \<open>The state that processing the transactions of a forced batch does not touch.\<close>

definition same_table :: "finalizer \<Rightarrow> finalizer \<Rightarrow> bool" where
  "same_table f f' \<longleftrightarrow> state_batches f' = state_batches f \<and> nextForcedBatches f' = nextForcedBatches f"

lemma same_table_simps [simp]:
  "same_table f f" "same_table f (g\<lparr>worker := w\<rparr>) = same_table f g" "same_table f (g\<lparr>stored_blocks := bs\<rparr>) = same_table f g"
  "same_table f (g\<lparr>exec_calls := n\<rparr>) = same_table f g" "same_table f (g\<lparr>storedFlushID := v\<rparr>) = same_table f g"
  "same_table f (updateFlushIDs x y g) = same_table f g" "same_table f (snd (tick env g)) = same_table f g"
  "same_table f (snd (db env g)) = same_table f g"
  by (simp_all add: same_table_def updateFlushIDs_def tick_def db_def)

lemma forced_txs_same: "forced_txs env resp rs f = Ret f' \<Longrightarrow> same_table f f'"
proof (induction env resp rs f rule: forced_txs.induct)
  case (2 env resp r rs f)
  show ?case
  proof (cases "GetSender env (tr_Tx r)")
    case (Inr sender)
    obtain g where g: "updateWorkerAfterSuccessfulProcessing env f (tr_TxHash r) sender True resp = Ret g"
      "forced_txs env resp rs g = Ret f'" using 2(3) Inr by (auto simp: bnd_Ret_iff)
    have "same_table f g" using g(1) by (auto simp: updateWorkerAfterSuccessfulProcessing_def)
    then show ?thesis using 2(2) [OF Inr g(2)] by (simp add: same_table_def)
  qed (use 2 in simp)
qed simp

lemma forced_blocks_same: "forced_blocks env n resp bs f = Ret (f', e) \<Longrightarrow> same_table f f'"
proof (induction bs arbitrary: f)
  case (Cons b bs)
  obtain x g where d: "db env f = (x, g)" by fastforce
  have g: "same_table f g" using same_table_simps(8) [of f env f] d by simp
  show ?case
  proof (cases x)
    case None
    then obtain h where h: "forced_txs env resp (TransactionResponses b) (g\<lparr>stored_blocks := stored_blocks g @ [(n, b)]\<rparr>) = Ret h"
      "forced_blocks env n resp bs h = Ret (f', e)" using Cons.prems d by (auto simp: bnd_Ret_iff)
    then show ?thesis using Cons.IH forced_txs_same g by (fastforce simp: same_table_def)
  qed (use Cons.prems d g in auto)
qed simp

lemma addForced_same: "same_table f (addForcedTxToWorker env resp f)"
proof -
  have "same_table f (fold (add_forced_tx env) rs g)" if "same_table f g" for g rs
    using that by (induction rs arbitrary: g) (auto simp: add_forced_tx_def split: sum.split)
  then show ?thesis by (simp add: addForcedTxToWorker_def)
qed

lemma same_table_trans: "same_table f g \<Longrightarrow> same_table g h \<Longrightarrow> same_table f h"
  by (simp add: same_table_def)

lemma handleForced_same:
  assumes "handleProcessForcedBatchResponse env n resp f = Ret (f', e)"
  shows "same_table f f'"
proof -
  obtain g where g: "wait_flush env (FlushID resp) (updateFlushIDs (FlushID resp) (StoredFlushID resp) (addForcedTxToWorker env resp f)) = Ret g"
    and b: "forced_blocks env n resp (BlockResponses resp) g = Ret (f', e)"
    using assms unfolding handleProcessForcedBatchResponse_def by (auto elim: bnd_RetE)
  have "same_table f g" using g addForced_same [of f env resp] by (auto elim!: wait_flush_Ret)
  then show ?thesis using forced_blocks_same [OF b] by (rule same_table_trans)
qed

text \<open>The row of a forced batch.\<close>

definition forced_row :: "fin_env \<Rightarrow> ForcedBatch \<Rightarrow> uint64 \<Rightarrow> hash \<Rightarrow> hash \<Rightarrow> StateBatch \<Rightarrow> bool" where
  "forced_row env fb number old new row \<longleftrightarrow> sb_BatchNumber row = number \<and> sb_ForcedBatchNum row = Some (fb_ForcedBatchNumber fb) \<and>
     sb_BatchL2Data row = fb_RawTxsData fb \<and> sb_StateRoot row = new \<and> \<not> sb_WIP row \<and>
     sb_ClosingReason row = ForcedBatchClosingReason \<and>
     (\<exists>n parent resp. GetBlockByNumber_ParentHash env (fb_BlockNumber fb) = Inr parent \<and>
        ProcessBatchV2 env n (forced_request env fb parent (number - 1) old) = Inr resp \<and> NewStateRoot resp = new)"

lemma update_last_row:
  assumes "rows_wf (rows @ [r])" and "sb_BatchNumber r = n"
  shows "update_rows n g (rows @ [r]) = rows @ [g r]"
proof -
  have "sb_BatchNumber x \<noteq> n" if "x \<in> set rows" for x
  proof -
    obtain i where i: "i < length rows" "x = rows ! i" using \<open>x \<in> set rows\<close> by (auto simp: in_set_conv_nth)
    have "unat (sb_BatchNumber x) = i" using number_nth(2) [OF assms(1), of i] i by (simp add: nth_append)
    moreover have "unat n = length rows" using number_nth(2) [OF assms(1), of "length rows"] assms(2) by simp
    ultimately show ?thesis using i(1) by auto
  qed
  then have "map (\<lambda>r. if sb_BatchNumber r = n then g r else r) rows = rows" by (intro map_idI) auto
  then show ?thesis using assms(2) by (simp add: update_rows_def)
qed

lemma forced_close_cases:
  assumes c: "forced_close env fb n resp f = Ret (f', err)"
  obtains (failed) "err \<noteq> None" "nextForcedBatches f' = nextForcedBatches f"
  | (closed) rows where "CloseBatch (forced_receipt fb n resp) (state_batches f) = Inr rows" "state_batches f' = rows"
      "nextForcedBatches f' = nextForcedBatches f"
proof -
  obtain x g where d: "db env f = (x, g)" by fastforce
  have g: "state_batches g = state_batches f" "nextForcedBatches g = nextForcedBatches f" using d by (auto simp: db_def)
  show ?thesis
  proof (cases "x = None \<and> (\<exists>rows. CloseBatch (forced_receipt fb n resp) (state_batches g) = Inr rows)")
    case False
    then show ?thesis using c d g failed
      by (cases x; cases "CloseBatch (forced_receipt fb n resp) (state_batches g)") (auto simp: forced_close_def)
  next
    case True
    then obtain rows where x: "x = None" and r: "CloseBatch (forced_receipt fb n resp) (state_batches g) = Inr rows" by blast
    let ?m = "if BlockResponses resp \<noteq> [] \<and> \<not> IsRomOOCError resp
        then handleProcessForcedBatchResponse env n resp (g\<lparr>state_batches := rows\<rparr>) else Ret (g\<lparr>state_batches := rows\<rparr>, None)"
    have "bnd ?m (\<lambda>(f, err). if err \<noteq> None then Ret (f, err)
        else (case db env f of (failure, f) \<Rightarrow> Ret (f, map_option FbDb failure))) = Ret (f', err)"
      using c d x r by (simp add: forced_close_def)
    then obtain h e where h: "?m = Ret (h, e)" and k: "(if e \<noteq> None then Ret (h, e)
        else (case db env h of (failure, f) \<Rightarrow> Ret (f, map_option FbDb failure))) = Ret (f', err)"
      unfolding bnd_Ret_iff by auto
    have "same_table (g\<lparr>state_batches := rows\<rparr>) h" using h handleForced_same by (auto split: if_splits)
    moreover have "f' = h \<or> f' = snd (db env h)" using k by (cases "db env h") (auto split: if_splits)
    ultimately have "same_table (g\<lparr>state_batches := rows\<rparr>) f'" by auto
    then show ?thesis using closed r g by (simp add: same_table_def)
  qed
qed

lemma OpenBatch_row:
  assumes "OpenBatch c rows = Inr rows'" and wf: "rows_wf rows"
  shows "\<exists>row. rows' = rows @ [row] \<and> rows_wf rows' \<and> sb_BatchNumber row = pc_BatchNumber c \<and>
    sb_ForcedBatchNum row = pc_ForcedBatchNum c"
proof -
  have ck: "check_open (pc_BatchNumber c) (pc_Timestamp c) rows = None" and o: "OpenBatchInStorage c rows = Inr rows'"
    using assms(1) by (auto simp: OpenBatch_def split: option.splits)
  show ?thesis using open_row_wf [OF wf ck o [unfolded OpenBatchInStorage_def]] by simp
qed

lemma close_forced_row:
  assumes c: "CloseBatch (forced_receipt fb n resp) (rows @ [row]) = Inr rows'" and wf: "rows_wf (rows @ [row])"
    and row: "sb_BatchNumber row = n" "sb_ForcedBatchNum row = Some (fb_ForcedBatchNumber fb)"
    and p: "GetBlockByNumber_ParentHash env (fb_BlockNumber fb) = Inr parent"
      "ProcessBatchV2 env k (forced_request env fb parent (n - 1) old) = Inr resp"
  shows "\<exists>row'. rows' = rows @ [row'] \<and> forced_row env fb n old (NewStateRoot resp) row' \<and> rows_wf rows'"
proof -
  let ?g = "\<lambda>r :: StateBatch. r\<lparr>sb_StateRoot := NewStateRoot resp, sb_LocalExitRoot := NewLocalExitRoot resp, sb_AccInputHash := 0,
      sb_BatchL2Data := fb_RawTxsData fb, sb_Resources := rc_BatchResources (forced_receipt fb n resp),
      sb_ClosingReason := ForcedBatchClosingReason, sb_WIP := False\<rparr>"
  have r: "rows' = update_rows n ?g (rows @ [row])"
    using c by (auto simp: CloseBatch_def CloseBatchInStorage_def forced_receipt_def split: option.splits)
  then have "rows' = rows @ [?g row]" using update_last_row [OF wf row(1)] by simp
  moreover have "forced_row env fb n old (NewStateRoot resp) (?g row)"
    unfolding forced_row_def using row p by auto
  moreover have "rows_wf rows'" unfolding r by (rule update_wf [OF wf]) auto
  ultimately show ?thesis by blast
qed

lemma forced_body_table:
  assumes p: "forced_body env fb parent n stRoot f = Ret (f', res)" and wf: "rows_wf (state_batches f)"
    and parent: "GetBlockByNumber_ParentHash env (fb_BlockNumber fb) = Inr parent"
  shows "nextForcedBatches f' = nextForcedBatches f \<and>
    (\<forall>new. res = Inr new \<longrightarrow> (\<exists>row. state_batches f' = state_batches f @ [row] \<and> forced_row env fb (n + 1) stRoot new row) \<and>
       rows_wf (state_batches f'))"
proof -
  obtain now g where t: "tick env f = (now, g)" by fastforce
  obtain x h where d: "db env g = (x, h)" by fastforce
  have h: "state_batches h = state_batches f" "nextForcedBatches h = nextForcedBatches f" using t d by (auto simp: db_def tick_def)
  note e = p [unfolded forced_body_def t prod.case d]
  show ?thesis
  proof (cases "x = None \<and> (\<exists>rows resp. OpenBatch (forced_context env fb (n + 1) now) (state_batches h) = Inr rows \<and>
      ProcessBatchV2 env (exec_calls h) (forced_request env fb parent n stRoot) = Inr resp)")
    case False
    then show ?thesis using e h
      by (auto split: option.splits sum.splits)
  next
    case True
    then obtain rows resp where x: "x = None" and o: "OpenBatch (forced_context env fb (n + 1) now) (state_batches h) = Inr rows"
      and a: "ProcessBatchV2 env (exec_calls h) (forced_request env fb parent n stRoot) = Inr resp" by blast
    let ?k = "h\<lparr>state_batches := rows, exec_calls := exec_calls h + 1\<rparr>"
    obtain err where c: "forced_close env fb (n + 1) resp ?k = Ret (f', err)"
      and r: "res = (case err of Some e \<Rightarrow> Inl e | None \<Rightarrow> Inr (NewStateRoot resp))"
      using e x o a by (auto simp: bnd_Ret_iff)
    obtain row where row: "rows = state_batches f @ [row]" "rows_wf rows" "sb_BatchNumber row = n + 1"
      "sb_ForcedBatchNum row = Some (fb_ForcedBatchNumber fb)"
      using OpenBatch_row [OF o] wf h by (auto simp: forced_context_def)
    from c show ?thesis
    proof (cases rule: forced_close_cases)
      case failed
      then show ?thesis using r h by auto
    next
      case (closed rows')
      have "CloseBatch (forced_receipt fb (n + 1) resp) (state_batches f @ [row]) = Inr rows'" using closed(1) row(1) by simp
      from close_forced_row [OF this row(2) [unfolded row(1)] row(3,4) parent] a closed h r
      show ?thesis by (auto split: option.splits)
    qed
  qed
qed

lemma processForcedBatch_table:
  assumes p: "processForcedBatch env f fb n stRoot = Ret (f', n', root', err)" and wf: "rows_wf (state_batches f)"
  shows "nextForcedBatches f' = nextForcedBatches f \<and>
    (if err = None then n' = n + 1 \<and> (\<exists>row. state_batches f' = state_batches f @ [row] \<and> forced_row env fb n' stRoot root' row) \<and>
       rows_wf (state_batches f')
     else n' = n \<and> root' = stRoot \<and> state_batches f' = state_batches f)"
proof -
  obtain x g where d: "db env f = (x, g)" by fastforce
  have g: "state_batches g = state_batches f" "nextForcedBatches g = nextForcedBatches f" using d by (auto simp: db_def)
  show ?thesis
  proof (cases x)
    case (Some e)
    then show ?thesis using p d g by (auto simp: processForcedBatch_def)
  next
    case None
    show ?thesis
    proof (cases "GetBlockByNumber_ParentHash env (fb_BlockNumber fb)")
      case (Inl e)
      then show ?thesis using p d g None by (auto simp: processForcedBatch_def)
    next
      case (Inr parent)
      obtain h res where b: "forced_body env fb parent n stRoot g = Ret (h, res)"
        using p d None Inr by (auto simp: processForcedBatch_def bnd_Ret_iff Let_def)
      have wf': "rows_wf (state_batches g)" using wf g by simp
      note t = forced_body_table [OF b wf' Inr]
      show ?thesis
        using p d None Inr b t g by (cases res) (auto simp: processForcedBatch_def Let_def rollback_def)
    qed
  qed
qed

section \<open>The queue in order\<close>

fun in_order :: "uint64 \<Rightarrow> ForcedBatch list \<Rightarrow> bool" where
  "in_order n [] = True"
| "in_order n (fb # fbs) = (fb_ForcedBatchNumber fb = n \<and> in_order (n + 1) fbs)"

text \<open>Rows of forced batches, each executed on the state root the one before it left.\<close>

fun forced_rows :: "fin_env \<Rightarrow> ForcedBatch list \<Rightarrow> uint64 \<Rightarrow> hash \<Rightarrow> StateBatch list \<Rightarrow> hash \<Rightarrow> bool" where
  "forced_rows env [] n old rows new = (rows = [] \<and> new = old)"
| "forced_rows env (fb # fbs) n old rows new =
     (case rows of
        [] \<Rightarrow> False
      | r # rs \<Rightarrow> forced_row env fb (n + 1) old (sb_StateRoot r) r \<and> forced_rows env fbs (n + 1) (sb_StateRoot r) rs new)"

lemma forced_loop_rows:
  assumes "forced_loop env fbs next n stRoot f = Ret (f', n', root')" and "in_order next fbs" and "rows_wf (state_batches f)"
  shows "\<exists>k rows. k \<le> length fbs \<and> state_batches f' = state_batches f @ rows \<and>
    forced_rows env (take k fbs) n stRoot rows root' \<and> n' = n + word_of_nat k \<and> rows_wf (state_batches f') \<and>
    nextForcedBatches f' = (if k = length fbs then [] else nextForcedBatches f)"
  using assms
proof (induction fbs arbitrary: "next" n stRoot f)
  case Nil
  then show ?case by (auto intro!: exI [of _ 0])
next
  case (Cons fb fbs)
  have num: "fb_ForcedBatchNumber fb = next" "in_order (next + 1) fbs" using Cons.prems(2) by simp_all
  obtain g n1 root1 err where p: "processForcedBatch env f fb n stRoot = Ret (g, n1, root1, err)"
    and k: "(if err \<noteq> None then Ret (g, n1, root1) else forced_loop env fbs (next + 1) n1 root1 g) = Ret (f', n', root')"
    using Cons.prems(1) num(1) by (auto simp: bnd_Ret_iff)
  note t = processForcedBatch_table [OF p Cons.prems(3)]
  show ?case
  proof (cases err)
    case (Some e)
    then show ?thesis using k t Cons.prems(3) by (intro exI [of _ 0] exI [of _ "[]"]) auto
  next
    case None
    then obtain row where r: "state_batches g = state_batches f @ [row]" "forced_row env fb (n + 1) stRoot root1 row"
      "n1 = n + 1" "rows_wf (state_batches g)" "nextForcedBatches g = nextForcedBatches f" using t by auto
    have root1: "root1 = sb_StateRoot row" using r(2) by (simp add: forced_row_def)
    have l: "forced_loop env fbs (next + 1) n1 root1 g = Ret (f', n', root')" using k None by simp
    obtain j rows where j: "j \<le> length fbs" "state_batches f' = state_batches g @ rows"
      "forced_rows env (take j fbs) n1 root1 rows root'" "n' = n1 + word_of_nat j" "rows_wf (state_batches f')"
      "nextForcedBatches f' = (if j = length fbs then [] else nextForcedBatches g)"
      using Cons.IH [OF l num(2) r(4)] by blast
    show ?thesis
      using j r root1 by (intro exI [of _ "Suc j"] exI [of _ "row # rows"]) (simp add: add.assoc)
  qed
qed

text \<open>
  With a gap in front of the queue, each step processes the batch that is next in place of the one in the
  queue: after as many steps as the queue has batches, the queue is gone.
\<close>

lemma forced_loop_gap:
  assumes "forced_loop env fbs next n stRoot f = Ret (f', n', root')" and "in_order m fbs" and "next < m"
    and "unat m + length fbs < 2 ^ 64" and "\<And>i x. GetForcedBatch env i = Inr x \<Longrightarrow> fb_ForcedBatchNumber x = i"
    and "rows_wf (state_batches f)"
  shows "\<exists>k rows. k \<le> length fbs \<and> state_batches f' = state_batches f @ rows \<and>
    map sb_ForcedBatchNum rows = map (\<lambda>i. Some (next + word_of_nat i)) [0..<k] \<and> n' = n + word_of_nat k \<and>
    nextForcedBatches f' = (if k = length fbs then [] else nextForcedBatches f)"
  using assms(1-4,6)
proof (induction fbs arbitrary: "next" m n stRoot f)
  case Nil
  then show ?case by (auto intro!: exI [of _ 0])
next
  case (Cons fb fbs)
  have num: "fb_ForcedBatchNumber fb = m" "in_order (m + 1) fbs" "\<not> m < next" using Cons.prems(2,3) by auto
  have m1: "unat (m + 1) = unat m + 1" using Cons.prems(4) by (simp add: unat_word_ariths)
  have "unat next < unat m" "unat m + 1 < 2 ^ 64" using Cons.prems(3,4) by (simp_all add: word_less_nat_alt)
  then have lt: "next + 1 < m + 1" using m1 by (simp add: word_less_nat_alt unat_word_ariths)
  have stop: "\<exists>k rows. k \<le> length (fb # fbs) \<and> state_batches f = state_batches f @ rows \<and>
      map sb_ForcedBatchNum rows = map (\<lambda>i. Some (next + word_of_nat i)) [0..<k] \<and> n = n + word_of_nat k \<and>
      nextForcedBatches f = (if k = length (fb # fbs) then [] else nextForcedBatches f)"
    by (intro exI [of _ 0]) simp
  show ?case
  proof (cases "GetForcedBatch env next")
    case (Inl e)
    then have "f' = f" "n' = n" using Cons.prems(1,3) num by auto
    then show ?thesis using stop by simp
  next
    case (Inr x)
    obtain g n1 root1 err where p: "processForcedBatch env f x n stRoot = Ret (g, n1, root1, err)"
      and k: "(if err \<noteq> None then Ret (g, n1, root1) else forced_loop env fbs (next + 1) n1 root1 g) = Ret (f', n', root')"
      using Cons.prems(1,3) num Inr by (auto simp: bnd_Ret_iff)
    note t = processForcedBatch_table [OF p Cons.prems(5)]
    show ?thesis
    proof (cases err)
      case (Some e)
      then show ?thesis using k t by (intro exI [of _ 0] exI [of _ "[]"]) auto
    next
      case None
      then obtain row where r: "state_batches g = state_batches f @ [row]" "forced_row env x (n + 1) stRoot root1 row"
        "n1 = n + 1" "rows_wf (state_batches g)" "nextForcedBatches g = nextForcedBatches f" using t by auto
      have row: "sb_ForcedBatchNum row = Some next" using r(2) assms(5) [OF Inr] by (simp add: forced_row_def)
      have l: "forced_loop env fbs (next + 1) n1 root1 g = Ret (f', n', root')" using k None by simp
      obtain j rows where j: "j \<le> length fbs" "state_batches f' = state_batches g @ rows"
        "map sb_ForcedBatchNum rows = map (\<lambda>i. Some (next + 1 + word_of_nat i)) [0..<j]" "n' = n1 + word_of_nat j"
        "nextForcedBatches f' = (if j = length fbs then [] else nextForcedBatches g)"
        using Cons.IH [OF l num(2) lt _ r(4)] Cons.prems(4) m1 by auto
      have "map (\<lambda>i. Some (next + word_of_nat i)) [0..<Suc j] =
          Some next # map (\<lambda>i. Some (next + 1 + word_of_nat i)) [0..<j]"
        by (simp only: upt_conv_Cons [OF zero_less_Suc] map_Suc_upt [symmetric] list.map map_map o_def) (simp add: add.assoc)
      then show ?thesis
        using j r row by (intro exI [of _ "Suc j"] exI [of _ "row # rows"]) (simp add: add.assoc)
    qed
  qed
qed

lemma in_order_last:
  "in_order m fbs \<Longrightarrow> fbs \<noteq> [] \<Longrightarrow> fb_ForcedBatchNumber (last fbs) = m + word_of_nat (length fbs - 1)"
proof (induction fbs arbitrary: m)
  case (Cons fb fbs)
  then show ?case by (cases fbs) (auto simp: add.assoc)
qed simp

text \<open>The last batch of such a queue is not among the processed ones.\<close>

lemma gap_not_reached:
  assumes "in_order m fbs" and "fbs \<noteq> []" and "next < m" and "unat m + length fbs < 2 ^ 64" and "i < length fbs"
  shows "next + word_of_nat i \<noteq> fb_ForcedBatchNumber (last fbs)"
proof -
  have u: "unat (a + word_of_nat j :: uint64) = unat a + j" if "unat a + j < 2 ^ 64" for a :: uint64 and j
  proof -
    have "unat (word_of_nat j :: uint64) = j" using that by (intro nat63) simp
    then show ?thesis using that by (simp add: unat_word_ariths)
  qed
  have "unat next < unat m" using assms(3) by (simp add: word_less_nat_alt)
  then have "unat (next + word_of_nat i) < unat (m + word_of_nat (length fbs - 1))"
    using u [of "next" i] u [of m "length fbs - 1"] assms(4,5) by simp
  then show ?thesis using in_order_last [OF assms(1,2)] by auto
qed

end
