(* ===== verification/BatchLifecycle.thy ===== *)
theory BatchLifecycle
  imports ForcedBatches
begin

text \<open>
  The batch and the L2 block in progress (\<open>sequencer/batch.go\<close>, \<open>sequencer/l2block.go\<close>) and the
  loop of the finalizer (\<open>finalizeBatches\<close>). Opening a block may close the batch and open a new
  one, and that may open a block after forced batches: the first argument of the two functions
  bounds this recursion. The first block waits for an entry of the L1 info tree, which another
  goroutine provides: a state in which there is none yet is one in which the call is stuck.
\<close>

section \<open>Opening a block\<close>

definition changeL2BlockSize :: uint64 where
  "changeL2BlockSize = 9"

definition make_block :: "fin_env \<Rightarrow> uint64 \<Rightarrow> uint32 option \<Rightarrow> finalizer \<Rightarrow> L2Block \<times> finalizer" where
  "make_block env prevTimestamp prevL1InfoTreeIndex f =
     (case tick env f of (now, f) \<Rightarrow>
        (let delta = ucast (word_of_int (unix_of now) - prevTimestamp) :: uint32;
             counter = l2BlockCounter f + 1;
             entry = lastL1InfoTree f;
             (changed, f) = (case prevL1InfoTreeIndex of
                Some i \<Rightarrow> (en_L1InfoTreeIndex entry \<noteq> i, f)
              | None \<Rightarrow> (case db env f of
                   (Some _, f) \<Rightarrow> (False, f)
                 | (None, f) \<Rightarrow> (en_GlobalExitRoot entry \<noteq> GetLatestBatchGlobalExitRoot (state_batches f), f)))
         in (\<lparr>createdAt = now, trackingNum = counter, l2_timestamp = prevTimestamp + ucast delta, deltaTimestamp = delta,
              l2_imStateRoot = 0, l1InfoTreeExitRoot = entry, l1InfoTreeExitRootChanged = changed, l2_bytes = 0,
              usedZKCountersOnNew = zero_counters, reservedZKCountersOnNew = zero_counters,
              highReservedZKCounters = zero_counters, transactions = [], l2_batch = None, batchResponse = None\<rparr>,
             f\<lparr>l2BlockCounter := counter\<rparr>)))"

definition executeNewWIPL2Block :: "fin_env \<Rightarrow> finalizer \<Rightarrow> (finalizer \<times> (block_error + ProcessBatchResponse)) outcome" where
  "executeNewWIPL2Block env f =
     bnd (wip f) (\<lambda>b.
       case wipL2Block f of
         None \<Rightarrow> Panic
       | Some l2 \<Rightarrow>
           (let rq = \<lparr>rq_BatchNumber = batchNumber b, rq_OldStateRoot = imStateRoot b, rq_Coinbase = coinbase b,
                  rq_L1InfoRoot_V2 = mockL1InfoRoot, rq_ForcedBlockHashL1 = 0, rq_TimestampLimit_V2 = l2_timestamp l2,
                  rq_ForkID = GetForkIDByBatchNumber env (batchNumber b),
                  rq_Transactions = BuildChangeL2Block (deltaTimestamp l2) (getL1InfoTreeIndex l2),
                  rq_SkipFirstChangeL2Block_V2 = False, rq_SkipWriteBlockInfoRoot_V2 = True, rq_SkipVerifyL1InfoRoot_V2 = True,
                  rq_L1InfoTreeData_V2 = l1_info_data (l1InfoTreeExitRoot l2)\<rparr>;
                answer = ProcessBatchV2 env (exec_calls f) rq;
                f = f\<lparr>exec_calls := exec_calls f + 1\<rparr>
            in case answer of
                 Inl e \<Rightarrow> Ret (f, Inl (BlkCall e))
               | Inr resp \<Rightarrow>
                   if pr_ExecutorError resp \<noteq> None then Ret (f, Inl BlkExecutor)
                   else if IsRomOOCError resp then Ret (f, Inl BlkOOC)
                   else Ret (f, Inr resp)))"

text \<open>Twice the hashes and two more: writing the L1 info root needs them later.\<close>

definition reserve_hashes :: "ZKCounters \<Rightarrow> ZKCounters" where
  "reserve_hashes z = z\<lparr>PoseidonHashes := PoseidonHashes z * 2 + 2\<rparr>"

definition account_block :: "ProcessBatchResponse \<Rightarrow> finalizer \<Rightarrow> (bool \<times> finalizer) outcome" where
  "account_block resp f =
     bnd (wip f) (\<lambda>b.
       case wipL2Block f of
         None \<Rightarrow> Panic
       | Some l2 \<Rightarrow>
           (let used = reserve_hashes (pr_UsedZkCounters resp);
                reserved = reserve_hashes (pr_ReservedZkCounters resp);
                l2 = l2\<lparr>l2_imStateRoot := NewStateRoot resp, usedZKCountersOnNew := used,
                        reservedZKCountersOnNew := reserved, l2_bytes := changeL2BlockSize\<rparr>
            in case reserve (imRemainingResources b) (imHighReservedZKCounters b) used reserved changeL2BlockSize of
                 (fits, subOverflow, remaining, high) \<Rightarrow>
                   bnd (set_wip (b\<lparr>imStateRoot := NewStateRoot resp, imRemainingResources := remaining,
                                   imHighReservedZKCounters := high\<rparr>) (f\<lparr>wipL2Block := Some l2\<rparr>)) (\<lambda>f.
                     Ret (fits \<and> \<not> subOverflow, f))))"

datatype close_error = CloseSip block_error | CloseOverflow

text \<open>The block gets its place: when its resources do not fit, in a new batch that the first argument opens.\<close>

definition place_block :: "(finalizer \<Rightarrow> (finalizer \<times> close_error option) outcome) \<Rightarrow> ProcessBatchResponse \<Rightarrow> finalizer \<Rightarrow> finalizer outcome" where
  "place_block closeBatch resp f =
     bnd (account_block resp f) (\<lambda>(ok, f).
       bnd (if ok then Ret f else bnd (closeBatch f) (\<lambda>(f, err). if err \<noteq> None then Exit else Ret f)) (\<lambda>f.
         case (wipL2Block f, wipBatch f) of
           (Some l2, Some r) \<Rightarrow> Ret (f\<lparr>wipL2Block := Some (l2\<lparr>l2_batch := Some r\<rparr>)\<rparr>)
         | _ \<Rightarrow> Panic))"

section \<open>Closing the batch\<close>

definition closeWIPBatch :: "finalizer \<Rightarrow> finalizer outcome" where
  "closeWIPBatch f = bnd (wip f) (\<lambda>b. if batch_isEmpty b then Exit else Ret (f\<lparr>wipBatch := None\<rparr>))"

text \<open>Before forced batches the block in progress is closed and everything is stored.\<close>

definition flush_for_forced :: "fin_env \<Rightarrow> finalizer \<Rightarrow> (finalizer \<times> hash \<times> block_error option) outcome" where
  "flush_for_forced env f =
     bnd (closeWIPL2Block env f) (\<lambda>f.
       bnd (waitPendingL2Blocks env f) (\<lambda>f.
         case sipBatch f of
           None \<Rightarrow> Panic
         | Some s \<Rightarrow>
             (let stRoot = finalStateRoot (store f s)
              in bnd (finalizeSIPBatch env f) (\<lambda>(f, err). Ret (f, stRoot, err)))))"

text \<open>The batch number at which the sequencer stops.\<close>

definition halt_on :: "fin_env \<Rightarrow> finalizer \<Rightarrow> (finalizer \<times> close_error option) outcome" where
  "halt_on env f =
     bnd (waitPendingL2Blocks env f) (\<lambda>f.
       bnd (finalizeSIPBatch env f) (\<lambda>(f, err).
         case err of Some e \<Rightarrow> Ret (f, Some (CloseSip e)) | None \<Rightarrow> Stuck))"

text \<open>An empty block goes over to the new batch.\<close>

definition reuse_block :: "batch_ref \<Rightarrow> L2Block \<Rightarrow> finalizer \<Rightarrow> finalizer \<times> close_error option" where
  "reuse_block r l2 f =
     (case br_Sub (imRemainingResources (store f r)) \<lparr>br_ZKCounters = usedZKCountersOnNew l2, br_Bytes = l2_bytes l2\<rparr> of
        (remaining, overflow, _) \<Rightarrow>
          (set_batch r ((store f r)\<lparr>imStateRoot := l2_imStateRoot l2, imRemainingResources := remaining\<rparr>)
             (f\<lparr>wipL2Block := Some (l2\<lparr>l2_batch := Some r\<rparr>)\<rparr>),
           if overflow then Some CloseOverflow else None))"

definition open_batch :: "fin_env \<Rightarrow> uint64 \<Rightarrow> hash \<Rightarrow> finalizer \<Rightarrow> batch_ref \<times> finalizer" where
  "open_batch env number stRoot f =
     (case tick env f of (now, f) \<Rightarrow>
        (case new_batch (openNewWIPBatch (constraints env) (l2Coinbase env) now number stRoot) f of
           (r, f) \<Rightarrow> (r, f\<lparr>wipBatch := Some r\<rparr>)))"

text \<open>From the closing of the batch on; the first argument opens a block after forced batches.\<close>

definition next_batch :: "(finalizer \<Rightarrow> finalizer outcome) \<Rightarrow> fin_env \<Rightarrow> bool \<Rightarrow> hash \<Rightarrow> finalizer \<Rightarrow>
    (finalizer \<times> close_error option) outcome" where
  "next_batch initBlock env forced stRoot f =
     bnd (wip f) (\<lambda>b.
     bnd (closeWIPBatch f) (\<lambda>f.
       if batchNumber b + 1 = HaltOnBatchNumber (cfg env) then halt_on env f
       else
         bnd (if forced then processForcedBatches env f (batchNumber b) stRoot else Ret (f, batchNumber b, stRoot)) (\<lambda>(f, last, stRoot).
           case open_batch env (last + 1) stRoot f of
             (r, f) \<Rightarrow>
               if forced then bnd (initBlock f) (\<lambda>f. Ret (f, None))
               else (case wipL2Block f of None \<Rightarrow> Ret (f, None) | Some l2 \<Rightarrow> Ret (reuse_block r l2 f)))))"

fun closeAndOpenNewWIPBatch :: "nat \<Rightarrow> fin_env \<Rightarrow> ClosingReason \<Rightarrow> finalizer \<Rightarrow> (finalizer \<times> close_error option) outcome"
  and openNewWIPL2Block :: "nat \<Rightarrow> fin_env \<Rightarrow> uint64 \<Rightarrow> uint32 option \<Rightarrow> finalizer \<Rightarrow> finalizer outcome"
  and initWIPL2Block :: "nat \<Rightarrow> fin_env \<Rightarrow> finalizer \<Rightarrow> finalizer outcome" where
  "closeAndOpenNewWIPBatch 0 env reason f = Stuck"
| "closeAndOpenNewWIPBatch (Suc n) env reason f =
     (let forced = (nextForcedBatches f \<noteq> []) in
      bnd (wip f) (\<lambda>b.
      bnd (set_wip (b\<lparr>closingReason := reason\<rparr>) f) (\<lambda>f.
      bnd (if forced then flush_for_forced env f else Ret (f, imStateRoot b, None)) (\<lambda>(f, stRoot, err).
        case err of
          Some e \<Rightarrow> Ret (f, Some (CloseSip e))
        | None \<Rightarrow> next_batch (\<lambda>f. initWIPL2Block n env f) env forced stRoot f))))"
| "openNewWIPL2Block 0 env prevTimestamp prevIndex f = Stuck"
| "openNewWIPL2Block (Suc n) env prevTimestamp prevIndex f =
     (case make_block env prevTimestamp prevIndex f of
        (l2, f) \<Rightarrow>
          bnd (executeNewWIPL2Block env (f\<lparr>wipL2Block := Some l2\<rparr>)) (\<lambda>(f, res).
            case res of
              Inl _ \<Rightarrow> Exit
            | Inr resp \<Rightarrow>
                if length (BlockResponses resp) \<noteq> 1 then Exit
                else place_block (\<lambda>f. closeAndOpenNewWIPBatch n env ResourceExhaustedClosingReason f) resp f))"
| "initWIPL2Block 0 env f = Stuck"
| "initWIPL2Block (Suc n) env f =
     (if \<not> lastL1InfoTreeValid f then Stuck
      else case GetLastL2Block_ReceivedAt env (db_calls f) of
        Inl _ \<Rightarrow> Exit
      | Inr t \<Rightarrow> openNewWIPL2Block n env (word_of_int (unix_of t)) None (snd (db env f)))"

definition finalizeWIPBatch :: "nat \<Rightarrow> fin_env \<Rightarrow> ClosingReason \<Rightarrow> finalizer \<Rightarrow> finalizer outcome" where
  "finalizeWIPBatch n env closeReason f =
     bnd (wip f) (\<lambda>_.
       case wipL2Block f of
         None \<Rightarrow> Panic
       | Some l2 \<Rightarrow>
           bnd (if l2_isEmpty l2 then Ret f else closeWIPL2Block env f) (\<lambda>f.
           bnd (closeAndOpenNewWIPBatch n env closeReason f) (\<lambda>(f, err).
             if err \<noteq> None then Exit
             else if wipL2Block f = None
             then openNewWIPL2Block n env (l2_timestamp l2) (Some (en_L1InfoTreeIndex (l1InfoTreeExitRoot l2))) f
             else Ret f)))"

definition finalizeWIPL2Block :: "nat \<Rightarrow> fin_env \<Rightarrow> finalizer \<Rightarrow> finalizer outcome" where
  "finalizeWIPL2Block n env f =
     (case wipL2Block f of
        None \<Rightarrow> Panic
      | Some l2 \<Rightarrow>
          bnd (closeWIPL2Block env f)
            (openNewWIPL2Block n env (l2_timestamp l2) (Some (en_L1InfoTreeIndex (l1InfoTreeExitRoot l2)))))"

section \<open>Starting, and starting again after a reorganisation\<close>

definition no_error :: "db_error + 'a \<Rightarrow> string + 'a" where
  "no_error r = (case r of Inl _ \<Rightarrow> Inl ''database'' | Inr a \<Rightarrow> Inr a)"

definition initWIPBatch :: "fin_env \<Rightarrow> finalizer \<Rightarrow> finalizer outcome" where
  "initWIPBatch env f =
     bnd (wait_synced env (state_batches f) f) (\<lambda>f.
     case db env f of
        (Some _, f) \<Rightarrow> Exit
      | (None, f) \<Rightarrow>
          (case GetLastBatchNumber (state_batches f) of
             Inl _ \<Rightarrow> Exit
           | Inr lastBatchNum \<Rightarrow>
               (case GetBatchByNumber (state_batches f) lastBatchNum of
                  Inl _ \<Rightarrow> Exit
                | Inr lastStateBatch \<Rightarrow>
                    if \<not> sb_WIP lastStateBatch then
                      (if sb_BatchNumber lastStateBatch + 1 = HaltOnBatchNumber (cfg env) then Stuck
                       else case open_batch env (sb_BatchNumber lastStateBatch + 1) (sb_StateRoot lastStateBatch) f of
                         (r, f) \<Rightarrow> Ret (f\<lparr>pipBatch := None, sipBatch := None\<rparr>))
                    else
                      (case setWIPBatch (rlp_dec env) (\<lambda>n. no_error (GetBatchByNumber (state_batches f) n)) (constraints env) lastStateBatch of
                         None \<Rightarrow> Panic
                       | Some (Inl _) \<Rightarrow> Exit
                       | Some (Inr b) \<Rightarrow>
                           (case new_batch b f of
                              (r, f) \<Rightarrow> Ret (f\<lparr>wipBatch := Some r, pipBatch := Some r, sipBatch := Some r\<rparr>))))))"

definition processL2BlockReorg :: "nat \<Rightarrow> fin_env \<Rightarrow> finalizer \<Rightarrow> (finalizer \<times> block_error option) outcome" where
  "processL2BlockReorg n env f =
     bnd (waitPendingL2Blocks env f) (\<lambda>f.
     bnd (case sipBatch f of
            None \<Rightarrow> Ret (f, None)
          | Some s \<Rightarrow> bnd (wip f) (\<lambda>b.
              if batchNumber (store f s) \<noteq> batchNumber b then finalizeSIPBatch env f else Ret (f, None))) (\<lambda>(f, err).
       if err \<noteq> None then Ret (f, err)
       else
         bnd (of_option (RestoreTxsPendingToStore (wenv env) (stIntf env) (address_order env (worker f)) (worker f))) (\<lambda>r.
         bnd (initWIPBatch env (f\<lparr>worker := fst r\<rparr>)) (\<lambda>f.
         bnd (initWIPL2Block n env f) (\<lambda>f.
           Ret ((scheduleNextStateRootSync env f)\<lparr>l2BlockReorg := False\<rparr>, None))))))"

section \<open>The loop\<close>

text \<open>What an iteration does before it asks the worker for a transaction.\<close>

definition before_search :: "nat \<Rightarrow> fin_env \<Rightarrow> finalizer \<Rightarrow> finalizer outcome" where
  "before_search n env f =
     bnd (if l2BlockReorg f then bnd (processL2BlockReorg n env f) (\<lambda>(f, _). Ret f) else Ret f) (\<lambda>f.
       case wipL2Block f of
         None \<Rightarrow> Panic
       | Some l2 \<Rightarrow>
           (case tick env f of (now, f) \<Rightarrow>
              if createdAt l2 + L2BlockMaxDeltaTimestamp (cfg env) < now then finalizeWIPL2Block n env f else Ret f))"

text \<open>The result of each update of the pool overwrites the error of the search; it is none that the loop looks for.\<close>

fun drop_ooc :: "fin_env \<Rightarrow> TxTracker list \<Rightarrow> seq_error option \<Rightarrow> finalizer \<Rightarrow> (finalizer \<times> seq_error option) outcome" where
  "drop_ooc env [] err f = Ret (f, err)"
| "drop_ooc env (t # ts) err f =
     bnd (delete_tx env f t) (\<lambda>f. drop_ooc env ts None (fst (UpdateTxStatus env f (Hash t) TxStatusInvalid NodeOOC)))"

definition check_finalize :: "nat \<Rightarrow> fin_env \<Rightarrow> finalizer \<Rightarrow> finalizer outcome" where
  "check_finalize n env f =
     bnd (wip f) (\<lambda>b.
       case tick env f of (now1, f) \<Rightarrow> (case tick env f of (now2, f) \<Rightarrow>
         (case checkIfFinalizeBatch (cfg env) (constraints env) b (nextForcedBatchDeadline f) now1 now2 of
            (True, closeReason) \<Rightarrow> finalizeWIPBatch n env closeReason f
          | (False, _) \<Rightarrow> Ret f)))"

text \<open>The rest of the iteration; the argument is what \<open>GetBestFittingTx\<close> returned.\<close>

definition after_search :: "nat \<Rightarrow> fin_env \<Rightarrow> Worker \<times> TxTracker option \<times> TxTracker list \<times> seq_error option \<Rightarrow>
    finalizer \<Rightarrow> finalizer outcome" where
  "after_search n env best f =
     (case best of (w, tx, ooc, err) \<Rightarrow>
        bnd (drop_ooc env ooc err (f\<lparr>worker := w\<rparr>)) (\<lambda>(f, err).
          if err = Some ErrNoFittingTransaction then finalizeWIPBatch n env NoTxFitsClosingReason f
          else
            bnd (case tx of
                   None \<Rightarrow> Ret f
                 | Some t \<Rightarrow>
                     (case process_loop n env t f True of
                        None \<Rightarrow> Stuck
                      | Some out \<Rightarrow> bnd out (\<lambda>(_, f, _). Ret f)))
              (check_finalize n env)))"

inductive finalize_step :: "nat \<Rightarrow> nat \<Rightarrow> fin_env \<Rightarrow> finalizer \<Rightarrow> finalizer outcome \<Rightarrow> bool" for n nCPU env where
  stopped: "before_search n env f = out \<Longrightarrow> (\<nexists>g. out = Ret g) \<Longrightarrow> finalize_step n nCPU env f out"
| searched: "before_search n env f = Ret g \<Longrightarrow> wip g = Ret b \<Longrightarrow> wipL2Block g = Some l2 \<Longrightarrow>
     GetBestFittingTx nCPU (worker g) (imRemainingResources b) (imHighReservedZKCounters b)
       (countOfL2Blocks b = 0 \<and> l2_isEmpty l2) best \<Longrightarrow>
     finalize_step n nCPU env f (after_search n env best g)"
| no_batch: "before_search n env f = Ret g \<Longrightarrow> wipBatch g = None \<or> wipL2Block g = None \<Longrightarrow> finalize_step n nCPU env f Panic"

end
