(* ===== verification/L2BlocksProofs.thy ===== *)
theory L2BlocksProofs
  imports L2Blocks BatchCodecProofs
begin

text \<open>
  Proofs about the way of a block: what storing leaves alone, the chain of state roots through the
  blocks that are processed, the row that storing leaves in the table, and the size and the
  meaning of the data.
\<close>

section \<open>What storing leaves alone\<close>

text \<open>The worker stays well formed.\<close>

definition wf_kept :: "fin_env \<Rightarrow> finalizer \<Rightarrow> finalizer \<Rightarrow> bool" where
  "wf_kept env f f' \<longleftrightarrow> (\<forall>so. w_wf (wenv env) so (worker f) \<longrightarrow> w_wf (wenv env) so (worker f'))"

lemma wf_kept_same [simp]: "worker f' = worker f \<Longrightarrow> wf_kept env f f'"
  by (simp add: wf_kept_def)

lemma wf_kept_trans: "wf_kept env f g \<Longrightarrow> wf_kept env g h \<Longrightarrow> wf_kept env f h"
  by (simp add: wf_kept_def)

lemma wf_keptD: "wf_kept env f f' \<Longrightarrow> w_wf (wenv env) so (worker f) \<Longrightarrow> w_wf (wenv env) so (worker f')"
  by (simp add: wf_kept_def)

lemma wf_kept_cong: "worker f' = worker g \<Longrightarrow> wf_kept env f f' = wf_kept env f g" "worker f' = worker g \<Longrightarrow> wf_kept env f' h = wf_kept env g h"
  by (simp_all add: wf_kept_def)

definition kept :: "fin_env \<Rightarrow> finalizer \<Rightarrow> finalizer \<Rightarrow> bool" where
  "kept env f f' \<longleftrightarrow> store f' = store f \<and> pipBatch f' = pipBatch f \<and> wipBatch f' = wipBatch f \<and> wipL2Block f' = wipL2Block f \<and>
     nextForcedBatches f' = nextForcedBatches f \<and> pendingL2BlocksToProcess f' = pendingL2BlocksToProcess f \<and>
     l2BlockReorg f' = l2BlockReorg f \<and> lastL2BlockWasReorg f' = lastL2BlockWasReorg f \<and>
     lastL1InfoTreeValid f' = lastL1InfoTreeValid f \<and> next_ref f' = next_ref f \<and>
     wf_kept env f f'"

lemma kept_refl [simp]: "kept env f f"
  by (simp add: kept_def)

lemma kept_trans: "kept env f g \<Longrightarrow> kept env g h \<Longrightarrow> kept env f h"
  by (auto simp: kept_def intro: wf_kept_trans)

lemma kept_simps [simp]:
  "kept env f (g\<lparr>state_batches := t\<rparr>) = kept env f g" "kept env f (g\<lparr>exec_calls := n\<rparr>) = kept env f g"
  "kept env f (g\<lparr>stored_blocks := bs\<rparr>) = kept env f g" "kept env f (g\<lparr>sipBatch := sip\<rparr>) = kept env f g" "kept env f (g\<lparr>ticks := n\<rparr>) = kept env f g"
  "kept env f (g\<lparr>db_calls := n\<rparr>) = kept env f g" "kept env f (rollback tb sb g) = kept env f g" "kept env f (g\<lparr>storedFlushID := v\<rparr>) = kept env f g"
  "kept env f (updateFlushIDs i j g) = kept env f g" "kept env f (g\<lparr>pendingL2BlocksToStore := ps\<rparr>) = kept env f g"
  "kept env f (fst (UpdateTxStatus env' g h s y)) = kept env f g"
  by (simp_all add: kept_def rollback_def updateFlushIDs_def UpdateTxStatus_def wf_kept_def)

lemma reprocessError_Ret: "reprocessError env b (Ret x) = Ret y \<longleftrightarrow> y = x \<and> (\<exists>r e. b = Some r \<and> DecodeBatchV2 (rlp_dec env) (sb_BatchL2Data r) = Some (Inl e))"
  by (auto simp: reprocessError_def split: option.splits sum.splits)

lemma sanity_kept: "batchSanityCheck env f n i x = Ret (f', e) \<Longrightarrow> kept env f f'"
  by (auto simp: batchSanityCheck_def db_def tick_def Let_def reprocessError_Ret elim!: bnd_RetE split: option.splits sum.splits)

lemma closeSIP_kept:
  assumes "closeSIPBatch env f = Ret (f', e)" shows "kept env f f'"
proof -
  obtain r where r: "sipBatch f = Some r" using assms by (cases "sipBatch f") (auto simp: closeSIPBatch_def)
  show ?thesis
  proof (cases "db_fails env (db_calls f)")
    case None
    let ?g = "f\<lparr>db_calls := Suc (db_calls f), state_batches := CloseWIPBatch (closing_receipt env (store f r)) (state_batches f)\<rparr>"
    obtain h x where h: "batchSanityCheck env ?g (batchNumber (store f r)) (initialStateRoot (store f r)) (finalStateRoot (store f r)) = Ret (h, x)"
      "f' = h\<lparr>sipBatch := None\<rparr>"
      using assms r None by (auto simp: closeSIPBatch_def db_def bnd_Ret_iff Let_def split: if_splits)
    have "kept env f ?g" by simp
    then have "kept env f h" using sanity_kept [OF h(1)] by (rule kept_trans)
    then show ?thesis using h(2) by simp
  qed (use assms r in \<open>auto simp: closeSIPBatch_def db_def Let_def split: if_splits\<close>)
qed

lemma insertSIP_kept: "insertSIPBatch env f n r = Ret (f', e) \<Longrightarrow> kept env f f'"
  by (auto simp: insertSIPBatch_def db_def tick_def split: option.splits sum.splits elim!: bnd_RetE wait_synced_Ret)

lemma switch_sip_kept:
  assumes "switch_sip env f r = Ret (f', e)" shows "kept env f f'"
proof (cases "sipBatch f")
  case None
  then show ?thesis using assms insertSIP_kept by (fastforce simp: switch_sip_def bnd_Ret_iff Let_def split: if_splits)
next
  case (Some s)
  show ?thesis
  proof (cases "batchNumber (store f s) = batchNumber (store f r)")
    case False
    then obtain g x where g: "closeSIPBatch env f = Ret (g, x)" and k: "(if x \<noteq> None then Ret (g, x)
        else bnd (insertSIPBatch env g (batchNumber (store f r)) (initialStateRoot (store f r))) (\<lambda>(f, err).
          Ret (if err = None then (f\<lparr>sipBatch := Some r\<rparr>, None) else (f, err)))) = Ret (f', e)"
      using assms Some by (auto simp: switch_sip_def bnd_Ret_iff Let_def)
    show ?thesis using k closeSIP_kept [OF g] insertSIP_kept kept_trans
      by (fastforce simp: bnd_Ret_iff split: if_splits)
  qed (use assms Some in \<open>auto simp: switch_sip_def\<close>)
qed

lemma store_rows_kept: "store_rows env f b l2 resp blk = Ret (f', e) \<Longrightarrow> kept env f f'"
  by (auto simp: store_rows_def db_def Let_def elim!: bnd_RetE split: option.splits sum.splits)

lemma select_txs_kept: "select_txs env rs f = (f', e) \<Longrightarrow> kept env f f'"
proof (induction rs arbitrary: f)
  case (Cons r rs)
  let ?g = "fst (UpdateTxStatus env f (tr_TxHash r) TxStatusSelected NoReason)"
  have g: "kept env f ?g" by simp
  show ?case using Cons kept_trans [OF g] g
    by (auto simp: UpdateTxStatus_def split: option.splits)
qed simp

lemma delete_pending_kept: "delete_pending env ts f = Ret f' \<Longrightarrow> kept env f f'"
proof (induction ts arbitrary: f)
  case (Cons t ts)
  then obtain w where w: "DeleteTxPendingToStore (wenv env) (worker f) (Hash t) (From t) = Some w"
    and d: "delete_pending env ts (f\<lparr>worker := w\<rparr>) = Ret f'" by (auto simp: bnd_Ret_iff)
  have "kept env f (f\<lparr>worker := w\<rparr>)" using DeleteTxPendingToStore_keeps w by (auto simp: kept_def wf_kept_def)
  then show ?case using Cons.IH [OF d] by (rule kept_trans)
qed simp

lemma select_txs_db: "select_txs env rs f = (f', e) \<Longrightarrow> state_batches f' = state_batches f \<and> sipBatch f' = sipBatch f \<and> worker f' = worker f"
  by (induction rs arbitrary: f) (auto simp: UpdateTxStatus_def split: option.splits)

lemma delete_pending_db: "delete_pending env ts f = Ret f' \<Longrightarrow> state_batches f' = state_batches f \<and> sipBatch f' = sipBatch f"
proof (induction ts arbitrary: f)
  case (Cons t ts)
  then obtain w where "delete_pending env ts (f\<lparr>worker := w\<rparr>) = Ret f'" by (auto elim!: bnd_RetE)
  then show ?case using Cons.IH by fastforce
qed simp

text \<open>The parts of a successful store.\<close>

lemma store_in_tx_cases:
  assumes "store_in_tx env f r l2 resp blk = Ret (f', e)"
  obtains (failed) "e \<noteq> None" "kept env f f'"
  | (ok) g h where "e = None" "switch_sip env f r = Ret (g, None)" "store_rows env g (store g r) l2 resp blk = Ret (h, None)"
      "kept env f f'" "state_batches f' = state_batches h" "sipBatch f' = sipBatch h" "worker f' = worker h"
proof -
  obtain g e1 where g: "switch_sip env f r = Ret (g, e1)"
    and c: "(if e1 \<noteq> None then Ret (g, e1) else bnd (store_rows env g (store g r) l2 resp blk) (\<lambda>(f, err).
         if err \<noteq> None then Ret (f, err) else (case db env f of (failure, f) \<Rightarrow> Ret (f, map_option BlkDb failure)))) = Ret (f', e)"
    using assms unfolding store_in_tx_def by (auto elim!: bnd_RetE)
  note kg = switch_sip_kept [OF g]
  show ?thesis
  proof (cases e1)
    case None
    obtain h e2 where h: "store_rows env g (store g r) l2 resp blk = Ret (h, e2)"
      and d: "(if e2 \<noteq> None then Ret (h, e2) else (case db env h of (failure, f) \<Rightarrow> Ret (f, map_option BlkDb failure))) = Ret (f', e)"
      using c None by (auto elim!: bnd_RetE)
    have kh: "kept env f h" using store_rows_kept [OF h] kg kept_trans by blast
    show ?thesis using d g h None kh ok failed by (cases "db_fails env (db_calls h)"; cases e2) (auto simp: db_def)
  qed (use c kg failed in auto)
qed

lemma after_store_kept:
  assumes "after_store env l2 blk f = Ret (f', e)"
  shows "kept env f f' \<and> state_batches f' = state_batches f \<and> sipBatch f' = sipBatch f"
proof -
  obtain g x where g: "select_txs env (TransactionResponses blk) f = (g, x)" by fastforce
  note s = select_txs_kept [OF g] select_txs_db [OF g]
  show ?thesis
  proof (cases x)
    case None
    then have d: "delete_pending env (transactions l2) g = Ret f'" using assms g by (auto simp: after_store_def elim!: bnd_RetE)
    show ?thesis using delete_pending_kept [OF d] delete_pending_db [OF d] s kept_trans by auto
  qed (use assms g s in \<open>auto simp: after_store_def\<close>)
qed

lemma storeL2Block_cases:
  assumes "storeL2Block env f l2 = Ret (f', e)"
  obtains (failed) "e \<noteq> None" "kept env f f'"
  | (ok) resp r blk bs f0 g h where "e = None" "batchResponse l2 = Some resp" "l2_batch l2 = Some r" "BlockResponses resp = blk # bs"
      "kept env f f0" "state_batches f0 = state_batches f" "sipBatch f0 = sipBatch f"
      "switch_sip env f0 r = Ret (g, None)" "store_rows env g (store g r) l2 resp blk = Ret (h, None)"
      "kept env f f'" "state_batches f' = state_batches h" "sipBatch f' = sipBatch h"
proof -
  obtain resp r where r: "batchResponse l2 = Some resp" "l2_batch l2 = Some r"
    using assms by (auto simp: storeL2Block_def split: option.splits)
  obtain blk bs where b: "BlockResponses resp = blk # bs" using assms r by (cases "BlockResponses resp") (auto simp: storeL2Block_def)
  obtain w where w: "wait_flush env (FlushID resp) f = Ret w" using assms r b by (auto simp: storeL2Block_def elim: bnd_RetE)
  obtain x f0 where d: "db env w = (x, f0)" by fastforce
  have f0: "kept env f f0" "state_batches f0 = state_batches f" "sipBatch f0 = sipBatch f"
    using d w by (auto simp: db_def elim!: wait_flush_Ret)
  show ?thesis
  proof (cases x)
    case (Some y)
    then show ?thesis using assms r b w d f0 failed by (auto simp: storeL2Block_def)
  next
    case None
    obtain k e1 where k: "store_in_tx env f0 r l2 resp blk = Ret (k, e1)"
      and c: "(if e1 \<noteq> None then Ret (rollback (state_batches f0) (stored_blocks f0) k, e1) else after_store env l2 blk k) = Ret (f', e)"
      using assms r b w d None by (auto simp: storeL2Block_def elim!: bnd_RetE)
    from k show ?thesis
    proof (cases rule: store_in_tx_cases)
      case fail: failed
      then show ?thesis using c f0 failed kept_trans by auto
    next
      case (ok g h)
      then have a: "after_store env l2 blk k = Ret (f', e)" using c by simp
      have kk: "kept env f f'" "state_batches f' = state_batches h" "sipBatch f' = sipBatch h"
        using after_store_kept [OF a] ok f0(1) kept_trans by auto
      show ?thesis
      proof (cases e)
        case (Some y) then show ?thesis using failed kk by simp
      next
        case ne: None
        show ?thesis by (rule that(2) [OF ne r b f0 ok(2,3) kk])
      qed
    qed
  qed
qed

lemma storeL2Block_kept: "storeL2Block env f l2 = Ret (f', e) \<Longrightarrow> kept env f f'"
  by (erule storeL2Block_cases) auto

lemma store_all_kept: "store_all env bs f = Ret f' \<Longrightarrow> kept env f f'"
proof (induction bs arbitrary: f)
  case (Cons b bs)
  then obtain g e where "storeL2Block env f b = Ret (g, e)" "(if e = None then store_all env bs g else Exit) = Ret f'"
    by (auto elim!: bnd_RetE)
  then have "kept env f g" "store_all env bs g = Ret f'" using storeL2Block_kept by (auto split: if_splits)
  then show ?case using Cons.IH kept_trans by blast
qed simp

lemma store_pending_kept:
  assumes "store_pending env f = Ret f'" shows "kept env f f'"
  using store_all_kept [OF assms [unfolded store_pending_def]] by (rule kept_trans [rotated]) simp


section \<open>The chain of state roots\<close>

lemma next_pip_root:
  assumes "next_pip l2 f = Ret g" and "pipBatch f = Some p" and "l2_batch l2 = Some r"
    and "batchNumber (store f p) = batchNumber (store f r) \<Longrightarrow> p = r"
  shows "pipBatch g = Some r \<and> finalStateRoot (store g r) = finalStateRoot (store f p) \<and> (\<forall>s. s \<noteq> r \<longrightarrow> store g s = store f s) \<and>
    batchNumber (store g r) = batchNumber (store f r) \<and> finalRemainingResources (store g r) = finalRemainingResources (store f r) \<and>
    exec_calls g = exec_calls f \<and> l2BlockReorg g = l2BlockReorg f \<and> lastL2BlockWasReorg g = lastL2BlockWasReorg f"
  using assms by (auto simp: next_pip_def set_batch_def Let_def split: if_splits)

text \<open>What a successful execution of a block means.\<close>

definition executed :: "fin_env \<Rightarrow> L2Block \<Rightarrow> hash \<Rightarrow> ProcessBatchResponse \<Rightarrow> bool" where
  "executed env l2 old resp \<longleftrightarrow> (\<exists>n b d. txs_data (transactions l2) = Some d \<and>
     ProcessBatchV2 env n (block_request env b l2 old (BuildChangeL2Block (deltaTimestamp l2) (getL1InfoTreeIndex l2) @ d)) = Inr resp \<and>
     pr_ExecutorError resp = None \<and> \<not> IsRomOOCError resp)"

lemma executeL2Block_ok:
  assumes "executeL2Block env f old l2 = Ret (g, Inr (resp, n))"
  shows "executed env l2 old resp \<and> g = f\<lparr>exec_calls := exec_calls f + 1\<rparr> \<and>
    (\<exists>d. txs_data (transactions l2) = Some d \<and> n = word_of_nat (length (BuildChangeL2Block (deltaTimestamp l2) (getL1InfoTreeIndex l2) @ d)))"
  using assms
  by (auto simp: executeL2Block_def executed_def Let_def split: option.splits sum.splits if_splits)

text \<open>What processing a block does to its batch.\<close>

definition block_done :: "fin_env \<Rightarrow> finalizer \<Rightarrow> finalizer \<Rightarrow> L2Block \<Rightarrow> L2Block \<Rightarrow> hash \<Rightarrow> batch_ref \<Rightarrow> ProcessBatchResponse \<Rightarrow> bool" where
  "block_done env f f' l2 l2' old r resp \<longleftrightarrow> executed env l2 old resp \<and> check_response l2 resp = None \<and>
     pipBatch f' = Some r \<and> finalStateRoot (store f' r) = NewStateRoot resp \<and> (\<forall>s. s \<noteq> r \<longrightarrow> store f' s = store f s) \<and>
     batchNumber (store f' r) = batchNumber (store f r) \<and> l2BlockReorg f' = l2BlockReorg f \<and>
     lastL2BlockWasReorg f' = lastL2BlockWasReorg f \<and> batchResponse l2' = Some resp \<and> l2_batch l2' = Some r \<and>
     (\<exists>d used. txs_data (transactions l2) = Some d \<and>
       used = \<lparr>br_ZKCounters = pr_UsedZkCounters resp,
         br_Bytes = word_of_nat (length (BuildChangeL2Block (deltaTimestamp l2) (getL1InfoTreeIndex l2) @ d))\<rparr> \<and>
       br_le used (finalRemainingResources (store f r)) \<and>
       finalRemainingResources (store f' r) = fst (br_Sub (finalRemainingResources (store f r)) used))"

lemma processL2Block_ok:
  assumes p: "processL2Block env f l2 = Ret (f', l2', None)" and pip: "pipBatch f = Some p" and r: "l2_batch l2 = Some r"
    and same: "batchNumber (store f p) = batchNumber (store f r) \<Longrightarrow> p = r"
  shows "\<exists>resp. block_done env f f' l2 l2' (finalStateRoot (store f p)) r resp"
proof -
  obtain g where g: "next_pip l2 f = Ret g" using p by (auto simp: processL2Block_def elim!: bnd_RetE)
  note np = next_pip_root [OF g pip r same]
  obtain h res where h: "executeL2Block env g (finalStateRoot (store f p)) l2 = Ret (h, res)"
    using p g np by (auto simp: processL2Block_def elim!: bnd_RetE)
  obtain resp n where res: "res = Inr (resp, n)" using p g np h by (cases res) (auto simp: processL2Block_def)
  have ck: "check_response l2 resp = None" using p g np h res by (cases "check_response l2 resp") (auto simp: processL2Block_def)
  note ex = executeL2Block_ok [OF h [unfolded res]]
  have hb: "store h = store g" "pipBatch h = pipBatch g" "l2BlockReorg h = l2BlockReorg g" "lastL2BlockWasReorg h = lastL2BlockWasReorg g"
    using ex by auto
  obtain fits ov rem high where rs: "reserve (finalRemainingResources (store h r)) (finalHighReservedZKCounters (store h r))
      (pr_UsedZkCounters resp) (pr_ReservedZkCounters resp) n = (fits, ov, rem, high)"
    by (cases "reserve (finalRemainingResources (store h r)) (finalHighReservedZKCounters (store h r))
      (pr_UsedZkCounters resp) (pr_ReservedZkCounters resp) n")
  have fit: "fits" "\<not> ov" using p g np h res ck r rs by (auto simp: processL2Block_def accept_block_def Let_def split: if_splits)
  let ?b = "(store h r)\<lparr>finalRemainingResources := rem, finalHighReservedZKCounters := high,
      finalStateRoot := NewStateRoot resp, finalLocalExitRoot := NewLocalExitRoot resp\<rparr>"
  obtain k where k: "store_pending env (updateFlushIDs (FlushID resp) (StoredFlushID resp) (set_batch r ?b h)) = Ret k"
    and f': "f' = k\<lparr>pendingL2BlocksToStore := pendingL2BlocksToStore k @ [l2']\<rparr>"
    and l2': "l2' = l2\<lparr>batchResponse := Some resp, highReservedZKCounters := high\<rparr>"
    using p g np h res ck r rs fit by (auto simp: processL2Block_def accept_block_def Let_def elim!: bnd_RetE)
  have kk: "store k = (store h)(r := ?b)" "pipBatch k = pipBatch h" "l2BlockReorg k = l2BlockReorg h" "lastL2BlockWasReorg k = lastL2BlockWasReorg h"
    using store_pending_kept [OF k] by (simp_all add: kept_def updateFlushIDs_def set_batch_def)
  show ?thesis
    using ex ck np kk hb f' l2' r reserve_props(3) [OF rs fit]
    by (intro exI [of _ resp]) (auto simp: block_done_def)
qed

fun root_chain :: "fin_env \<Rightarrow> L2Block list \<Rightarrow> hash \<Rightarrow> hash \<Rightarrow> bool" where
  "root_chain env [] old new = (new = old)"
| "root_chain env (l2 # bs) old new =
     (\<exists>resp. executed env l2 old resp \<and> check_response l2 resp = None \<and> root_chain env bs (NewStateRoot resp) new)"

text \<open>Among the batches that are in use, the number identifies the batch.\<close>

definition refs_ok :: "finalizer \<Rightarrow> batch_ref set \<Rightarrow> bool" where
  "refs_ok f R \<longleftrightarrow> (\<forall>r \<in> R. \<forall>s \<in> R. batchNumber (store f r) = batchNumber (store f s) \<longrightarrow> r = s)"

definition block_refs :: "L2Block list \<Rightarrow> batch_ref set" where
  "block_refs bs = {r. \<exists>b \<in> set bs. l2_batch b = Some r}"

lemma process_all_reorg: "l2BlockReorg f \<Longrightarrow> process_all env bs f = Ret f"
  by (induction bs) auto

lemma process_all_chain:
  assumes "process_all env bs f = Ret f'" and "\<not> l2BlockReorg f'" and "pipBatch f = Some p"
    and "\<forall>b \<in> set bs. l2_batch b \<noteq> None" and "refs_ok f (insert p (block_refs bs))"
  shows "\<exists>q. pipBatch f' = Some q \<and> root_chain env bs (finalStateRoot (store f p)) (finalStateRoot (store f' q))"
  using assms
proof (induction bs arbitrary: f p)
  case (Cons l2 bs)
  have nr: "\<not> l2BlockReorg f" using process_all_reorg [of f env "l2 # bs"] Cons.prems(1,2) by auto
  obtain g l2' err where g: "processL2Block env f l2 = Ret (g, l2', err)"
    and c: "(if err = None then process_all env bs (g\<lparr>lastL2BlockWasReorg := False\<rparr>)
        else if l2_batch l2' = None then Panic else if lastL2BlockWasReorg g then Exit
        else process_all env bs (g\<lparr>l2BlockReorg := True, lastL2BlockWasReorg := True\<rparr>)) = Ret f'"
    using Cons.prems(1) nr by (auto elim!: bnd_RetE)
  have err: "err = None"
  proof (rule ccontr)
    assume "err \<noteq> None"
    then have "process_all env bs (g\<lparr>l2BlockReorg := True, lastL2BlockWasReorg := True\<rparr>) = Ret f'" using c by (auto split: if_splits)
    then show False using process_all_reorg [of "g\<lparr>l2BlockReorg := True, lastL2BlockWasReorg := True\<rparr>" env bs] Cons.prems(2) by auto
  qed
  obtain r where r: "l2_batch l2 = Some r" using Cons.prems(4) by auto
  have "batchNumber (store f p) = batchNumber (store f r) \<Longrightarrow> p = r"
    using Cons.prems(5) r by (auto simp: refs_ok_def block_refs_def)
  then obtain resp where d: "block_done env f g l2 l2' (finalStateRoot (store f p)) r resp"
    using processL2Block_ok [OF g [unfolded err] Cons.prems(3) r] by blast
  have num: "batchNumber (store g s) = batchNumber (store f s)" for s using d by (cases "s = r") (auto simp: block_done_def)
  have "block_refs (l2 # bs) = insert r (block_refs bs)" using r by (auto simp: block_refs_def)
  then have ro: "refs_ok g (insert r (block_refs bs))" using Cons.prems(5) num by (auto simp: refs_ok_def)
  have "process_all env bs (g\<lparr>lastL2BlockWasReorg := False\<rparr>) = Ret f'" using c err by simp
  moreover have "pipBatch (g\<lparr>lastL2BlockWasReorg := False\<rparr>) = Some r" using d by (simp add: block_done_def)
  moreover have "\<forall>b \<in> set bs. l2_batch b \<noteq> None" using Cons.prems(4) by simp
  moreover have "refs_ok (g\<lparr>lastL2BlockWasReorg := False\<rparr>) (insert r (block_refs bs))" using ro by (simp add: refs_ok_def)
  ultimately obtain q where q: "pipBatch f' = Some q"
    "root_chain env bs (finalStateRoot (store (g\<lparr>lastL2BlockWasReorg := False\<rparr>) r)) (finalStateRoot (store f' q))"
    using Cons.IH Cons.prems(2) by blast
  moreover have "executed env l2 (finalStateRoot (store f p)) resp" "check_response l2 resp = None"
    "finalStateRoot (store g r) = NewStateRoot resp" using d by (simp_all add: block_done_def)
  ultimately show ?case by auto
qed simp

section \<open>The row of the batch\<close>

lemma find_append_new:
  "find P rows = None \<Longrightarrow> P r \<Longrightarrow> find P (rows @ [r]) = Some r"
  by (induction rows) (auto split: if_splits)

lemma get_number: "GetBatchByNumber rows n = Inr r \<Longrightarrow> sb_BatchNumber r = n"
  by (auto simp: GetBatchByNumber_def find_Some_iff split: option.splits)

lemma insertSIP_row:
  assumes "insertSIPBatch env f n stRoot = Ret (f', None)"
  shows "\<exists>row. GetBatchByNumber (state_batches f') n = Inr row \<and> sb_BatchL2Data row = [] \<and> sb_Resources row = empty_resources \<and>
    sb_WIP row \<and> state_batches f' = state_batches f @ [row]"
proof -
  obtain b rows where o: "OpenWIPBatch b (state_batches f) = Inr rows" and f': "state_batches f' = rows"
    and b: "sb_BatchNumber b = n" "sb_BatchL2Data b = []" "sb_Resources b = empty_resources"
    using assms by (auto simp: insertSIPBatch_def db_def tick_def split: option.splits sum.splits elim!: bnd_RetE wait_synced_Ret)
  let ?row = "b\<lparr>sb_AccInputHash := 0, sb_HighReservedZKCounters := zero_counters,
       sb_ClosingReason := EmptyClosingReason, sb_WIP := True, sb_Checked := False\<rparr>"
  have "insert_row ?row (state_batches f) = Inr rows"
    using o by (auto simp: OpenWIPBatch_def OpenWIPBatchInStorage_def split: option.splits)
  then have rows: "rows = state_batches f @ [?row]" "find (\<lambda>x. sb_BatchNumber x = n) (state_batches f) = None"
    using b(1) by (auto simp: insert_row_def split: if_splits)
  then have "GetBatchByNumber (state_batches f') n = Inr ?row"
    using find_append_new [OF rows(2), of ?row] b f' by (simp add: GetBatchByNumber_def)
  then show ?thesis using b f' rows by auto
qed

text \<open>The row to which a block is added: the one of the open batch, or a new one.\<close>

definition open_row :: "finalizer \<Rightarrow> batch_ref \<Rightarrow> StateBatch \<Rightarrow> bool" where
  "open_row f r row \<longleftrightarrow>
     (case sipBatch f of
        Some s \<Rightarrow> if batchNumber (store f s) = batchNumber (store f r)
          then GetBatchByNumber (state_batches f) (batchNumber (store f r)) = Inr row
          else sb_BatchL2Data row = [] \<and> sb_Resources row = empty_resources
      | None \<Rightarrow> sb_BatchL2Data row = [] \<and> sb_Resources row = empty_resources)"

lemma switch_sip_row:
  assumes "switch_sip env f r = Ret (g, None)" and "GetBatchByNumber (state_batches g) (batchNumber (store f r)) = Inr row"
  shows "open_row f r row"
proof (cases "sipBatch f")
  case None
  then obtain h where "insertSIPBatch env f (batchNumber (store f r)) (initialStateRoot (store f r)) = Ret (h, None)"
    "g = h\<lparr>sipBatch := Some r\<rparr>" using assms(1) by (auto simp: switch_sip_def Let_def elim!: bnd_RetE split: if_splits)
  then show ?thesis using insertSIP_row assms(2) None by (fastforce simp: open_row_def)
next
  case (Some s)
  show ?thesis
  proof (cases "batchNumber (store f s) = batchNumber (store f r)")
    case True
    then have "g = f" using assms(1) Some by (auto simp: switch_sip_def)
    then show ?thesis using assms(2) Some True by (simp add: open_row_def)
  next
    case False
    obtain k x where k: "closeSIPBatch env f = Ret (k, x)" and c: "(if x \<noteq> None then Ret (k, x)
        else bnd (insertSIPBatch env k (batchNumber (store f r)) (initialStateRoot (store f r))) (\<lambda>(f, err).
          Ret (if err = None then (f\<lparr>sipBatch := Some r\<rparr>, None) else (f, err)))) = Ret (g, None)"
      using assms(1) Some False by (auto simp: switch_sip_def Let_def elim!: bnd_RetE)
    then obtain h where "insertSIPBatch env k (batchNumber (store f r)) (initialStateRoot (store f r)) = Ret (h, None)"
      "g = h\<lparr>sipBatch := Some r\<rparr>" by (auto elim!: bnd_RetE split: if_splits)
    then show ?thesis using insertSIP_row assms(2) Some False by (fastforce simp: open_row_def)
  qed
qed

text \<open>The row after a block was added.\<close>

definition stored_row :: "StateBatch \<Rightarrow> L2Block \<Rightarrow> ProcessBatchResponse \<Rightarrow> ProcessBlockResponse \<Rightarrow> byte list \<Rightarrow> StateBatch" where
  "stored_row row l2 resp blk txs =
     (let d = BuildChangeL2Block (deltaTimestamp l2) (getL1InfoTreeIndex l2) @ txs
      in row\<lparr>sb_BatchL2Data := sb_BatchL2Data row @ d,
        sb_GlobalExitRoot := (if bl_GlobalExitRoot blk \<noteq> 0 then bl_GlobalExitRoot blk else sb_GlobalExitRoot row),
        sb_StateRoot := NewStateRoot resp, sb_LocalExitRoot := NewLocalExitRoot resp,
        sb_Resources := br_SumUp (sb_Resources row) \<lparr>br_ZKCounters = pr_UsedZkCounters resp, br_Bytes = word_of_nat (length d)\<rparr>,
        sb_HighReservedZKCounters := highReservedZKCounters l2\<rparr>)"

lemma store_rows_row:
  assumes "store_rows env g b l2 resp blk = Ret (h, None)"
  shows "\<exists>row txs. GetBatchByNumber (state_batches g) (batchNumber b) = Inr row \<and>
    responses_data env (GetForkIDByBatchNumber env (batchNumber b)) (TransactionResponses blk) = Ret (Inr txs) \<and>
    GetBatchByNumber (state_batches h) (batchNumber b) = Inr (stored_row row l2 resp blk txs)"
proof -
  obtain row txs where w: "GetBatchByNumber (state_batches g) (batchNumber b) = Inr row"
    "responses_data env (GetForkIDByBatchNumber env (batchNumber b)) (TransactionResponses blk) = Ret (Inr txs)"
    and h: "state_batches h = UpdateWIPBatch (store_receipt b l2 resp blk row (BuildChangeL2Block (deltaTimestamp l2) (getL1InfoTreeIndex l2) @ txs)) (state_batches g)"
    using assms by (auto simp: store_rows_def db_def Let_def elim!: bnd_RetE split: option.splits sum.splits)
  define rc where "rc = store_receipt b l2 resp blk row (BuildChangeL2Block (deltaTimestamp l2) (getL1InfoTreeIndex l2) @ txs)"
  define up where "up r = r\<lparr>sb_BatchL2Data := rc_BatchL2Data rc, sb_GlobalExitRoot := rc_GlobalExitRoot rc, sb_StateRoot := rc_StateRoot rc,
     sb_LocalExitRoot := rc_LocalExitRoot rc, sb_Resources := rc_BatchResources rc,
     sb_HighReservedZKCounters := rc_HighReservedZKCounters rc\<rparr>" for r :: StateBatch
  have u: "state_batches h = update_rows (batchNumber b) up (state_batches g)"
    unfolding h rc_def [symmetric] UpdateWIPBatch_def up_def [abs_def] by (simp add: rc_def store_receipt_def)
  have "up row = stored_row row l2 resp blk txs" by (simp add: up_def rc_def store_receipt_def stored_row_def Let_def)
  moreover have "sb_BatchNumber (up row) = batchNumber b" using get_number [OF w(1)] by (simp add: up_def)
  ultimately show ?thesis using w u get_after_update [OF w(1), of up] by auto
qed

lemma storeL2Block_row:
  assumes "storeL2Block env f l2 = Ret (f', None)"
  shows "\<exists>resp r blk bs row txs. batchResponse l2 = Some resp \<and> l2_batch l2 = Some r \<and> BlockResponses resp = blk # bs \<and>
    open_row f r row \<and>
    responses_data env (GetForkIDByBatchNumber env (batchNumber (store f r))) (TransactionResponses blk) = Ret (Inr txs) \<and>
    GetBatchByNumber (state_batches f') (batchNumber (store f r)) = Inr (stored_row row l2 resp blk txs)"
  using assms
proof (cases rule: storeL2Block_cases)
  case (ok resp r blk bs f0 g h)
  have st: "store f0 = store f" "store g = store f" using ok(5) switch_sip_kept [OF ok(8)] by (auto simp: kept_def)
  obtain row txs where w: "GetBatchByNumber (state_batches g) (batchNumber (store f r)) = Inr row"
    "responses_data env (GetForkIDByBatchNumber env (batchNumber (store f r))) (TransactionResponses blk) = Ret (Inr txs)"
    "GetBatchByNumber (state_batches h) (batchNumber (store f r)) = Inr (stored_row row l2 resp blk txs)"
    using store_rows_row [OF ok(9)] st by auto
  have "open_row f0 r row" using switch_sip_row [OF ok(8)] w(1) st by simp
  then have "open_row f r row" unfolding open_row_def st(1) ok(6,7) .
  then show ?thesis using ok w by auto
qed simp

section \<open>The data of a block\<close>

lemma txs_data_eq: "txs_data ts = Some (concat (map (\<lambda>t. RawTx t @ [EGPPercentage t]) ts))"
  by (induction ts) simp_all

lemma change_length: "length (BuildChangeL2Block d i) = 9"
  by (simp add: BuildChangeL2Block_def serializeUint32_def)

lemma txs_data_length: "txs_data ts = Some d \<Longrightarrow> length d = sum_list (map (length \<circ> RawTx) ts) + length ts"
  by (induction ts arbitrary: d) (auto simp: txs_data_eq)

text \<open>The block that the data describe.\<close>

definition raw_tx :: "ProcessTransactionResponse \<Rightarrow> L2TxRaw" where
  "raw_tx r = \<lparr>Tx = tr_Tx r, EfficiencyPercentage = ucast (tr_EffectivePercentage r)\<rparr>"

definition raw_block :: "L2Block \<Rightarrow> ProcessBlockResponse \<Rightarrow> L2BlockRaw" where
  "raw_block l2 blk = \<lparr>DeltaTimestamp = deltaTimestamp l2, IndexL1InfoTree = getL1InfoTreeIndex l2,
     Transactions = map raw_tx (TransactionResponses blk)\<rparr>"

lemma responses_bytes:
  assumes "responses_data env forkID rs = Ret (Inr d)" and "forkID \<ge> FORKID_DRAGONFRUIT"
  shows "tx_bytes (rlp_enc env) (chain_id env) (map raw_tx rs) = Some d"
  using assms(1)
proof (induction rs arbitrary: d)
  case (Cons r rs)
  obtain x where x: "EncodeTransaction (rlp_enc env) (chain_id env) (tr_Tx r) (ucast (tr_EffectivePercentage r)) forkID = Some (Inr x)"
    using Cons.prems by (auto split: option.splits sum.splits)
  obtain y where y: "responses_data env forkID rs = Ret (Inr y)" "d = x @ y"
    using Cons.prems x by (auto elim!: bnd_RetE split: sum.splits)
  obtain b where b: "prepareRPLTxData (rlp_enc env) (chain_id env) (tr_Tx r) = Inr b" "x = b @ [ucast (tr_EffectivePercentage r)]"
    using x assms(2) by (auto simp: EncodeTransaction_def EncodeTransactions_def split: sum.splits)
  then show ?case using Cons.IH [OF y(1)] y(2) by (simp add: raw_tx_def)
qed simp

lemma block_bytes_append:
  assumes "block_bytes enc cid bs = Some x" and "tx_bytes enc cid (Transactions b) = Some y"
  shows "block_bytes enc cid (bs @ [b]) = Some (x @ BuildChangeL2Block (DeltaTimestamp b) (IndexL1InfoTree b) @ y)"
  using assms(1)
proof (induction bs arbitrary: x)
  case Nil
  then show ?case using assms(2) by (simp add: EncodeBlockHeaderV2_def BuildChangeL2Block_def changeL2Block_def)
next
  case (Cons c bs)
  then show ?case by (auto split: option.splits)
qed

lemma stored_row_decodes:
  assumes rlp: "rlp_ok (rlp_enc env) (rlp_dec env)" "chain_ok (chain_id env)"
    and d: "responses_data env forkID (TransactionResponses blk) = Ret (Inr txs)" "forkID \<ge> FORKID_DRAGONFRUIT"
    and old: "block_bytes (rlp_enc env) (chain_id env) blocks = Some (sb_BatchL2Data row)"
    and ok: "list_all block_ok (blocks @ [raw_block l2 blk])"
    and new_def: "new = sb_BatchL2Data (stored_row row l2 resp blk txs)"
  shows "block_bytes (rlp_enc env) (chain_id env) (blocks @ [raw_block l2 blk]) = Some new"
    and "length new < 2 ^ 63 \<Longrightarrow> DecodeBatchV2 (rlp_dec env) new = Some (Inr (blocks @ [raw_block l2 blk]))"
proof -
  show b: "block_bytes (rlp_enc env) (chain_id env) (blocks @ [raw_block l2 blk]) = Some new"
    using block_bytes_append [OF old, of "raw_block l2 blk" txs] responses_bytes [OF d]
    by (simp add: raw_block_def new_def stored_row_def Let_def)
  show "DecodeBatchV2 (rlp_dec env) new = Some (Inr (blocks @ [raw_block l2 blk]))" if "length new < 2 ^ 63"
    using decode_loop_blocks [OF rlp _ ok b, of "[]" "[]" None] that by (simp add: DecodeBatchV2_def)
qed

end
