(* ===== verification/LifecycleFrames.thy ===== *)
theory LifecycleFrames
  imports BatchLifecycle L2BlocksProofs
begin

text \<open>
  Rules for outcomes, and the frames of the operations below the loop of the finalizer: what
  closing a block and processing forced batches leave alone.
\<close>

section \<open>Rules for outcomes\<close>

text \<open>What holds of the value when a call returns.\<close>

definition rets :: "('a \<Rightarrow> bool) \<Rightarrow> 'a outcome \<Rightarrow> bool" where
  "rets P m \<longleftrightarrow> (\<forall>a. m = Ret a \<longrightarrow> P a)"

lemma rets_simps [simp]: "rets P (Ret a) = P a" "rets P Exit" "rets P Panic" "rets P Stuck"
  by (simp_all add: rets_def)

lemma rets_bnd [simp]: "rets P (bnd m k) \<longleftrightarrow> rets (\<lambda>a. rets P (k a)) m"
  by (auto simp: rets_def elim!: bnd_RetE intro: bnd.simps(1))

lemma retsI: "(\<And>a. m = Ret a \<Longrightarrow> P a) \<Longrightarrow> rets P m"
  by (simp add: rets_def)

lemma retsD: "rets P m \<Longrightarrow> m = Ret a \<Longrightarrow> P a"
  by (simp add: rets_def)

lemma rets_mono: "rets P m \<Longrightarrow> (\<And>a. m = Ret a \<Longrightarrow> P a \<Longrightarrow> Q a) \<Longrightarrow> rets Q m"
  by (simp add: rets_def)

lemma rets_all: "(\<And>a. P a) \<Longrightarrow> rets P m"
  by (simp add: rets_def)

text \<open>A call that comes to an end.\<close>

definition ends :: "'a outcome \<Rightarrow> bool" where
  "ends m \<longleftrightarrow> m \<noteq> Stuck"

lemma ends_simps [simp]: "ends (Ret a)" "ends Exit" "ends Panic" "\<not> ends Stuck" "ends (of_option x)"
  by (simp_all add: ends_def)

lemma ends_bnd [simp]: "ends (bnd m k) \<longleftrightarrow> ends m \<and> rets (\<lambda>a. ends (k a)) m"
  by (auto simp: ends_def rets_def bnd_Stuck)

lemma wip_ends [simp]: "ends (wip f)" "ends (set_wip b f)"
  by (simp_all add: wip_def set_wip_def split: option.split)

section \<open>What is carried over when a block is closed\<close>

definition carried :: "fin_env \<Rightarrow> finalizer \<Rightarrow> finalizer \<Rightarrow> bool" where
  "carried env f f' \<longleftrightarrow> nextForcedBatches f' = nextForcedBatches f \<and> wipBatch f' = wipBatch f \<and>
     (\<forall>r. batchNumber (store f' r) = batchNumber (store f r)) \<and> (\<forall>r. countOfL2Blocks (store f' r) = countOfL2Blocks (store f r)) \<and>
     (\<forall>r. closingReason (store f' r) = closingReason (store f r)) \<and>
     lastL1InfoTreeValid f' = lastL1InfoTreeValid f \<and> next_ref f' = next_ref f \<and> wf_kept env f f'"

lemma carried_refl [simp]: "carried env f f"
  by (simp add: carried_def)

lemma carried_trans: "carried env f g \<Longrightarrow> carried env g h \<Longrightarrow> carried env f h"
  by (auto simp: carried_def intro: wf_kept_trans)

lemma kept_carried: "kept env f f' \<Longrightarrow> carried env f f'"
  by (simp add: kept_def carried_def)

lemma carried_simps [simp]:
  "carried env f (g\<lparr>exec_calls := n\<rparr>) = carried env f g" "carried env f (g\<lparr>ticks := n\<rparr>) = carried env f g"
  "carried env f (g\<lparr>db_calls := n\<rparr>) = carried env f g" "carried env f (g\<lparr>pipBatch := p\<rparr>) = carried env f g"
  "carried env f (g\<lparr>sipBatch := p\<rparr>) = carried env f g" "carried env f (g\<lparr>wipL2Block := b\<rparr>) = carried env f g"
  "carried env f (g\<lparr>pendingL2BlocksToStore := bs\<rparr>) = carried env f g"
  "carried env f (g\<lparr>pendingL2BlocksToProcess := bs\<rparr>) = carried env f g"
  "carried env f (g\<lparr>l2BlockReorg := x\<rparr>) = carried env f g" "carried env f (g\<lparr>lastL2BlockWasReorg := x\<rparr>) = carried env f g"
  "carried env f (g\<lparr>nextStateRootSync := t\<rparr>) = carried env f g" "carried env f (g\<lparr>state_batches := tb\<rparr>) = carried env f g"
  "carried env f (updateFlushIDs i j g) = carried env f g" "carried env f (g\<lparr>storedFlushID := v\<rparr>) = carried env f g"
  "carried env f (scheduleNextStateRootSync env' g) = carried env f g"
  by (simp_all add: carried_def updateFlushIDs_def scheduleNextStateRootSync_def tick_def wf_kept_def)

lemma carried_set_batch:
  "carried env f g \<Longrightarrow> batchNumber b = batchNumber (store g r) \<Longrightarrow> countOfL2Blocks b = countOfL2Blocks (store g r) \<Longrightarrow>
   closingReason b = closingReason (store g r) \<Longrightarrow> carried env f (set_batch r b g)"
  by (auto simp: carried_def set_batch_def wf_kept_def)

lemma next_pip_carried: "rets (carried env f) (next_pip l2 f)"
  by (auto simp: next_pip_def Let_def intro!: carried_set_batch split: option.split)

lemma executeL2Block_carried: "rets (\<lambda>(g, _). carried env f g) (executeL2Block env f stRoot l2)"
  by (auto simp: executeL2Block_def Let_def split: option.split sum.split)

lemma store_pending_carried: "carried env f g \<Longrightarrow> rets (carried env f) (store_pending env g)"
  using store_pending_kept kept_carried carried_trans by (fastforce intro!: retsI)

lemma rets_chain: "rets (carried env g) m \<Longrightarrow> carried env f g \<Longrightarrow> rets (carried env f) m"
  by (auto elim!: rets_mono intro: carried_trans)

lemma rets_chain2: "rets (\<lambda>(h, _). carried env g h) m \<Longrightarrow> carried env f g \<Longrightarrow> rets (\<lambda>(h, _). carried env f h) m"
  by (auto elim!: rets_mono intro: carried_trans)

lemma rets_chain3: "rets (\<lambda>(h, _, _). carried env g h) m \<Longrightarrow> carried env f g \<Longrightarrow> rets (\<lambda>(h, _, _). carried env f h) m"
  by (auto elim!: rets_mono intro: carried_trans)

lemma accept_block_carried: "rets (\<lambda>(g, _, _). carried env f g) (accept_block env l2 resp n f)"
proof (cases "l2_batch l2")
  case (Some r)
  obtain fits ov rem high where rs: "reserve (finalRemainingResources (store f r)) (finalHighReservedZKCounters (store f r))
      (pr_UsedZkCounters resp) (pr_ReservedZkCounters resp) n = (fits, ov, rem, high)"
    by (cases "reserve (finalRemainingResources (store f r)) (finalHighReservedZKCounters (store f r))
      (pr_UsedZkCounters resp) (pr_ReservedZkCounters resp) n")
  let ?b = "(store f r)\<lparr>finalRemainingResources := rem, finalHighReservedZKCounters := high,
      finalStateRoot := NewStateRoot resp, finalLocalExitRoot := NewLocalExitRoot resp\<rparr>"
  have "carried env f (updateFlushIDs (FlushID resp) (StoredFlushID resp) (set_batch r ?b f))"
    using carried_set_batch [of env f f ?b r] by simp
  note store_pending_carried [OF this]
  then show ?thesis using Some rs by (auto simp: accept_block_def Let_def elim!: rets_mono)
qed (simp add: accept_block_def)

lemma processL2Block_carried: "rets (\<lambda>(g, _, _). carried env f g) (processL2Block env f l2)"
proof -
  have run: "rets (\<lambda>(h, _, _). carried env g h) (bnd (executeL2Block env g stRoot l2) (\<lambda>(f, res).
             case res of
               Inl e \<Rightarrow> Ret (f, l2, Some e)
             | Inr (resp, dataSize) \<Rightarrow>
                 (case check_response l2 resp of
                    Some e \<Rightarrow> Ret (f, l2, Some e)
                  | None \<Rightarrow> accept_block env l2 resp dataSize f)))" for g stRoot
    by (simp only: rets_bnd, intro rets_mono [OF executeL2Block_carried])
      (auto split: sum.split option.split intro: rets_chain3 [OF accept_block_carried])
  show ?thesis
    unfolding processL2Block_def
    by (subst rets_bnd, rule rets_mono [OF next_pip_carried [of env]])
      (auto simp del: rets_bnd split: option.split intro!: rets_chain3 [OF run])
qed

lemma process_all_carried: "rets (carried env f) (process_all env bs f)"
proof (induction bs arbitrary: f)
  case (Cons l2 bs)
  have go: "rets (carried env f) (process_all env bs h)" if "carried env f h" for h
    using rets_chain [OF Cons.IH that] .
  show ?case
    by (auto intro!: go rets_mono [OF processL2Block_carried])
qed simp

lemma process_pending_carried: "rets (carried env f) (process_pending env f)"
  unfolding process_pending_def by (rule rets_chain [OF process_all_carried]) simp

lemma waitPending_carried: "rets (carried env f) (waitPendingL2Blocks env f)"
  unfolding waitPendingL2Blocks_def
  by (simp only: rets_bnd, intro rets_mono [OF process_pending_carried]) (rule store_pending_carried)

lemma sync_root_carried: "rets (carried env f) (sync_root f)"
  by (auto simp: sync_root_def wip_def set_wip_def intro!: carried_set_batch split: option.split)

lemma sync_state_root_carried: "rets (carried env f) (sync_state_root env f)"
proof -
  have t: "carried env f (f\<lparr>ticks := n\<rparr>)" for n by simp
  show ?thesis
    by (auto simp: sync_state_root_def tick_def split: option.split
      intro!: rets_mono [OF rets_chain [OF waitPending_carried t]] rets_chain [OF sync_root_carried] rets_all [of _ "wip _"])
qed

text \<open>The block is gone, and its batch counts one more.\<close>

definition block_counted :: "fin_env \<Rightarrow> finalizer \<Rightarrow> finalizer \<Rightarrow> bool" where
  "block_counted env f f' \<longleftrightarrow> (\<exists>r. wipBatch f = Some r \<and>
     carried env (set_batch r ((store f r)\<lparr>countOfL2Blocks := countOfL2Blocks (store f r) + 1\<rparr>) f) f')"

lemma counted_carried: "block_counted env f g \<Longrightarrow> carried env g h \<Longrightarrow> block_counted env f h"
  using carried_trans by (auto simp: block_counted_def)

lemma counted_fields:
  assumes "block_counted env f g"
  shows "nextForcedBatches g = nextForcedBatches f" "wipBatch g = wipBatch f" "batchNumber (store g r) = batchNumber (store f r)"
    "lastL1InfoTreeValid g = lastL1InfoTreeValid f" "next_ref g = next_ref f" "closingReason (store g r) = closingReason (store f r)"
    "wf_kept env f g"
  using assms by (auto simp: block_counted_def carried_def set_batch_def wf_kept_def split: if_splits)

lemma closeWIPL2Block_closed: "rets (\<lambda>g. wipL2Block g = None \<and> block_counted env f g) (closeWIPL2Block env f)"
proof (cases "wipBatch f")
  case (Some r)
  let ?g = "set_batch r ((store f r)\<lparr>countOfL2Blocks := countOfL2Blocks (store f r) + 1\<rparr>) f"
  have seq: "rets (carried env ?g) (bnd (processL2Block env ?g l2) (\<lambda>(f, l2, err). if err \<noteq> None then Exit else sync_root f))" for l2
    by (simp only: rets_bnd, intro rets_mono [OF processL2Block_carried]) (auto intro: rets_chain [OF sync_root_carried])
  have par: "rets (carried env ?g) (bnd (process_pending env ?g) (\<lambda>f. if l2_batch l2 = None then Panic
      else sync_state_root env (f\<lparr>pendingL2BlocksToProcess := pendingL2BlocksToProcess f @ [l2]\<rparr>)))" for l2
    by (simp only: rets_bnd, intro rets_mono [OF process_pending_carried]) (auto intro: rets_chain [OF sync_state_root_carried])
  show ?thesis
    using Some seq par
    by (auto simp: closeWIPL2Block_def wip_def set_wip_def block_counted_def split: option.split elim!: rets_mono)
qed (auto simp: closeWIPL2Block_def wip_def split: option.split)

text \<open>A block without a batch cannot be closed.\<close>

lemma processL2Block_no_batch: "l2_batch l2 = None \<Longrightarrow> rets (\<lambda>_. False) (processL2Block env f l2)"
  by (auto simp: processL2Block_def next_pip_def split: option.split)

lemma closeWIPL2Block_no_batch:
  assumes "\<And>l2. wipL2Block f = Some l2 \<Longrightarrow> l2_batch l2 = None"
  shows "rets (\<lambda>_. False) (closeWIPL2Block env f)"
proof (cases "wipL2Block f")
  case (Some l2)
  have "rets P (processL2Block env g l2)" for P g
    using rets_mono [OF processL2Block_no_batch [OF assms [OF Some]]] by blast
  then show ?thesis
    using Some assms [OF Some] by (auto simp: closeWIPL2Block_def wip_def set_wip_def split: option.split intro: rets_all)
qed (simp add: closeWIPL2Block_def)

section \<open>What forced batches leave alone\<close>

definition fkept :: "fin_env \<Rightarrow> finalizer \<Rightarrow> finalizer \<Rightarrow> bool" where
  "fkept env f f' \<longleftrightarrow> store f' = store f \<and> wipBatch f' = wipBatch f \<and> wipL2Block f' = wipL2Block f \<and>
     lastL1InfoTreeValid f' = lastL1InfoTreeValid f \<and> next_ref f' = next_ref f \<and> wf_kept env f f'"

lemma fkept_refl [simp]: "fkept env f f"
  by (simp add: fkept_def)

lemma fkept_trans: "fkept env f g \<Longrightarrow> fkept env g h \<Longrightarrow> fkept env f h"
  by (auto simp: fkept_def intro: wf_kept_trans)

lemma fkept_simps [simp]:
  "fkept env f (g\<lparr>exec_calls := n\<rparr>) = fkept env f g" "fkept env f (g\<lparr>ticks := n\<rparr>) = fkept env f g"
  "fkept env f (g\<lparr>db_calls := n\<rparr>) = fkept env f g" "fkept env f (g\<lparr>stored_blocks := bs\<rparr>) = fkept env f g"
  "fkept env f (g\<lparr>state_batches := t\<rparr>) = fkept env f g" "fkept env f (g\<lparr>nextForcedBatches := fs\<rparr>) = fkept env f g"
  "fkept env f (g\<lparr>nextForcedBatchDeadline := d\<rparr>) = fkept env f g" "fkept env f (rollback tb sb g) = fkept env f g"
  "fkept env f (g\<lparr>storedFlushID := v\<rparr>) = fkept env f g" "fkept env f (updateFlushIDs i j g) = fkept env f g"
  by (simp_all add: fkept_def rollback_def updateFlushIDs_def wf_kept_def)

lemma fkept_chain: "rets (fkept env g) m \<Longrightarrow> fkept env f g \<Longrightarrow> rets (fkept env f) m"
  by (auto elim!: rets_mono intro: fkept_trans)

lemma fkept_chain2: "rets (\<lambda>x. fkept env g (fst x)) m \<Longrightarrow> fkept env f g \<Longrightarrow> rets (\<lambda>x. fkept env f (fst x)) m"
  by (auto elim!: rets_mono intro: fkept_trans)

lemma updateForced_kept: "rets (fkept env f) (updateWorkerAfterSuccessfulProcessing env f h a True resp)"
  using queue_sets_wf(2) by (auto simp: updateWorkerAfterSuccessfulProcessing_def fkept_def wf_kept_def)

lemma forced_txs_kept: "rets (fkept env f) (forced_txs env resp rs f)"
  by (induction rs arbitrary: f)
    (auto split: sum.split intro!: rets_mono [OF updateForced_kept] intro: fkept_chain)

lemma forced_blocks_kept: "rets (\<lambda>x. fkept env f (fst x)) (forced_blocks env n resp bs f)"
proof (induction bs arbitrary: f)
  case (Cons b bs)
  let ?g = "f\<lparr>db_calls := Suc (db_calls f), stored_blocks := stored_blocks f @ [(n, b)]\<rparr>"
  have "fkept env f ?g" by simp
  note h = rets_mono [OF fkept_chain [OF forced_txs_kept this]]
  show ?case
    by (auto simp: db_def split: option.split intro!: h intro: fkept_chain2 [OF Cons.IH])
qed simp

lemma addForced_kept: "fkept env f (addForcedTxToWorker env resp f)"
proof -
  have one: "fkept env f (add_forced_tx env r g)" if "fkept env f g" for g r
  proof -
    have "fkept env g (add_forced_tx env r g)"
      using queue_sets_wf(1) by (auto simp: add_forced_tx_def fkept_def wf_kept_def split: sum.split)
    then show ?thesis using that fkept_trans by blast
  qed
  have "fkept env f (fold (add_forced_tx env) rs g)" if "fkept env f g" for g rs
    using that by (induction rs arbitrary: g) (auto intro: one)
  then show ?thesis by (simp add: addForcedTxToWorker_def)
qed

lemma handleForced_kept: "rets (\<lambda>x. fkept env f (fst x)) (handleProcessForcedBatchResponse env n resp f)"
  unfolding handleProcessForcedBatchResponse_def rets_bnd
  by (rule retsI, rule fkept_chain2 [OF forced_blocks_kept]) (auto simp: addForced_kept elim!: wait_flush_Ret)

lemma forced_close_kept: "rets (\<lambda>x. fkept env f (fst x)) (forced_close env fb n resp f)"
proof -
  have "rets (\<lambda>x. fkept env f (fst x)) (handleProcessForcedBatchResponse env n resp (f\<lparr>db_calls := k, state_batches := rows\<rparr>))" for k rows
    by (rule fkept_chain2 [OF handleForced_kept]) simp
  note h = rets_mono [OF this]
  show ?thesis
    by (auto simp: forced_close_def db_def split: option.split sum.split intro!: h)
qed

lemma forced_body_kept: "rets (\<lambda>x. fkept env f (fst x)) (forced_body env fb parent n stRoot f)"
proof -
  have "rets (\<lambda>x. fkept env f (fst x)) (forced_close env fb m resp (f\<lparr>ticks := t, db_calls := k, state_batches := rows, exec_calls := j\<rparr>))"
    for t k rows j m resp
    by (rule fkept_chain2 [OF forced_close_kept]) simp
  note h = rets_mono [OF this]
  show ?thesis
    by (auto simp: forced_body_def db_def tick_def split: option.split sum.split intro!: h)
qed

lemma processForcedBatch_kept: "rets (\<lambda>x. fkept env f (fst x)) (processForcedBatch env f fb n stRoot)"
proof -
  have "rets (\<lambda>x. fkept env f (fst x)) (forced_body env fb parent n stRoot (f\<lparr>db_calls := k\<rparr>))" for k parent
    by (rule fkept_chain2 [OF forced_body_kept]) simp
  note h = rets_mono [OF this]
  show ?thesis
    by (auto simp: processForcedBatch_def db_def Let_def split: option.split sum.split intro!: h)
qed

lemma forced_loop_kept: "rets (\<lambda>x. fkept env f (fst x)) (forced_loop env fbs next n stRoot f)"
proof (induction fbs arbitrary: "next" n stRoot f)
  case (Cons fb fbs)
  show ?case
    by (auto split: sum.split intro!: rets_mono [OF processForcedBatch_kept] intro: Cons fkept_chain2 [OF Cons])
qed simp

lemma processForced_kept: "rets (\<lambda>x. fkept env f (fst x)) (processForcedBatches env f n stRoot)"
  by (auto simp: processForcedBatches_def db_def split: option.split intro!: fkept_chain2 [OF forced_loop_kept])

end
