(* ===== verification/LifecycleWaits.thy ===== *)
theory LifecycleWaits
  imports LifecycleFrames
begin

text \<open>
  The waits of the finalizer. Closing a block, storing blocks and processing forced batches wait for the
  executor to store what it answered and for the synchronizer to catch up; when these
  two do, the calls come to an end. The identifiers that are waited for are always ones the
  polling goroutine knows to be pending.
\<close>

section \<open>What the services promise\<close>

text \<open>
  An answer of the executor to one of its first \<open>k\<close> calls, and the promise that what was answered is stored
  after at most \<open>patience\<close> more calls.
\<close>

definition answered :: "fin_env \<Rightarrow> nat \<Rightarrow> ProcessBatchResponse \<Rightarrow> bool" where
  "answered env k resp \<longleftrightarrow> (\<exists>m rq. m < k \<and> ProcessBatchV2 env m rq = Inr resp)"

definition executor_stores :: "fin_env \<Rightarrow> bool" where
  "executor_stores env \<longleftrightarrow> (\<forall>k resp. answered env k resp \<longrightarrow>
     (\<exists>j s. j < patience env \<and> GetStoredFlushID env (k + j) = Inr s \<and> FlushID resp \<le> s))"

text \<open>The synchronizer has seen the last batch of L1 after at most \<open>patience\<close> looks.\<close>

definition synchronizer_follows :: "fin_env \<Rightarrow> bool" where
  "synchronizer_follows env \<longleftrightarrow> (\<forall>k. \<exists>j v l. j < patience env \<and> GetLastVirtualBatchNum env (k + j) = Inr v \<and>
     db_fails env (k + j) = None \<and> GetLatestBatchNumber env (k + j) = Inr l \<and> l \<le> v)"

definition services_progress :: "fin_env \<Rightarrow> bool" where
  "services_progress env \<longleftrightarrow> executor_stores env \<and> synchronizer_follows env"

lemma answered_mono: "answered env k resp \<Longrightarrow> k \<le> l \<Longrightarrow> answered env l resp"
  unfolding answered_def by (meson order_less_le_trans)

lemma flush_loop_ends:
  "i \<le> lastPendingFlushID f \<Longrightarrow> j < n \<Longrightarrow> GetStoredFlushID env (exec_calls f + j) = Inr s \<Longrightarrow> i \<le> s \<Longrightarrow>
   ends (flush_loop n env i f)"
proof (induction n arbitrary: f j)
  case (Suc n)
  show ?case
  proof (cases "i \<le> storedFlushID f")
    case False
    let ?g = "flush_poll env f"
    have g: "lastPendingFlushID ?g = lastPendingFlushID f" "exec_calls ?g = Suc (exec_calls f)"
      by (simp_all add: flush_poll_def split: sum.split)
    have "ends (flush_loop n env i ?g)"
    proof (cases j)
      case 0
      then have "i \<le> storedFlushID ?g" using Suc.prems by (simp add: flush_poll_def)
      then show ?thesis by (cases n) simp_all
    next
      case (Suc k)
      then show ?thesis using Suc.prems g by (intro Suc.IH [of _ k]) simp_all
    qed
    moreover have "\<not> lastPendingFlushID f \<le> storedFlushID f" using False Suc.prems(1) by auto
    ultimately show ?thesis using False by simp
  qed simp
qed simp

lemma wait_flush_ends:
  assumes "services_progress env" and "answered env (exec_calls f) resp" and "FlushID resp \<le> lastPendingFlushID f"
  shows "ends (wait_flush env (FlushID resp) f)"
proof -
  obtain j s where "j < patience env" "GetStoredFlushID env (exec_calls f + j) = Inr s" "FlushID resp \<le> s"
    using assms(1,2) unfolding services_progress_def executor_stores_def by blast
  then show ?thesis using flush_loop_ends [OF assms(3)] by (simp add: wait_flush_def)
qed

lemma sync_loop_ends:
  assumes "GetLastBatchNumber rows = Inr b"
  shows "j < n \<Longrightarrow> GetLastVirtualBatchNum env (db_calls f + j) = Inr v \<Longrightarrow> db_fails env (db_calls f + j) = None \<Longrightarrow>
    GetLatestBatchNumber env (db_calls f + j) = Inr l \<Longrightarrow> l \<le> v \<Longrightarrow> ends (sync_loop n env rows f)"
proof (induction n arbitrary: f j)
  case (Suc n)
  show ?case
  proof (cases j)
    case 0
    then have "isSynced env (db_calls f) rows" using Suc.prems assms by (simp add: isSynced_def not_less)
    then show ?thesis by simp
  next
    case (Suc k)
    have "ends (sync_loop n env rows (f\<lparr>db_calls := db_calls f + 1\<rparr>))" using Suc.prems Suc by (intro Suc.IH [of k]) simp_all
    then show ?thesis by simp
  qed
qed simp

lemma wait_synced_ends:
  assumes "services_progress env" and "GetLastBatchNumber rows = Inr b"
  shows "ends (wait_synced env rows f)"
proof -
  obtain j v l where "j < patience env" "GetLastVirtualBatchNum env (db_calls f + j) = Inr v" "db_fails env (db_calls f + j) = None"
    "GetLatestBatchNumber env (db_calls f + j) = Inr l" "l \<le> v"
    using assms(1) unfolding services_progress_def synchronizer_follows_def by blast
  then show ?thesis using sync_loop_ends [OF assms(2)] by (simp add: wait_synced_def)
qed

section \<open>The blocks that wait to be stored\<close>

text \<open>
  Every block in the channel has an answer of the executor, whose identifier is not beyond the largest one
  that the polling goroutine asks for.
\<close>

definition flush_known :: "fin_env \<Rightarrow> finalizer \<Rightarrow> L2Block \<Rightarrow> bool" where
  "flush_known env f l2 \<longleftrightarrow> (\<forall>resp. batchResponse l2 = Some resp \<longrightarrow>
     FlushID resp \<le> lastPendingFlushID f \<and> answered env (exec_calls f) resp)"

definition pending_known :: "fin_env \<Rightarrow> finalizer \<Rightarrow> bool" where
  "pending_known env f \<longleftrightarrow> (\<forall>l2 \<in> set (pendingL2BlocksToStore f). flush_known env f l2)"

definition pkept :: "finalizer \<Rightarrow> finalizer \<Rightarrow> bool" where
  "pkept f f' \<longleftrightarrow> pendingL2BlocksToStore f' = pendingL2BlocksToStore f \<and> lastPendingFlushID f \<le> lastPendingFlushID f' \<and>
     exec_calls f \<le> exec_calls f'"

lemma pkept_refl [simp]: "pkept f f"
  by (simp add: pkept_def)

lemma pkept_trans: "pkept f g \<Longrightarrow> pkept g h \<Longrightarrow> pkept f h"
  by (auto simp: pkept_def)

lemma pkept_block: "pkept f g \<Longrightarrow> flush_known env f l2 \<Longrightarrow> flush_known env g l2"
  unfolding pkept_def flush_known_def using answered_mono order_trans by blast

lemma pkept_known: "pkept f g \<Longrightarrow> pending_known env f \<Longrightarrow> pending_known env g"
  using pkept_block by (auto simp: pending_known_def pkept_def)

lemma pkept_simps [simp]:
  "pkept f (g\<lparr>ticks := n\<rparr>) = pkept f g" "pkept f (g\<lparr>db_calls := n\<rparr>) = pkept f g" "pkept f (g\<lparr>sipBatch := b\<rparr>) = pkept f g"
  "pkept f (g\<lparr>pipBatch := b\<rparr>) = pkept f g" "pkept f (g\<lparr>wipBatch := b\<rparr>) = pkept f g" "pkept f (g\<lparr>wipL2Block := x\<rparr>) = pkept f g"
  "pkept f (g\<lparr>state_batches := tb\<rparr>) = pkept f g" "pkept f (g\<lparr>stored_blocks := sb\<rparr>) = pkept f g" "pkept f (g\<lparr>worker := w\<rparr>) = pkept f g"
  "pkept f (g\<lparr>storedFlushID := v\<rparr>) = pkept f g" "pkept f (g\<lparr>nextForcedBatches := fs\<rparr>) = pkept f g"
  "pkept f (g\<lparr>nextForcedBatchDeadline := d\<rparr>) = pkept f g" "pkept f (rollback tb sb g) = pkept f g" "pkept f (set_batch r ba g) = pkept f g"
  "pkept f (fst (UpdateTxStatus env g h s y)) = pkept f g" "pkept f (g\<lparr>pendingL2BlocksToProcess := bs\<rparr>) = pkept f g"
  "pkept f (g\<lparr>l2BlockReorg := x1\<rparr>) = pkept f g" "pkept f (g\<lparr>lastL2BlockWasReorg := x1\<rparr>) = pkept f g"
  "pkept f (g\<lparr>store := st\<rparr>) = pkept f g" "pkept f (g\<lparr>next_ref := k\<rparr>) = pkept f g" "pkept f (g\<lparr>l2BlockCounter := c\<rparr>) = pkept f g"
  "pkept f (scheduleNextStateRootSync env g) = pkept f g" "pkept f (g\<lparr>pool_updates := pu\<rparr>) = pkept f g"
  by (simp_all add: pkept_def rollback_def set_batch_def UpdateTxStatus_def scheduleNextStateRootSync_def tick_def)

lemma pkept_calls [simp]: "pkept f g \<Longrightarrow> exec_calls g \<le> n \<Longrightarrow> pkept f (g\<lparr>exec_calls := n\<rparr>)"
  by (auto simp: pkept_def)

lemma pkept_update [simp]: "pkept f g \<Longrightarrow> pkept f (updateFlushIDs i j g)"
  by (auto simp: pkept_def updateFlushIDs_def)

lemma pkept_chain: "rets (pkept g) m \<Longrightarrow> pkept f g \<Longrightarrow> rets (pkept f) m"
  by (auto elim!: rets_mono intro: pkept_trans)

lemma pkept_chain2: "rets (\<lambda>x. pkept g (fst x)) m \<Longrightarrow> pkept f g \<Longrightarrow> rets (\<lambda>x. pkept f (fst x)) m"
  by (auto elim!: rets_mono intro: pkept_trans)

lemma sanity_pkept: "rets (\<lambda>x. pkept f (fst x)) (batchSanityCheck env f n i x)"
proof (rule retsI)
  fix y assume "batchSanityCheck env f n i x = Ret y"
  then show "pkept f (fst y)"
    by (auto simp: batchSanityCheck_def db_def tick_def Let_def reprocessError_Ret elim!: bnd_RetE split: option.splits sum.splits)
qed

lemma closeSIP_pkept: "rets (\<lambda>x. pkept f (fst x)) (closeSIPBatch env f)"
proof -
  have "rets (\<lambda>x. pkept f (fst x)) (batchSanityCheck env (f\<lparr>db_calls := k, state_batches := tb\<rparr>) n i x)" for k tb n i x
    by (rule pkept_chain2 [OF sanity_pkept]) simp
  note h = rets_mono [OF this]
  show ?thesis
    by (auto simp: closeSIPBatch_def db_def Let_def split: option.split intro!: h)
qed

lemma insertSIP_pkept: "rets (\<lambda>x. pkept f (fst x)) (insertSIPBatch env f n r)"
  by (rule retsI) (auto simp: insertSIPBatch_def db_def tick_def split: option.splits sum.splits elim!: bnd_RetE wait_synced_Ret)

lemma finalizeSIP_pkept: "rets (\<lambda>x. pkept f (fst x)) (finalizeSIPBatch env f)"
proof -
  have "rets (\<lambda>x. pkept f (fst x)) (closeSIPBatch env (f\<lparr>db_calls := k\<rparr>))" for k
    by (rule pkept_chain2 [OF closeSIP_pkept]) simp
  note h = rets_mono [OF this]
  show ?thesis
    by (auto simp: finalizeSIPBatch_def db_def Let_def split: option.split intro!: h)
qed

lemma switch_sip_pkept: "rets (\<lambda>x. pkept f (fst x)) (switch_sip env f r)"
proof -
  have "rets (\<lambda>x. pkept f (fst x)) (insertSIPBatch env g n rt)" if "pkept f g" for g n rt
    by (rule pkept_chain2 [OF insertSIP_pkept that])
  note h = rets_mono [OF this]
  show ?thesis
    by (auto simp: switch_sip_def Let_def split: option.split intro!: h rets_mono [OF closeSIP_pkept])
qed

lemma store_rows_pkept: "rets (\<lambda>x. pkept f (fst x)) (store_rows env f b l2 resp blk)"
  by (auto simp: store_rows_def db_def Let_def split: option.split sum.split intro!: rets_all)

lemma store_in_tx_pkept: "rets (\<lambda>x. pkept f (fst x)) (store_in_tx env f r l2 resp blk)"
proof -
  have "rets (\<lambda>x. pkept f (fst x)) (store_rows env g b l2 resp blk)" if "pkept f g" for g b
    by (rule pkept_chain2 [OF store_rows_pkept that])
  note h = rets_mono [OF this]
  show ?thesis
    by (auto simp: store_in_tx_def db_def intro!: rets_mono [OF switch_sip_pkept] h)
qed

lemma select_txs_pkept: "pkept f (fst (select_txs env rs f))"
proof (induction rs arbitrary: f)
  case (Cons r rs)
  have "pkept f (fst (select_txs env rs (fst (UpdateTxStatus env f h s y))))" for h s y
    by (rule pkept_trans [OF _ Cons]) simp
  then show ?case by (auto simp: UpdateTxStatus_def split: option.split)
qed simp

lemma delete_pending_pkept: "rets (pkept f) (delete_pending env ts f)"
proof (induction ts arbitrary: f)
  case (Cons t ts)
  have "rets (pkept f) (delete_pending env ts (f\<lparr>worker := w\<rparr>))" for w by (rule pkept_chain [OF Cons]) simp
  then show ?case by (auto intro!: rets_all)
qed simp

lemma after_store_pkept: "rets (\<lambda>x. pkept f (fst x)) (after_store env l2 blk f)"
proof -
  obtain g e where s: "select_txs env (TransactionResponses blk) f = (g, e)" by fastforce
  have g: "pkept f g" using select_txs_pkept [of f env "TransactionResponses blk"] s by simp
  have "rets (pkept f) (delete_pending env ts g)" for ts by (rule pkept_chain [OF delete_pending_pkept g])
  then show ?thesis using s g by (auto simp: after_store_def split: option.split elim!: rets_mono)
qed

lemma storeL2Block_pkept: "rets (\<lambda>x. pkept f (fst x)) (storeL2Block env f l2)"
proof -
  have w: "rets (pkept f) (wait_flush env i f)" for i by (rule retsI) (auto elim!: wait_flush_Ret)
  have "rets (\<lambda>x. pkept f (fst x)) (store_in_tx env g r l2 resp blk)" if "pkept f g" for g r resp blk
    by (rule pkept_chain2 [OF store_in_tx_pkept that])
  note h = rets_mono [OF this]
  have a: "rets (\<lambda>x. pkept f (fst x)) (after_store env l2 blk g)" if "pkept f g" for g blk
    by (rule pkept_chain2 [OF after_store_pkept that])
  show ?thesis
    by (auto simp: storeL2Block_def db_def split: option.split list.split intro!: rets_mono [OF w] h a)
qed

lemma store_all_pkept: "rets (pkept f) (store_all env bs f)"
proof (induction bs arbitrary: f)
  case (Cons b bs)
  have "rets (pkept f) (store_all env bs g)" if "pkept f g" for g by (rule pkept_chain [OF Cons that])
  then show ?case by (auto intro!: rets_mono [OF storeL2Block_pkept])
qed simp

text \<open>Storing what is pending empties the channel.\<close>

definition drained :: "finalizer \<Rightarrow> finalizer \<Rightarrow> bool" where
  "drained f f' \<longleftrightarrow> pendingL2BlocksToStore f' = [] \<and> lastPendingFlushID f \<le> lastPendingFlushID f' \<and> exec_calls f \<le> exec_calls f'"

lemma store_pending_drained: "rets (drained f) (store_pending env f)"
  unfolding store_pending_def by (rule rets_mono [OF store_all_pkept]) (simp add: drained_def pkept_def)

lemma drained_known: "drained f g \<Longrightarrow> pending_known env g"
  by (simp add: drained_def pending_known_def)

lemma processed_known:
  assumes "pending_known env f" and "answered env (exec_calls f) resp"
  shows "rets (\<lambda>x. pending_known env (fst x)) (accept_block env l2 resp n f)"
proof -
  let ?g = "\<lambda>r b. updateFlushIDs (FlushID resp) (StoredFlushID resp) (set_batch r b f)"
  have g: "FlushID resp \<le> lastPendingFlushID (?g r b)" "exec_calls (?g r b) = exec_calls f" for r b
    by (auto simp: updateFlushIDs_def set_batch_def)
  have "pending_known env (h\<lparr>pendingL2BlocksToStore := pendingL2BlocksToStore h @ [l2\<lparr>batchResponse := Some resp, highReservedZKCounters := high\<rparr>]\<rparr>)"
    if "drained (?g r b) h" for h r b high
  proof -
    have "FlushID resp \<le> lastPendingFlushID h" "exec_calls f \<le> exec_calls h" "pendingL2BlocksToStore h = []"
      using that g [of r b] by (auto simp: drained_def)
    then show ?thesis using answered_mono [OF assms(2)] by (simp add: pending_known_def flush_known_def)
  qed
  note h = rets_mono [OF store_pending_drained this]
  show ?thesis
    using assms(1) by (auto simp: accept_block_def Let_def split: option.split prod.split intro!: h)
qed

lemma executeL2Block_calls:
  "rets (\<lambda>(g, res). pkept f g \<and> (\<forall>resp n. res = Inr (resp, n) \<longrightarrow> answered env (exec_calls g) resp)) (executeL2Block env f rt l2)"
  by (auto simp: executeL2Block_def Let_def answered_def split: option.split sum.split)

lemma next_pip_pkept: "rets (pkept f) (next_pip l2 f)"
  by (auto simp: next_pip_def Let_def split: option.split)

lemma processL2Block_known:
  assumes "pending_known env f"
  shows "rets (\<lambda>x. pending_known env (fst x)) (processL2Block env f l2)"
proof -
  have "rets (\<lambda>x. pending_known env (fst x)) (bnd (executeL2Block env g rt l2) (\<lambda>(f, res).
             case res of
               Inl e \<Rightarrow> Ret (f, l2, Some e)
             | Inr (resp, dataSize) \<Rightarrow>
                 (case check_response l2 resp of
                    Some e \<Rightarrow> Ret (f, l2, Some e)
                  | None \<Rightarrow> accept_block env l2 resp dataSize f)))" if "pkept f g" for g rt
    unfolding rets_bnd
    by (rule rets_mono [OF executeL2Block_calls])
      (use pkept_known [OF pkept_trans [OF that] assms] processed_known in \<open>auto split: sum.split option.split\<close>)
  note run = this
  show ?thesis
    unfolding processL2Block_def
    by (subst rets_bnd, rule rets_mono [OF next_pip_pkept]) (auto simp del: rets_bnd split: option.split intro!: run)
qed

lemma known_simps [simp]:
  "pending_known env (f\<lparr>l2BlockReorg := x\<rparr>) = pending_known env f" "pending_known env (f\<lparr>lastL2BlockWasReorg := x\<rparr>) = pending_known env f"
  "pending_known env (f\<lparr>pendingL2BlocksToProcess := bs\<rparr>) = pending_known env f" "pending_known env (f\<lparr>ticks := n\<rparr>) = pending_known env f"
  "pending_known env (f\<lparr>wipL2Block := b\<rparr>) = pending_known env f" "pending_known env (set_batch r ba f) = pending_known env f"
  "pending_known env (scheduleNextStateRootSync env' f) = pending_known env f" "pending_known env (f\<lparr>wipBatch := wb\<rparr>) = pending_known env f"
  by (simp_all add: pending_known_def flush_known_def set_batch_def scheduleNextStateRootSync_def tick_def)

lemma process_all_known: "pending_known env f \<Longrightarrow> rets (pending_known env) (process_all env bs f)"
proof (induction bs arbitrary: f)
  case (Cons l2 bs)
  show ?case using Cons.prems by (auto intro!: rets_mono [OF processL2Block_known] Cons.IH)
qed simp

lemma waitPending_known:
  assumes "pending_known env f"
  shows "rets (pending_known env) (process_pending env f)" "rets (pending_known env) (waitPendingL2Blocks env f)"
proof -
  show p: "rets (pending_known env) (process_pending env f)"
    unfolding process_pending_def by (rule process_all_known) (simp add: assms)
  show "rets (pending_known env) (waitPendingL2Blocks env f)"
    unfolding waitPendingL2Blocks_def rets_bnd
    by (rule rets_mono [OF p], rule rets_mono [OF store_pending_drained]) (rule drained_known)
qed

lemma sync_root_known: "pending_known env f \<Longrightarrow> rets (pending_known env) (sync_root f)"
  by (auto simp: sync_root_def wip_def set_wip_def split: option.split)

lemma sync_state_root_known: "pending_known env f \<Longrightarrow> rets (pending_known env) (sync_state_root env f)"
  by (auto simp: sync_state_root_def tick_def split: option.split
    intro!: rets_mono [OF waitPending_known(2)] rets_all [of _ "wip _"] rets_mono [OF sync_root_known])

lemma closeWIPL2Block_known: "pending_known env f \<Longrightarrow> rets (pending_known env) (closeWIPL2Block env f)"
  by (cases "wipBatch f") (auto simp: closeWIPL2Block_def wip_def set_wip_def split: option.split
    intro!: rets_mono [OF processL2Block_known] rets_mono [OF sync_root_known] rets_mono [OF waitPending_known(1)]
      rets_mono [OF sync_state_root_known])

section \<open>Calls that come to an end\<close>

lemma reprocess_ends [simp]: "ends m \<Longrightarrow> ends (reprocessError env b m)"
  by (simp add: reprocessError_def split: option.split sum.split)

lemma sanity_ends [simp]: "ends (batchSanityCheck env f n i x)"
  by (auto simp: batchSanityCheck_def db_def tick_def Let_def GetL1InfoTreeDataFromBatchL2Data_def
      split: option.split sum.split list.split intro!: rets_all)

lemma closeSIP_ends [simp]: "ends (closeSIPBatch env f)"
  by (auto simp: closeSIPBatch_def db_def Let_def split: option.split intro!: rets_all)

lemma finalizeSIP_ends [simp]: "ends (finalizeSIPBatch env f)"
  by (auto simp: finalizeSIPBatch_def db_def Let_def split: option.split intro!: rets_all)

lemma opened_rows: "OpenWIPBatch b rows = Inr rows' \<Longrightarrow> \<exists>n. GetLastBatchNumber rows = Inr n"
  by (auto simp: OpenWIPBatch_def check_open_def split: option.splits sum.splits)

lemma insertSIP_ends [simp]: "services_progress env \<Longrightarrow> ends (insertSIPBatch env f n r)"
  by (auto simp: insertSIPBatch_def db_def tick_def split: option.split sum.split dest!: opened_rows intro!: wait_synced_ends rets_all)

lemma responses_ends [simp]: "ends (responses_data env k rs)"
  by (induction rs) (auto split: option.split sum.split intro!: rets_all)

lemma store_rows_ends [simp]: "ends (store_rows env f b l2 resp blk)"
  by (auto simp: store_rows_def db_def Let_def split: option.split sum.split intro!: rets_all)

lemma switch_sip_ends [simp]: "services_progress env \<Longrightarrow> ends (switch_sip env f r)"
  by (auto simp: switch_sip_def Let_def split: option.split intro!: rets_all)

lemma delete_pending_ends [simp]: "ends (delete_pending env ts f)"
  by (induction ts arbitrary: f) (auto intro!: rets_all)

lemma store_in_tx_ends [simp]: "services_progress env \<Longrightarrow> ends (store_in_tx env f r l2 resp blk)"
  by (auto simp: store_in_tx_def db_def intro!: rets_all)

lemma after_store_ends [simp]: "ends (after_store env l2 blk f)"
  by (cases "select_txs env (TransactionResponses blk) f") (auto simp: after_store_def split: option.split intro!: rets_all)

lemma storeL2Block_ends:
  "services_progress env \<Longrightarrow> flush_known env f l2 \<Longrightarrow> ends (storeL2Block env f l2)"
  by (auto simp: storeL2Block_def db_def flush_known_def split: option.split list.split intro!: rets_all wait_flush_ends)

lemma store_all_ends:
  assumes "services_progress env"
  shows "\<forall>l2 \<in> set bs. flush_known env f l2 \<Longrightarrow> ends (store_all env bs f)"
proof (induction bs arbitrary: f)
  case (Cons b bs)
  have "ends (store_all env bs g)" if "pkept f g" for g
    by (rule Cons.IH) (use Cons.prems pkept_block [OF that] in auto)
  then show ?case
    using Cons.prems storeL2Block_ends [OF assms] by (auto intro!: rets_mono [OF storeL2Block_pkept])
qed simp

lemma store_pending_ends:
  "services_progress env \<Longrightarrow> pending_known env f \<Longrightarrow> ends (store_pending env f)"
  unfolding store_pending_def by (erule store_all_ends) (simp add: pending_known_def flush_known_def)

lemma next_pip_ends [simp]: "ends (next_pip l2 f)"
  by (simp add: next_pip_def Let_def split: option.split)

lemma executeL2Block_ends [simp]: "ends (executeL2Block env f stRoot l2)"
  by (simp add: executeL2Block_def Let_def split: option.split sum.split)

lemma accept_block_ends:
  assumes "services_progress env" and "pending_known env f"
  shows "ends (accept_block env l2 resp n f)"
proof -
  have "ends (store_pending env (updateFlushIDs i j (set_batch r b f)))" for i j r b
    by (rule store_pending_ends [OF assms(1)], rule pkept_known [OF _ assms(2)]) simp
  then show ?thesis by (auto simp: accept_block_def Let_def split: option.split prod.split intro!: rets_all)
qed

lemma processL2Block_ends:
  assumes "services_progress env" and "pending_known env f"
  shows "ends (processL2Block env f l2)"
proof -
  have a: "ends (accept_block env l2 resp n h)" if "pkept f h" for resp n h
    by (rule accept_block_ends [OF assms(1) pkept_known [OF that assms(2)]])
  have "ends (bnd (executeL2Block env g rt l2) (\<lambda>(f, res).
             case res of
               Inl e \<Rightarrow> Ret (f, l2, Some e)
             | Inr (resp, dataSize) \<Rightarrow>
                 (case check_response l2 resp of
                    Some e \<Rightarrow> Ret (f, l2, Some e)
                  | None \<Rightarrow> accept_block env l2 resp dataSize f)))" if "pkept f g" for g rt
    unfolding ends_bnd
    by (intro conjI executeL2Block_ends, rule rets_mono [OF executeL2Block_calls])
      (use a pkept_trans [OF that] in \<open>auto split: sum.split option.split\<close>)
  note run = this
  show ?thesis
    unfolding processL2Block_def
    by (subst ends_bnd, intro conjI next_pip_ends, rule rets_mono [OF next_pip_pkept])
      (auto simp del: ends_bnd split: option.split intro!: run)
qed

lemma process_all_ends:
  assumes "services_progress env"
  shows "pending_known env f \<Longrightarrow> ends (process_all env bs f)"
proof (induction bs arbitrary: f)
  case (Cons l2 bs)
  show ?case
    using Cons.prems processL2Block_ends [OF assms]
    by (auto intro!: rets_mono [OF processL2Block_known] Cons.IH)
qed simp

lemma waitPending_ends:
  assumes "services_progress env" and "pending_known env f"
  shows "ends (process_pending env f)" "ends (waitPendingL2Blocks env f)"
proof -
  show p: "ends (process_pending env f)"
    unfolding process_pending_def by (rule process_all_ends [OF assms(1)]) (simp add: assms(2))
  show "ends (waitPendingL2Blocks env f)"
    unfolding waitPendingL2Blocks_def ends_bnd
    by (intro conjI p, rule rets_mono [OF waitPending_known(1) [OF assms(2)]]) (rule store_pending_ends [OF assms(1)])
qed

lemma sync_root_ends [simp]: "ends (sync_root f)"
  by (auto simp: sync_root_def wip_def set_wip_def split: option.split intro!: rets_all)

lemma sync_state_root_ends:
  "services_progress env \<Longrightarrow> pending_known env f \<Longrightarrow> ends (sync_state_root env f)"
  using waitPending_ends(2) by (auto simp: sync_state_root_def tick_def split: option.split intro!: rets_all)

lemma closeWIPL2Block_ends:
  assumes "services_progress env" and "pending_known env f"
  shows "ends (closeWIPL2Block env f)"
proof (cases "wipBatch f")
  case (Some r)
  let ?g = "set_batch r ((store f r)\<lparr>countOfL2Blocks := countOfL2Blocks (store f r) + 1\<rparr>) f"
  have k: "pending_known env ?g" using assms(2) by simp
  have s: "ends (sync_state_root env (h\<lparr>pendingL2BlocksToProcess := bs\<rparr>))" if "pending_known env h" for h bs
    by (rule sync_state_root_ends [OF assms(1)]) (simp add: that)
  show ?thesis
    using Some processL2Block_ends [OF assms(1) k] waitPending_ends(1) [OF assms(1) k]
    by (auto simp: closeWIPL2Block_def wip_def set_wip_def split: option.split intro!: rets_mono [OF waitPending_known(1) [OF k]] s intro: rets_all)
qed (auto simp: closeWIPL2Block_def wip_def split: option.split)

section \<open>Forced batches\<close>

lemma updateWorker_ends [simp]: "ends (updateWorkerAfterSuccessfulProcessing env f h a forced result)"
  by (auto simp: updateWorkerAfterSuccessfulProcessing_def intro!: rets_all)

lemma forced_txs_ends [simp]: "ends (forced_txs env resp rs f)"
  by (induction rs arbitrary: f) (auto split: sum.split intro!: rets_all)

lemma forced_blocks_ends [simp]: "ends (forced_blocks env n resp bs f)"
  by (induction bs arbitrary: f) (auto simp: db_def split: option.split intro!: rets_all)

lemma updateForced_pkept: "rets (pkept f) (updateWorkerAfterSuccessfulProcessing env f h a True resp)"
  by (auto simp: updateWorkerAfterSuccessfulProcessing_def)

lemma forced_txs_pkept: "rets (pkept f) (forced_txs env resp rs f)"
proof (induction rs arbitrary: f)
  case (Cons r rs)
  have "rets (pkept f) (forced_txs env resp rs g)" if "pkept f g" for g by (rule pkept_chain [OF Cons that])
  then show ?case by (auto split: sum.split intro!: rets_mono [OF updateForced_pkept])
qed simp

lemma forced_blocks_pkept: "rets (\<lambda>x. pkept f (fst x)) (forced_blocks env n resp bs f)"
proof (induction bs arbitrary: f)
  case (Cons b bs)
  have "rets (pkept f) (forced_txs env resp rs (f\<lparr>db_calls := k, stored_blocks := sb\<rparr>))" for rs k sb
    by (rule pkept_chain [OF forced_txs_pkept]) simp
  note h = rets_mono [OF this pkept_chain2 [OF Cons]]
  show ?case by (auto simp: db_def split: option.split intro!: h)
qed simp

lemma addForced_pkept: "pkept f (addForcedTxToWorker env resp f)"
proof -
  have "pkept f (fold (add_forced_tx env) rs g)" if "pkept f g" for g rs
    using that by (induction rs arbitrary: g) (auto simp: add_forced_tx_def split: sum.split)
  then show ?thesis by (simp add: addForcedTxToWorker_def)
qed

lemma handleForced_pkept: "rets (\<lambda>x. pkept f (fst x)) (handleProcessForcedBatchResponse env n resp f)"
  unfolding handleProcessForcedBatchResponse_def rets_bnd
  by (rule retsI, rule pkept_chain2 [OF forced_blocks_pkept]) (auto simp: addForced_pkept elim!: wait_flush_Ret)

lemma addForced_calls: "exec_calls (addForcedTxToWorker env resp f) = exec_calls f"
proof -
  have "exec_calls (fold (add_forced_tx env) rs g) = exec_calls g" for g rs
    by (induction rs arbitrary: g) (auto simp: add_forced_tx_def split: sum.split)
  then show ?thesis by (simp add: addForcedTxToWorker_def)
qed

lemma handleForced_ends:
  "services_progress env \<Longrightarrow> answered env (exec_calls f) resp \<Longrightarrow> ends (handleProcessForcedBatchResponse env n resp f)"
  unfolding handleProcessForcedBatchResponse_def ends_bnd
  by (intro conjI wait_flush_ends rets_all forced_blocks_ends) (auto simp: updateFlushIDs_def addForced_calls)

lemma forced_close_pkept: "rets (\<lambda>x. pkept f (fst x)) (forced_close env fb n resp f)"
proof -
  have "rets (\<lambda>x. pkept f (fst x)) (handleProcessForcedBatchResponse env n resp (f\<lparr>db_calls := k, state_batches := rows\<rparr>))" for k rows
    by (rule pkept_chain2 [OF handleForced_pkept]) simp
  note h = rets_mono [OF this]
  show ?thesis
    by (auto simp: forced_close_def db_def split: option.split sum.split intro!: h)
qed

lemma forced_close_ends:
  "services_progress env \<Longrightarrow> answered env (exec_calls f) resp \<Longrightarrow> ends (forced_close env fb n resp f)"
  by (auto simp: forced_close_def db_def split: option.split sum.split intro!: rets_all handleForced_ends)

lemma forced_body_pkept: "rets (\<lambda>x. pkept f (fst x)) (forced_body env fb parent n stRoot f)"
proof -
  have "rets (\<lambda>x. pkept f (fst x)) (forced_close env fb m resp (f\<lparr>ticks := t, db_calls := k, state_batches := rows, exec_calls := Suc (exec_calls f)\<rparr>))"
    for t k rows m resp
    by (rule pkept_chain2 [OF forced_close_pkept]) simp
  note h = rets_mono [OF this]
  show ?thesis
    by (auto simp: forced_body_def db_def tick_def split: option.split sum.split intro!: h)
qed

lemma forced_body_ends:
  assumes "services_progress env"
  shows "ends (forced_body env fb parent n stRoot f)"
proof -
  have "ends (forced_close env fb m resp g)" if "ProcessBatchV2 env (exec_calls f) rq = Inr resp" "exec_calls g = Suc (exec_calls f)" for m resp g rq
    by (rule forced_close_ends [OF assms]) (use that in \<open>auto simp: answered_def intro: exI [of _ "exec_calls f"]\<close>)
  then show ?thesis
    by (auto simp: forced_body_def db_def tick_def split: option.split sum.split intro!: rets_all)
qed

lemma processForcedBatch_pkept: "rets (\<lambda>x. pkept f (fst x)) (processForcedBatch env f fb n stRoot)"
proof -
  have "rets (\<lambda>x. pkept f (fst x)) (forced_body env fb parent n stRoot (f\<lparr>db_calls := k\<rparr>))" for k parent
    by (rule pkept_chain2 [OF forced_body_pkept]) simp
  note h = rets_mono [OF this]
  show ?thesis
    by (auto simp: processForcedBatch_def db_def Let_def split: option.split sum.split intro!: h)
qed

lemma processForcedBatch_ends: "services_progress env \<Longrightarrow> ends (processForcedBatch env f fb n stRoot)"
  using forced_body_ends by (auto simp: processForcedBatch_def db_def Let_def split: option.split sum.split intro!: rets_all)

lemma forced_loop_pkept: "rets (\<lambda>x. pkept f (fst x)) (forced_loop env fbs next n stRoot f)"
proof (induction fbs arbitrary: "next" n stRoot f)
  case (Cons fb fbs)
  have "rets (\<lambda>x. pkept f (fst x)) (forced_loop env fbs k m rt g)" if "pkept f g" for k m rt g
    by (rule pkept_chain2 [OF Cons that])
  then show ?case by (auto split: sum.split intro!: rets_mono [OF processForcedBatch_pkept])
qed simp

lemma forced_loop_ends: "services_progress env \<Longrightarrow> ends (forced_loop env fbs next n stRoot f)"
  by (induction fbs arbitrary: "next" n stRoot f) (auto split: sum.split intro!: rets_all processForcedBatch_ends)

lemma processForced_pkept: "rets (\<lambda>x. pkept f (fst x)) (processForcedBatches env f n stRoot)"
  by (auto simp: processForcedBatches_def db_def split: option.split intro!: pkept_chain2 [OF forced_loop_pkept])

lemma processForcedBatches_ends: "services_progress env \<Longrightarrow> ends (processForcedBatches env f n stRoot)"
  by (auto simp: processForcedBatches_def db_def split: option.split intro!: forced_loop_ends)

end
