(* ===== verification/LifecycleProofs.thy ===== *)
theory LifecycleProofs
  imports LifecycleWaits
begin

text \<open>
  Proofs about closing a batch and opening the next one: finalizing a batch comes to an end, the
  batch and the block that follow are empty and account for their resources, and forced batches
  cannot be taken while the block in progress has transactions.
\<close>

section \<open>Closing a batch comes to an end\<close>

declare closeAndOpenNewWIPBatch.simps [simp del] openNewWIPL2Block.simps [simp del] initWIPL2Block.simps [simp del]

lemma executeNew_kept: "rets (\<lambda>x. \<exists>n. fst x = f\<lparr>exec_calls := n\<rparr>) (executeNewWIPL2Block env f)"
  by (auto simp: executeNewWIPL2Block_def Let_def wip_def split: option.split sum.split)

lemma executeNew_ends [simp]: "ends (executeNewWIPL2Block env f)"
  by (auto simp: executeNewWIPL2Block_def Let_def wip_def split: option.split sum.split)

lemma executeNew_pkept: "rets (\<lambda>x. pkept f (fst x)) (executeNewWIPL2Block env f)"
  by (auto simp: executeNewWIPL2Block_def Let_def wip_def split: option.split sum.split)

text \<open>A batch that is closed now comes before the one at which the sequencer halts, or is empty.\<close>

definition no_halt :: "fin_env \<Rightarrow> finalizer \<Rightarrow> bool" where
  "no_halt env f \<longleftrightarrow> (\<forall>r. wipBatch f = Some r \<longrightarrow>
     batchNumber (store f r) + 1 \<noteq> HaltOnBatchNumber (cfg env) \<or> countOfL2Blocks (store f r) = 0)"

text \<open>Closing a batch while the block in progress, if any, has none.\<close>

lemma openNewWIPBatch_fields [simp]:
  "batchNumber (openNewWIPBatch c a t n h) = n" "countOfL2Blocks (openNewWIPBatch c a t n h) = 0"
  "initialStateRoot (openNewWIPBatch c a t n h) = h" "imStateRoot (openNewWIPBatch c a t n h) = h"
  "imRemainingResources (openNewWIPBatch c a t n h) = getMaxBatchResources c"
  by (simp_all add: openNewWIPBatch_def Let_def)

lemma open_batch_eq: "\<exists>t. open_batch env n stRoot f = (next_ref f, f\<lparr>ticks := ticks f + 1,
    store := (store f)(next_ref f := openNewWIPBatch (constraints env) (l2Coinbase env) t n stRoot),
    next_ref := next_ref f + 1, wipBatch := Some (next_ref f)\<rparr>)"
  by (auto simp: open_batch_def tick_def new_batch_def)

lemma open_batch_fresh: "no_halt env (snd (open_batch env n stRoot f))" "wipL2Block (snd (open_batch env n stRoot f)) = wipL2Block f"
  "lastL1InfoTreeValid (snd (open_batch env n stRoot f)) = lastL1InfoTreeValid f"
  using open_batch_eq [of env n stRoot f] by (auto simp: no_halt_def)

text \<open>From the closing of the batch on, when there are no forced batches.\<close>

lemma next_batch_ends:
  assumes "no_halt env f"
  shows "ends (next_batch ib env False stRoot f)"
proof (cases "wipBatch f")
  case (Some r)
  show ?thesis
  proof (cases "countOfL2Blocks (store f r) = 0")
    case True
    then show ?thesis using Some by (simp add: next_batch_def wip_def closeWIPBatch_def batch_isEmpty_def)
  next
    case False
    then have "batchNumber (store f r) + 1 \<noteq> HaltOnBatchNumber (cfg env)" using assms Some by (simp add: no_halt_def)
    then show ?thesis
      using Some False by (simp add: next_batch_def wip_def closeWIPBatch_def batch_isEmpty_def split: prod.split option.split)
  qed
qed (simp add: next_batch_def wip_def)

text \<open>Closing a batch while the block in progress, if any, has none.\<close>

lemma close_no_batch_ends:
  assumes "\<And>l2. wipL2Block f = Some l2 \<Longrightarrow> l2_batch l2 = None" and "no_halt env f"
    and "services_progress env" and "pending_known env f"
  shows "ends (closeAndOpenNewWIPBatch (Suc n) env reason f)"
proof (cases "wipBatch f")
  case (Some r)
  let ?f = "set_batch r ((store f r)\<lparr>closingReason := reason\<rparr>) f"
  have "rets P (closeWIPL2Block env ?f)" for P
    using rets_mono [OF closeWIPL2Block_no_batch [of ?f env]] assms(1) by auto
  then have "rets P (flush_for_forced env ?f)" "ends (flush_for_forced env ?f)" for P
    using closeWIPL2Block_ends [OF assms(3), of ?f] assms(4) by (auto simp: flush_for_forced_def)
  moreover have "no_halt env ?f" using assms(2) by (auto simp: no_halt_def)
  ultimately show ?thesis
    using Some by (auto simp: closeAndOpenNewWIPBatch.simps wip_def set_wip_def Let_def next_batch_ends)
qed (simp add: closeAndOpenNewWIPBatch.simps wip_def Let_def)

lemma account_block_kept:
  "rets (\<lambda>x. wipBatch (snd x) = wipBatch f \<and> (\<forall>r. batchNumber (store (snd x) r) = batchNumber (store f r)) \<and>
     (\<forall>r. countOfL2Blocks (store (snd x) r) = countOfL2Blocks (store f r)) \<and>
     (\<exists>l2 l2'. wipL2Block f = Some l2 \<and> wipL2Block (snd x) = Some l2' \<and> l2_batch l2' = l2_batch l2)) (account_block resp f)"
  by (auto simp: account_block_def Let_def wip_def set_wip_def split: option.split prod.split)

lemma account_block_ends [simp]: "ends (account_block resp f)"
  by (auto simp: account_block_def Let_def wip_def set_wip_def split: option.split prod.split)

lemma make_block_props:
  assumes "make_block env t i f = (l2, g)"
  shows "l2_batch l2 = None \<and> wipBatch g = wipBatch f \<and> store g = store f \<and> nextForcedBatches g = nextForcedBatches f \<and>
    next_ref g = next_ref f \<and> transactions l2 = [] \<and> worker g = worker f \<and> state_batches g = state_batches f"
  using assms by (auto simp: make_block_def tick_def db_def Let_def split: option.splits prod.splits)

lemma make_block_pkept: "make_block env t i f = (l2, g) \<Longrightarrow> pkept f g"
  by (auto simp: make_block_def tick_def db_def Let_def split: option.splits prod.splits)

lemma account_block_pkept: "rets (\<lambda>x. pkept f (snd x)) (account_block resp f)"
  by (auto simp: account_block_def Let_def wip_def set_wip_def split: option.split prod.split)

lemma openNew_ends:
  assumes "no_halt env f" and "services_progress env" and "pending_known env f"
  shows "ends (openNewWIPL2Block (Suc (Suc n)) env t i f)"
proof -
  obtain l2 g where m: "make_block env t i f = (l2, g)" by fastforce
  note mp = make_block_props [OF m]
  have close: "ends (closeAndOpenNewWIPBatch (Suc n) env reason h)"
    if "account_block resp (g\<lparr>wipL2Block := Some l2, exec_calls := k\<rparr>) = Ret (ok, h)"
      "pkept f (g\<lparr>wipL2Block := Some l2, exec_calls := k\<rparr>)" for h resp k ok reason
  proof (rule close_no_batch_ends)
    show "pending_known env h"
      using pkept_known [OF pkept_trans [OF that(2)] assms(3)] retsD [OF account_block_pkept that(1)] by simp
  qed (use retsD [OF account_block_kept that(1)] mp assms in \<open>auto simp: no_halt_def\<close>)
  have p: "ends (place_block (\<lambda>f. closeAndOpenNewWIPBatch (Suc n) env ResourceExhaustedClosingReason f) resp
      (g\<lparr>wipL2Block := Some l2, exec_calls := k\<rparr>))" if "pkept f (g\<lparr>wipL2Block := Some l2, exec_calls := k\<rparr>)" for resp k
    using that by (auto simp: place_block_def intro!: retsI split: option.split dest: close)
  have "rets (\<lambda>x. pkept f (fst x) \<and> (\<exists>k. fst x = g\<lparr>wipL2Block := Some l2, exec_calls := k\<rparr>))
      (executeNewWIPL2Block env (g\<lparr>wipL2Block := Some l2\<rparr>))"
  proof (rule retsI)
    fix x assume x: "executeNewWIPL2Block env (g\<lparr>wipL2Block := Some l2\<rparr>) = Ret x"
    have "pkept f (g\<lparr>wipL2Block := Some l2\<rparr>)" using make_block_pkept [OF m] by simp
    then show "pkept f (fst x) \<and> (\<exists>k. fst x = g\<lparr>wipL2Block := Some l2, exec_calls := k\<rparr>)"
      using retsD [OF executeNew_pkept x] retsD [OF executeNew_kept x] pkept_trans by fastforce
  qed
  note h = rets_mono [OF this]
  show ?thesis
    using m p by (auto simp: openNewWIPL2Block.simps intro!: h split: sum.split)
qed

lemma initWIPL2Block_ends:
  assumes "lastL1InfoTreeValid f" and "no_halt env f" and "services_progress env" and "pending_known env f"
  shows "ends (initWIPL2Block (Suc (Suc (Suc n))) env f)"
proof -
  have "ends (openNewWIPL2Block (Suc (Suc n)) env t i (snd (db env f)))" for t i
  proof (rule openNew_ends [OF _ assms(3)])
    show "pending_known env (snd (db env f))" by (rule pkept_known [OF _ assms(4)]) (simp add: db_def)
  qed (use assms(2) in \<open>simp add: db_def no_halt_def\<close>)
  then show ?thesis using assms(1) by (simp add: initWIPL2Block.simps split: sum.split)
qed

lemma closeSIP_kept_rets: "rets (\<lambda>x. kept env f (fst x)) (closeSIPBatch env f)"
  using closeSIP_kept by (fastforce intro!: retsI)

lemma finalizeSIP_kept: "rets (\<lambda>x. kept env f (fst x)) (finalizeSIPBatch env f)"
proof -
  have "rets (\<lambda>x. kept env f (fst x)) (closeSIPBatch env (f\<lparr>db_calls := n\<rparr>))" for n
    by (rule rets_mono [OF closeSIP_kept_rets], erule kept_trans [rotated]) simp
  note h = rets_mono [OF this]
  show ?thesis
    by (auto simp: finalizeSIPBatch_def db_def Let_def split: option.split intro!: h)
qed

lemma finalizeSIP_carried: "carried env f g \<Longrightarrow> rets (\<lambda>x. carried env f (fst x)) (finalizeSIPBatch env g)"
  by (rule rets_mono [OF finalizeSIP_kept], erule carried_trans) (rule kept_carried)

lemma flush_counted: "rets (\<lambda>x. block_counted env f (fst x)) (flush_for_forced env f)"
proof -
  have w: "rets (block_counted env f) (waitPendingL2Blocks env g)" if "block_counted env f g" for g
    by (rule rets_mono [OF waitPending_carried]) (rule counted_carried [OF that])
  have "rets (\<lambda>x. block_counted env f (fst x)) (finalizeSIPBatch env g)" if "block_counted env f g" for g
    by (rule rets_mono [OF finalizeSIP_carried [OF carried_refl]]) (rule counted_carried [OF that])
  note h = rets_mono [OF this]
  show ?thesis
    unfolding flush_for_forced_def rets_bnd
    by (rule rets_mono [OF closeWIPL2Block_closed [of env]], rule rets_mono [OF w])
      (auto simp: Let_def split: option.split intro!: h)
qed

lemma flush_ends:
  assumes "services_progress env" and "pending_known env f"
  shows "ends (flush_for_forced env f)"
  unfolding flush_for_forced_def ends_bnd
  by (intro conjI closeWIPL2Block_ends [OF assms], rule rets_mono [OF closeWIPL2Block_known [OF assms(2)]],
    intro conjI waitPending_ends(2) [OF assms(1)], assumption, rule rets_all)
    (auto simp: Let_def split: option.split intro!: rets_all)

lemma flush_pending: "pending_known env f \<Longrightarrow> rets (\<lambda>x. pending_known env (fst x)) (flush_for_forced env f)"
  unfolding flush_for_forced_def rets_bnd
  by (rule rets_mono [OF closeWIPL2Block_known], assumption, erule rets_mono [OF waitPending_known(2)])
    (auto simp: Let_def split: option.split intro!: rets_mono [OF finalizeSIP_pkept] pkept_known)

text \<open>The batch that is closed now is not the last one before the halt.\<close>

definition goes_on :: "fin_env \<Rightarrow> finalizer \<Rightarrow> bool" where
  "goes_on env f \<longleftrightarrow> (\<forall>r. wipBatch f = Some r \<longrightarrow> batchNumber (store f r) + 1 \<noteq> HaltOnBatchNumber (cfg env))"

lemma counted_goes_on: "block_counted env f g \<Longrightarrow> goes_on env f \<Longrightarrow> goes_on env g"
  using counted_fields [of env f g] by (simp add: goes_on_def)

lemma open_batch_pkept: "pkept f g \<Longrightarrow> pkept f (snd (open_batch env n stRoot g))"
  by (simp add: open_batch_def tick_def new_batch_def)

lemma next_forced_ends:
  assumes "goes_on env f" and "lastL1InfoTreeValid f" and "services_progress env" and "pending_known env f"
  shows "ends (next_batch (\<lambda>f. initWIPL2Block (Suc (Suc (Suc n))) env f) env True stRoot f)"
proof (cases "wipBatch f")
  case (Some r)
  have init: "ends (initWIPL2Block (Suc (Suc (Suc n))) env (snd (open_batch env m rt g)))" if "lastL1InfoTreeValid g" "pkept f g" for m rt g
    by (rule initWIPL2Block_ends)
      (simp_all add: open_batch_fresh that assms(3) pkept_known [OF open_batch_pkept [OF that(2)] assms(4)])
  have "rets (\<lambda>x. lastL1InfoTreeValid (fst x) \<and> pkept f (fst x)) (processForcedBatches env (f\<lparr>wipBatch := None\<rparr>) m stRoot)" for m
  proof (rule retsI)
    fix x assume x: "processForcedBatches env (f\<lparr>wipBatch := None\<rparr>) m stRoot = Ret x"
    show "lastL1InfoTreeValid (fst x) \<and> pkept f (fst x)"
      using retsD [OF processForced_kept [of env] x] retsD [OF processForced_pkept x] assms(2) by (simp add: fkept_def pkept_def)
  qed
  note h = rets_mono [OF this]
  show ?thesis
    using Some assms(1) processForcedBatches_ends [OF assms(3)]
    by (auto simp: next_batch_def wip_def closeWIPBatch_def goes_on_def case_prod_beta intro!: h init rets_all [of _ "initWIPL2Block _ _ _"])
qed (simp add: next_batch_def wip_def)

lemma closeAndOpen_ends:
  assumes "goes_on env f" and "lastL1InfoTreeValid f" and "services_progress env" and "pending_known env f"
  shows "ends (closeAndOpenNewWIPBatch (Suc (Suc (Suc (Suc n)))) env reason f)"
proof (cases "wipBatch f")
  case (Some r)
  let ?f = "set_batch r ((store f r)\<lparr>closingReason := reason\<rparr>) f"
  have g: "goes_on env ?f" "lastL1InfoTreeValid ?f" using assms by (auto simp: goes_on_def set_batch_def)
  have k: "pending_known env ?f" using assms(4) by simp
  have "rets (\<lambda>x. goes_on env (fst x) \<and> lastL1InfoTreeValid (fst x) \<and> pending_known env (fst x)) (flush_for_forced env ?f)"
  proof (rule retsI)
    fix x assume x: "flush_for_forced env ?f = Ret x"
    show "goes_on env (fst x) \<and> lastL1InfoTreeValid (fst x) \<and> pending_known env (fst x)"
      using retsD [OF flush_counted x] retsD [OF flush_pending [OF k] x] g counted_goes_on counted_fields(4) by blast
  qed
  note h = rets_mono [OF this]
  have "no_halt env ?f" using g by (auto simp: goes_on_def no_halt_def)
  then show ?thesis
    using Some next_forced_ends [OF _ _ assms(3)] flush_ends [OF assms(3) k]
    by (auto simp: closeAndOpenNewWIPBatch.simps wip_def set_wip_def Let_def case_prod_beta next_batch_ends split: option.split intro!: h)
qed (simp add: closeAndOpenNewWIPBatch.simps wip_def Let_def)

section \<open>The next batch\<close>

text \<open>The batch that follows when there are no forced batches, before its block is opened.\<close>

lemma close_plain:
  assumes c: "closeAndOpenNewWIPBatch n env reason f = Ret (g, None)" and no: "nextForcedBatches f = []" and r: "wipBatch f = Some r"
  obtains t b where "b = openNewWIPBatch (constraints env) (l2Coinbase env) t (batchNumber (store f r) + 1) (imStateRoot (store f r))"
    "countOfL2Blocks (store f r) \<noteq> 0" "wipBatch g = Some (next_ref f)" "nextForcedBatches g = []" "next_ref g = next_ref f + 1"
    "lastL1InfoTreeValid g = lastL1InfoTreeValid f"
    "wipL2Block f = None \<Longrightarrow> wipL2Block g = None \<and>
       store g = (store f)(r := (store f r)\<lparr>closingReason := reason\<rparr>, next_ref f := b)"
    "\<And>l2. wipL2Block f = Some l2 \<Longrightarrow> wipL2Block g = Some (l2\<lparr>l2_batch := Some (next_ref f)\<rparr>) \<and>
       (\<exists>rem. br_SumUp rem \<lparr>br_ZKCounters = usedZKCountersOnNew l2, br_Bytes = l2_bytes l2\<rparr> = getMaxBatchResources (constraints env) \<and>
         store g = (store f)(r := (store f r)\<lparr>closingReason := reason\<rparr>, next_ref f := b\<lparr>imStateRoot := l2_imStateRoot l2, imRemainingResources := rem\<rparr>))"
proof -
  obtain m where n: "n = Suc m" using c by (cases n) (auto simp: closeAndOpenNewWIPBatch.simps)
  let ?f = "set_batch r ((store f r)\<lparr>closingReason := reason\<rparr>) f"
  have nb: "next_batch (\<lambda>f. initWIPL2Block m env f) env False (imStateRoot (store f r)) ?f = Ret (g, None)"
    using c no r n by (simp add: closeAndOpenNewWIPBatch.simps wip_def set_wip_def)
  obtain t where o: "open_batch env (batchNumber (store f r) + 1) (imStateRoot (store f r)) (?f\<lparr>wipBatch := None\<rparr>) =
      (next_ref f, ?f\<lparr>wipBatch := None, ticks := ticks f + 1, store := (store ?f)(next_ref f :=
         openNewWIPBatch (constraints env) (l2Coinbase env) t (batchNumber (store f r) + 1) (imStateRoot (store f r))),
       next_ref := next_ref f + 1, wipBatch := Some (next_ref f)\<rparr>)"
    using open_batch_eq [of env "batchNumber (store f r) + 1" "imStateRoot (store f r)" "?f\<lparr>wipBatch := None\<rparr>"]
    by (auto simp: set_batch_def)
  let ?b = "openNewWIPBatch (constraints env) (l2Coinbase env) t (batchNumber (store f r) + 1) (imStateRoot (store f r))"
  have ne: "countOfL2Blocks (store f r) \<noteq> 0"
    using nb r by (auto simp: next_batch_def wip_def closeWIPBatch_def batch_isEmpty_def split: if_splits)
  have nh: "batchNumber (store f r) + 1 \<noteq> HaltOnBatchNumber (cfg env)"
    using nb r by (auto simp: next_batch_def wip_def closeWIPBatch_def halt_on_def elim!: bnd_RetE split: if_splits option.splits)
  show ?thesis
  proof (cases "wipL2Block f")
    case None
    then show ?thesis using nb r o ne nh no
      by (intro that [of ?b t]) (auto simp: next_batch_def wip_def closeWIPBatch_def batch_isEmpty_def set_batch_def)
  next
    case (Some l2)
    let ?used = "\<lparr>br_ZKCounters = usedZKCountersOnNew l2, br_Bytes = l2_bytes l2\<rparr>"
    obtain rem ov nm where sub: "br_Sub (getMaxBatchResources (constraints env)) ?used = (rem, ov, nm)" by (cases "br_Sub (getMaxBatchResources (constraints env)) ?used")
    have "\<not> ov" using nb r o ne nh Some sub
      by (auto simp: next_batch_def wip_def closeWIPBatch_def batch_isEmpty_def set_batch_def reuse_block_def split: if_splits)
    then have "br_SumUp rem ?used = getMaxBatchResources (constraints env)"
      using br_Sub_flag [of "getMaxBatchResources (constraints env)" ?used] br_SumUp_Sub [of ?used "getMaxBatchResources (constraints env)"] sub by simp
    then show ?thesis using nb r o ne nh no Some sub
      by (intro that [of ?b t]) (auto simp: next_batch_def wip_def closeWIPBatch_def batch_isEmpty_def set_batch_def reuse_block_def split: if_splits)
  qed
qed

text \<open>An empty batch with its empty block, ready for transactions.\<close>

definition ready :: "fin_env \<Rightarrow> finalizer \<Rightarrow> batch_ref \<Rightarrow> bool" where
  "ready env f r \<longleftrightarrow> wipBatch f = Some r \<and> countOfL2Blocks (store f r) = 0 \<and> countOfTxs (store f r) = 0 \<and>
     (\<exists>l2. wipL2Block f = Some l2 \<and> l2_batch l2 = Some r \<and> transactions l2 = [] \<and> imStateRoot (store f r) = l2_imStateRoot l2 \<and>
       br_SumUp (imRemainingResources (store f r)) \<lparr>br_ZKCounters = usedZKCountersOnNew l2, br_Bytes = l2_bytes l2\<rparr> =
         getMaxBatchResources (constraints env))"

lemma openNewWIPBatch_txs [simp]: "countOfTxs (openNewWIPBatch c a t n h) = 0"
  by (simp add: openNewWIPBatch_def Let_def)

text \<open>A block opened in an empty batch takes its resources from it.\<close>

lemma openNew_plain:
  assumes o: "openNewWIPL2Block n env t i f = Ret g" and no: "nextForcedBatches f = []" and r: "wipBatch f = Some r"
    and e: "countOfL2Blocks (store f r) = 0" "countOfTxs (store f r) = 0"
      "imRemainingResources (store f r) = getMaxBatchResources (constraints env)"
  shows "ready env g r \<and> (\<forall>q. q \<noteq> r \<longrightarrow> store g q = store f q) \<and> batchNumber (store g r) = batchNumber (store f r) \<and>
    initialStateRoot (store g r) = initialStateRoot (store f r)"
proof -
  obtain m where n: "n = Suc m" using o by (cases n) (auto simp: openNewWIPL2Block.simps)
  obtain l2 h where mk: "make_block env t i f = (l2, h)" by fastforce
  note mp = make_block_props [OF mk]
  obtain k resp where x: "executeNewWIPL2Block env (h\<lparr>wipL2Block := Some l2\<rparr>) = Ret (h\<lparr>wipL2Block := Some l2, exec_calls := k\<rparr>, Inr resp)"
    and p: "place_block (\<lambda>f. closeAndOpenNewWIPBatch m env ResourceExhaustedClosingReason f) resp (h\<lparr>wipL2Block := Some l2, exec_calls := k\<rparr>) = Ret g"
    using o n mk retsD [OF executeNew_kept [of "h\<lparr>wipL2Block := Some l2\<rparr>" env]]
    by (fastforce simp: openNewWIPL2Block.simps elim!: bnd_RetE split: sum.splits if_splits)
  let ?h = "h\<lparr>wipL2Block := Some l2, exec_calls := k\<rparr>"
  obtain ok a where a: "account_block resp ?h = Ret (ok, a)" using p by (auto simp: place_block_def elim!: bnd_RetE)
  have ok: "ok"
  proof (rule ccontr)
    assume "\<not> ok"
    then obtain b where c: "closeAndOpenNewWIPBatch m env ResourceExhaustedClosingReason a = Ret (b, None)"
      using p a by (auto simp: place_block_def elim!: bnd_RetE split: if_splits)
    have k: "wipBatch a = Some r" "countOfL2Blocks (store a r) = 0" "nextForcedBatches a = []"
      using a mp r e no by (auto simp: account_block_def wip_def set_wip_def set_batch_def Let_def split: prod.splits)
    show False using c k(3,1) by (rule close_plain) (use k(2) in auto)
  qed
  obtain rem high where rs: "reserve (imRemainingResources (store f r)) (imHighReservedZKCounters (store f r))
      (reserve_hashes (pr_UsedZkCounters resp)) (reserve_hashes (pr_ReservedZkCounters resp)) changeL2BlockSize = (True, False, rem, high)"
    and a': "a = set_batch r ((store f r)\<lparr>imStateRoot := NewStateRoot resp, imRemainingResources := rem, imHighReservedZKCounters := high\<rparr>)
      (?h\<lparr>wipL2Block := Some (l2\<lparr>l2_imStateRoot := NewStateRoot resp, usedZKCountersOnNew := reserve_hashes (pr_UsedZkCounters resp),
         reservedZKCountersOnNew := reserve_hashes (pr_ReservedZkCounters resp), l2_bytes := changeL2BlockSize\<rparr>)\<rparr>)"
    using a ok mp r by (auto simp: account_block_def wip_def set_wip_def Let_def split: prod.splits)
  have "br_SumUp rem \<lparr>br_ZKCounters = reserve_hashes (pr_UsedZkCounters resp), br_Bytes = changeL2BlockSize\<rparr> =
      getMaxBatchResources (constraints env)"
    using reserve_props(3) [OF rs] br_SumUp_Sub e(3) by auto
  moreover have "g = a\<lparr>wipL2Block := Some (l2\<lparr>l2_imStateRoot := NewStateRoot resp, usedZKCountersOnNew := reserve_hashes (pr_UsedZkCounters resp),
         reservedZKCountersOnNew := reserve_hashes (pr_ReservedZkCounters resp), l2_bytes := changeL2BlockSize, l2_batch := Some r\<rparr>)\<rparr>"
    using p a ok a' mp r by (simp add: place_block_def set_batch_def)
  ultimately show ?thesis
    using a' mp r e by (auto simp: ready_def set_batch_def)
qed

lemma finalizeWIPBatch_new:
  assumes fin: "finalizeWIPBatch n env reason f = Ret g" and no: "nextForcedBatches f = []" and r: "wipBatch f = Some r" "r < next_ref f"
  shows "ready env g (next_ref f) \<and> batchNumber (store g (next_ref f)) = batchNumber (store f r) + 1 \<and>
    initialStateRoot (store g (next_ref f)) = imStateRoot (store g r) \<and> closingReason (store g r) = reason \<and>
    batchNumber (store g r) = batchNumber (store f r) \<and> countOfL2Blocks (store g r) \<noteq> 0"
proof -
  obtain l2 where l2: "wipL2Block f = Some l2" using fin by (cases "wipL2Block f") (auto simp: finalizeWIPBatch_def elim!: bnd_RetE)
  show ?thesis
  proof (cases "l2_isEmpty l2")
    case True
    obtain h where h: "closeAndOpenNewWIPBatch n env reason f = Ret (h, None)"
      and g: "(if wipL2Block h = None then openNewWIPL2Block n env (l2_timestamp l2) (Some (en_L1InfoTreeIndex (l1InfoTreeExitRoot l2))) h else Ret h) = Ret g"
      using fin l2 True by (auto simp: finalizeWIPBatch_def elim!: bnd_RetE split: if_splits)
    show ?thesis
      using h no r(1)
    proof (rule close_plain)
      fix t b
      assume b: "b = openNewWIPBatch (constraints env) (l2Coinbase env) t (batchNumber (store f r) + 1) (imStateRoot (store f r))"
        and c: "countOfL2Blocks (store f r) \<noteq> 0" "wipBatch h = Some (next_ref f)"
        and s: "\<And>l2. wipL2Block f = Some l2 \<Longrightarrow> wipL2Block h = Some (l2\<lparr>l2_batch := Some (next_ref f)\<rparr>) \<and>
          (\<exists>rem. br_SumUp rem \<lparr>br_ZKCounters = usedZKCountersOnNew l2, br_Bytes = l2_bytes l2\<rparr> = getMaxBatchResources (constraints env) \<and>
          store h = (store f)(r := (store f r)\<lparr>closingReason := reason\<rparr>, next_ref f := b\<lparr>imStateRoot := l2_imStateRoot l2, imRemainingResources := rem\<rparr>))"
      show ?thesis using s [OF l2] b c g r(2) True by (auto simp: ready_def l2_isEmpty_def)
    qed
  next
    case False
    obtain k where k: "closeWIPL2Block env f = Ret k" using fin l2 False by (auto simp: finalizeWIPBatch_def elim!: bnd_RetE)
    then obtain h where h: "closeAndOpenNewWIPBatch n env reason k = Ret (h, None)"
      and g: "(if wipL2Block h = None then openNewWIPL2Block n env (l2_timestamp l2) (Some (en_L1InfoTreeIndex (l1InfoTreeExitRoot l2))) h else Ret h) = Ret g"
      using fin l2 False by (auto simp: finalizeWIPBatch_def elim!: bnd_RetE split: if_splits)
    have kk: "wipL2Block k = None" "block_counted env f k" using retsD [OF closeWIPL2Block_closed k] by auto
    note kf = counted_fields [OF kk(2)]
    have kn: "nextForcedBatches k = []" "wipBatch k = Some r" using kf no r by auto
    show ?thesis
      using h kn
    proof (rule close_plain)
      fix t b
      assume b: "b = openNewWIPBatch (constraints env) (l2Coinbase env) t (batchNumber (store k r) + 1) (imStateRoot (store k r))"
        and c: "countOfL2Blocks (store k r) \<noteq> 0" "wipBatch h = Some (next_ref k)" "nextForcedBatches h = []"
        and s: "wipL2Block k = None \<Longrightarrow> wipL2Block h = None \<and>
          store h = (store k)(r := (store k r)\<lparr>closingReason := reason\<rparr>, next_ref k := b)"
      have o: "openNewWIPL2Block n env (l2_timestamp l2) (Some (en_L1InfoTreeIndex (l1InfoTreeExitRoot l2))) h = Ret g"
        using g s [OF kk(1)] by simp
      have "store h (next_ref k) = b" "store h r = (store k r)\<lparr>closingReason := reason\<rparr>" using s [OF kk(1)] r(2) kf by auto
      then show ?thesis using openNew_plain [OF o c(3,2)] b c(1) kf r(2) by auto
    qed
  qed
qed

text \<open>Finalizing a batch comes to an end.\<close>

lemma openNew_block: "rets (\<lambda>g. wipL2Block g \<noteq> None) (openNewWIPL2Block n env t i f)"
proof (cases n)
  case (Suc m)
  have "rets (\<lambda>g. wipL2Block g \<noteq> None) (place_block c resp h)" for c resp h
    by (rule retsI) (auto simp: place_block_def elim!: bnd_RetE split: option.splits)
  then show ?thesis
    by (auto simp: Suc openNewWIPL2Block.simps case_prod_beta split: sum.split intro!: rets_all)
qed (simp add: openNewWIPL2Block.simps)

lemma initWIPL2Block_block: "rets (\<lambda>g. wipL2Block g \<noteq> None) (initWIPL2Block n env f)"
proof (cases n)
  case (Suc m)
  show ?thesis using openNew_block by (simp add: Suc initWIPL2Block.simps split: sum.split)
qed (simp add: initWIPL2Block.simps)

lemma close_keeps_block:
  assumes "wipL2Block f = Some l2"
  shows "rets (\<lambda>x. snd x = None \<longrightarrow> wipL2Block (fst x) \<noteq> None) (closeAndOpenNewWIPBatch n env reason f)"
proof (rule retsI, rule impI)
  fix x assume x: "closeAndOpenNewWIPBatch n env reason f = Ret x" "snd x = None"
  then have c: "closeAndOpenNewWIPBatch n env reason f = Ret (fst x, None)" by (cases x) simp
  obtain m where n: "n = Suc m" using c by (cases n) (auto simp: closeAndOpenNewWIPBatch.simps)
  obtain r where r: "wipBatch f = Some r" using c n by (cases "wipBatch f") (auto simp: closeAndOpenNewWIPBatch.simps wip_def Let_def)
  show "wipL2Block (fst x) \<noteq> None"
  proof (cases "nextForcedBatches f = []")
    case True
    show ?thesis using c True r by (rule close_plain) (use assms in auto)
  next
    case False
    then obtain h rt where "next_batch (\<lambda>f. initWIPL2Block m env f) env True rt h = Ret (fst x, None)"
      using c n r by (auto simp: closeAndOpenNewWIPBatch.simps wip_def set_wip_def elim!: bnd_RetE split: option.splits)
    then show ?thesis
      using initWIPL2Block_block
      by (auto simp: next_batch_def halt_on_def rets_def case_prod_beta elim!: bnd_RetE split: if_splits option.splits)
  qed
qed

text \<open>With forced batches pending, a batch without a block in progress cannot be closed.\<close>

lemma close_forced_no_block:
  assumes "wipL2Block f = None" and "nextForcedBatches f \<noteq> []"
  shows "rets (\<lambda>_. False) (closeAndOpenNewWIPBatch n env reason f)"
proof (cases n)
  case (Suc m)
  show ?thesis
    using assms by (auto simp: Suc closeAndOpenNewWIPBatch.simps wip_def set_wip_def flush_for_forced_def closeWIPL2Block_def
      split: option.split)
qed (simp add: closeAndOpenNewWIPBatch.simps)

lemma close_plain_pkept:
  assumes "closeAndOpenNewWIPBatch n env reason f = Ret (g, None)" and "nextForcedBatches f = []"
  shows "pkept f g"
proof -
  obtain m where n: "n = Suc m" using assms(1) by (cases n) (auto simp: closeAndOpenNewWIPBatch.simps)
  have "rets (\<lambda>x. snd x = None \<longrightarrow> pkept f (fst x)) (next_batch ib env False stRoot h)" if "pkept f h" for ib stRoot h
  proof (rule retsI, rule impI)
    fix x assume x: "next_batch ib env False stRoot h = Ret x" "snd x = None"
    then obtain b where b: "wip h = Ret b" "batchNumber b + 1 \<noteq> HaltOnBatchNumber (cfg env)"
      by (auto simp: next_batch_def closeWIPBatch_def halt_on_def elim!: bnd_RetE split: if_splits option.splits)
    obtain r h' where o: "open_batch env (batchNumber b + 1) stRoot (h\<lparr>wipBatch := None\<rparr>) = (r, h')" by fastforce
    have "pkept f h'" using open_batch_pkept [of f "h\<lparr>wipBatch := None\<rparr>" env "batchNumber b + 1" stRoot] o that by simp
    then show "pkept f (fst x)"
      using x b o by (auto simp: next_batch_def closeWIPBatch_def reuse_block_def elim!: bnd_RetE split: if_splits option.splits prod.splits)
  qed
  note nb = retsD [OF this]
  show ?thesis
  proof (cases "wipBatch f")
    case (Some r)
    have "pkept f (set_batch r ((store f r)\<lparr>closingReason := reason\<rparr>) f)" by simp
    from nb [OF this] show ?thesis
      using assms Some n by (auto simp: closeAndOpenNewWIPBatch.simps wip_def set_wip_def)
  qed (use assms n in \<open>simp add: closeAndOpenNewWIPBatch.simps wip_def Let_def\<close>)
qed

lemma finalizeWIPBatch_ends:
  assumes go: "goes_on env f" and valid: "lastL1InfoTreeValid f" and serves: "services_progress env" and known: "pending_known env f"
  shows "ends (finalizeWIPBatch (Suc (Suc (Suc (Suc n)))) env reason f)"
proof (cases "wipL2Block f")
  case (Some l2)
  let ?n = "Suc (Suc (Suc (Suc n)))"
  show ?thesis
  proof (cases "l2_isEmpty l2")
    case True
    have "rets (\<lambda>x. snd x = None \<longrightarrow> wipL2Block (fst x) \<noteq> None) (closeAndOpenNewWIPBatch ?n env reason f)"
      by (rule close_keeps_block [OF Some])
    then show ?thesis
      using Some True closeAndOpen_ends [OF go valid serves known]
      by (auto simp: finalizeWIPBatch_def wip_def rets_def split: option.split)
  next
    case False
    have close: "ends (closeAndOpenNewWIPBatch ?n env reason k)" and
      opened: "rets (\<lambda>x. snd x = None \<longrightarrow> no_halt env (fst x) \<and> pending_known env (fst x)) (closeAndOpenNewWIPBatch ?n env reason k)"
      if k: "wipL2Block k = None" "block_counted env f k" "pending_known env k" for k
    proof -
      note kf = counted_fields [OF k(2)]
      have nh: "no_halt env k" using go kf by (auto simp: goes_on_def no_halt_def)
      show "ends (closeAndOpenNewWIPBatch ?n env reason k)" by (rule close_no_batch_ends) (use k nh serves in auto)
      show "rets (\<lambda>x. snd x = None \<longrightarrow> no_halt env (fst x) \<and> pending_known env (fst x)) (closeAndOpenNewWIPBatch ?n env reason k)"
      proof (rule retsI, rule impI)
        fix x assume "closeAndOpenNewWIPBatch ?n env reason k = Ret x" "snd x = None"
        then have c: "closeAndOpenNewWIPBatch ?n env reason k = Ret (fst x, None)" by (cases x) simp
        then obtain r where r: "wipBatch k = Some r" by (cases "wipBatch k") (auto simp: closeAndOpenNewWIPBatch.simps wip_def Let_def)
        have nf: "nextForcedBatches k = []"
          using retsD [OF close_forced_no_block [OF k(1)] c] by blast
        have "no_halt env (fst x)" using c nf r by (rule close_plain) (use k(1) in \<open>auto simp: no_halt_def\<close>)
        then show "no_halt env (fst x) \<and> pending_known env (fst x)" using pkept_known [OF close_plain_pkept [OF c nf] k(3)] by simp
      qed
    qed
    have "rets (\<lambda>k. ends (closeAndOpenNewWIPBatch ?n env reason k) \<and>
        rets (\<lambda>x. snd x = None \<longrightarrow> no_halt env (fst x) \<and> pending_known env (fst x)) (closeAndOpenNewWIPBatch ?n env reason k)) (closeWIPL2Block env f)"
    proof (rule retsI)
      fix k assume c: "closeWIPL2Block env f = Ret k"
      show "ends (closeAndOpenNewWIPBatch ?n env reason k) \<and>
          rets (\<lambda>x. snd x = None \<longrightarrow> no_halt env (fst x) \<and> pending_known env (fst x)) (closeAndOpenNewWIPBatch ?n env reason k)"
        using close opened retsD [OF closeWIPL2Block_closed c] retsD [OF closeWIPL2Block_known [OF known] c] by blast
    qed
    note h = rets_mono [OF this]
    show ?thesis
      using Some False closeWIPL2Block_ends [OF serves known] serves
      by (auto simp: finalizeWIPBatch_def wip_def case_prod_beta split: option.split intro!: h elim!: rets_mono intro: openNew_ends)
  qed
qed (auto simp: finalizeWIPBatch_def wip_def split: option.split)

text \<open>With forced batches pending, a block that has transactions makes the call panic once the block is closed.\<close>

lemma close_forced_no_block_panics:
  assumes "wipL2Block f = None" and "nextForcedBatches f \<noteq> []"
  shows "closeAndOpenNewWIPBatch (Suc n) env reason f = Panic"
  using assms by (auto simp: closeAndOpenNewWIPBatch.simps wip_def set_wip_def set_batch_def flush_for_forced_def closeWIPL2Block_def
    split: option.split)

lemma finalizeWIPBatch_forced:
  assumes "nextForcedBatches f \<noteq> []" and "wipL2Block f = Some l2" and "\<not> l2_isEmpty l2" and c: "closeWIPL2Block env f = Ret g"
  shows "finalizeWIPBatch (Suc n) env reason f = Panic"
proof -
  have g: "wipL2Block g = None" "block_counted env f g" using retsD [OF closeWIPL2Block_closed c] by auto
  have "nextForcedBatches g \<noteq> []" using counted_fields(1) [OF g(2)] assms(1) by simp
  then show ?thesis
    using assms(2,3) c close_forced_no_block_panics [OF g(1)]
    by (auto simp: finalizeWIPBatch_def wip_def closeWIPL2Block_def split: option.splits)
qed

end
