(* ===== verification/FinalizerInvariant.thy ===== *)
theory FinalizerInvariant
  imports LifecycleProofs
begin

text \<open>
  The invariant of the whole finalizer: through every iteration of its loop, and while the
  goroutines behind the channels process and store L2 blocks, the worker and the table of batches stay well formed.
\<close>

section \<open>The table of batches\<close>

definition tkept :: "finalizer \<Rightarrow> finalizer \<Rightarrow> bool" where
  "tkept f f' \<longleftrightarrow> (rows_wf (state_batches f) \<longrightarrow> rows_wf (state_batches f'))"

lemma tkept_same [simp]: "state_batches f' = state_batches f \<Longrightarrow> tkept f f'"
  by (simp add: tkept_def)

lemma tkept_trans: "tkept f g \<Longrightarrow> tkept g h \<Longrightarrow> tkept f h"
  by (simp add: tkept_def)

lemma tkept_simps [simp]:
  "tkept f (g\<lparr>exec_calls := n\<rparr>) = tkept f g" "tkept f (g\<lparr>ticks := n\<rparr>) = tkept f g" "tkept f (g\<lparr>db_calls := n\<rparr>) = tkept f g"
  "tkept f (g\<lparr>sipBatch := p\<rparr>) = tkept f g" "tkept f (g\<lparr>stored_blocks := sb\<rparr>) = tkept f g" "tkept f (g\<lparr>worker := w\<rparr>) = tkept f g"
  "tkept f (g\<lparr>wipL2Block := b\<rparr>) = tkept f g" "tkept f (g\<lparr>wipBatch := p\<rparr>) = tkept f g" "tkept f (g\<lparr>pipBatch := p\<rparr>) = tkept f g"
  "tkept f (g\<lparr>pendingL2BlocksToStore := bs\<rparr>) = tkept f g" "tkept f (g\<lparr>pendingL2BlocksToProcess := bs\<rparr>) = tkept f g"
  "tkept f (g\<lparr>l2BlockReorg := x\<rparr>) = tkept f g" "tkept f (g\<lparr>lastL2BlockWasReorg := x\<rparr>) = tkept f g"
  "tkept f (g\<lparr>nextForcedBatches := fs\<rparr>) = tkept f g" "tkept f (g\<lparr>nextForcedBatchDeadline := d\<rparr>) = tkept f g"
  "tkept f (g\<lparr>store := st\<rparr>) = tkept f g" "tkept f (g\<lparr>next_ref := n\<rparr>) = tkept f g" "tkept f (g\<lparr>l2BlockCounter := k\<rparr>) = tkept f g"
  "tkept f (g\<lparr>storedFlushID := v\<rparr>) = tkept f g" "tkept f (updateFlushIDs i j g) = tkept f g" "tkept f (set_batch r ba g) = tkept f g"
  "tkept f (scheduleNextStateRootSync env g) = tkept f g" "tkept f (fst (UpdateTxStatus env g h ts y)) = tkept f g"
  by (simp_all add: tkept_def updateFlushIDs_def set_batch_def scheduleNextStateRootSync_def tick_def UpdateTxStatus_def)

text \<open>Each statement that the finalizer runs keeps the table well formed.\<close>

lemma statement_kept:
  "tkept f g \<Longrightarrow> run_statement st (state_batches g) = Inr rows \<Longrightarrow> \<not> sets_time st \<Longrightarrow> tkept f (g\<lparr>state_batches := rows\<rparr>)"
  by (auto simp: tkept_def intro: run_statement_wf)

lemma statements:
  "tkept f g \<Longrightarrow> t = state_batches g \<Longrightarrow> tkept f (g\<lparr>state_batches := CloseWIPBatch rc t\<rparr>)"
  "tkept f g \<Longrightarrow> t = state_batches g \<Longrightarrow> tkept f (g\<lparr>state_batches := UpdateWIPBatch rc t\<rparr>)"
  "tkept f g \<Longrightarrow> t = state_batches g \<Longrightarrow> tkept f (g\<lparr>state_batches := UpdateBatchAsChecked n t\<rparr>)"
  "tkept f g \<Longrightarrow> OpenWIPBatch b (state_batches g) = Inr rows \<Longrightarrow> tkept f (g\<lparr>state_batches := rows\<rparr>)"
  "tkept f g \<Longrightarrow> OpenBatch c (state_batches g) = Inr rows \<Longrightarrow> tkept f (g\<lparr>state_batches := rows\<rparr>)"
  "tkept f g \<Longrightarrow> CloseBatch rc (state_batches g) = Inr rows \<Longrightarrow> tkept f (g\<lparr>state_batches := rows\<rparr>)"
  using statement_kept [of f g "DoCloseWIPBatch rc"] statement_kept [of f g "DoUpdateWIPBatch rc"]
    statement_kept [of f g "DoUpdateBatchAsChecked n"] statement_kept [of f g "DoOpenWIPBatch b"]
    statement_kept [of f g "DoOpenBatch c"] statement_kept [of f g "DoCloseBatch rc"]
  by simp_all

lemma tkept_chain: "rets (tkept g) m \<Longrightarrow> tkept f g \<Longrightarrow> rets (tkept f) m"
  by (auto elim!: rets_mono intro: tkept_trans)

lemma tkept_chain2: "rets (\<lambda>x. tkept g (fst x)) m \<Longrightarrow> tkept f g \<Longrightarrow> rets (\<lambda>x. tkept f (fst x)) m"
  by (auto elim!: rets_mono intro: tkept_trans)

lemma sanity_table: "rets (\<lambda>x. tkept f (fst x)) (batchSanityCheck env f n i x)"
proof (rule retsI)
  fix y assume "batchSanityCheck env f n i x = Ret y"
  then show "tkept f (fst y)"
    by (auto simp: batchSanityCheck_def db_def tick_def Let_def reprocessError_Ret elim!: bnd_RetE split: option.splits sum.splits
        intro!: statements(3))
qed

lemma closeSIP_table: "rets (\<lambda>x. tkept f (fst x)) (closeSIPBatch env f)"
proof -
  have "rets (\<lambda>x. tkept f (fst x)) (batchSanityCheck env (f\<lparr>db_calls := k, state_batches := CloseWIPBatch rc (state_batches f)\<rparr>) n i x)" for k rc n i x
    by (rule tkept_chain2 [OF sanity_table]) (auto intro!: statements(1))
  note h = rets_mono [OF this]
  show ?thesis
    by (auto simp: closeSIPBatch_def db_def Let_def split: option.split intro!: h)
qed

lemma insertSIP_table: "rets (\<lambda>x. tkept f (fst x)) (insertSIPBatch env f n r)"
proof (rule retsI)
  fix y assume "insertSIPBatch env f n r = Ret y"
  then show "tkept f (fst y)"
    by (auto simp: insertSIPBatch_def db_def tick_def split: option.splits sum.splits elim!: bnd_RetE wait_synced_Ret intro!: statements(4))
qed

lemma finalizeSIP_table: "rets (\<lambda>x. tkept f (fst x)) (finalizeSIPBatch env f)"
proof -
  have "rets (\<lambda>x. tkept f (fst x)) (closeSIPBatch env (f\<lparr>db_calls := k\<rparr>))" for k
    by (rule tkept_chain2 [OF closeSIP_table]) simp
  note h = rets_mono [OF this]
  show ?thesis
    by (auto simp: finalizeSIPBatch_def db_def Let_def split: option.split intro!: h)
qed

lemma switch_sip_table: "rets (\<lambda>x. tkept f (fst x)) (switch_sip env f r)"
proof -
  have "rets (\<lambda>x. tkept f (fst x)) (insertSIPBatch env g n rt)" if "tkept f g" for g n rt
    by (rule tkept_chain2 [OF insertSIP_table that])
  note h = rets_mono [OF this]
  show ?thesis
    by (auto simp: switch_sip_def Let_def split: option.split intro!: h rets_mono [OF closeSIP_table])
qed

lemma store_rows_table: "rets (\<lambda>x. tkept f (fst x)) (store_rows env f b l2 resp blk)"
  by (auto simp: store_rows_def db_def Let_def split: option.split sum.split intro!: rets_all statements(2))

lemma store_in_tx_table: "rets (\<lambda>x. tkept f (fst x)) (store_in_tx env f r l2 resp blk)"
proof -
  have "rets (\<lambda>x. tkept f (fst x)) (store_rows env g b l2 resp blk)" if "tkept f g" for g b
    by (rule tkept_chain2 [OF store_rows_table that])
  note h = rets_mono [OF this]
  show ?thesis
    by (auto simp: store_in_tx_def db_def intro!: rets_mono [OF switch_sip_table] h)
qed

lemma after_store_table: "rets (\<lambda>x. tkept f (fst x)) (after_store env l2 blk f)"
  using after_store_kept by (fastforce intro!: retsI simp: tkept_def)

lemma storeL2Block_table: "rets (\<lambda>x. tkept f (fst x)) (storeL2Block env f l2)"
proof -
  have w: "rets (\<lambda>g. state_batches g = state_batches f) (wait_flush env i f)" for i
    by (rule retsI) (auto elim!: wait_flush_Ret)
  have "rets (\<lambda>x. tkept f (fst x)) (store_in_tx env g r l2 resp blk)" if "state_batches g = state_batches f" for g r resp blk
    by (rule tkept_chain2 [OF store_in_tx_table]) (simp add: that)
  note h = rets_mono [OF this]
  have r: "tkept f (rollback (state_batches f) bs k)" for bs k by (simp add: tkept_def rollback_def)
  show ?thesis
    using r by (auto simp: storeL2Block_def db_def split: option.split list.split
      intro!: rets_mono [OF w] h tkept_chain2 [OF after_store_table])
qed

lemma store_all_table: "rets (tkept f) (store_all env bs f)"
proof (induction bs arbitrary: f)
  case (Cons b bs)
  have "rets (tkept f) (store_all env bs g)" if "tkept f g" for g by (rule tkept_chain [OF Cons that])
  then show ?case by (auto intro!: rets_mono [OF storeL2Block_table])
qed simp

lemma store_pending_table: "rets (tkept f) (store_pending env f)"
  unfolding store_pending_def by (rule tkept_chain [OF store_all_table]) simp

section \<open>Worker and table\<close>

definition sound :: "fin_env \<Rightarrow> finalizer \<Rightarrow> finalizer \<Rightarrow> bool" where
  "sound env f f' \<longleftrightarrow> wf_kept env f f' \<and> tkept f f'"

lemma sound_refl [simp]: "worker f' = worker f \<Longrightarrow> state_batches f' = state_batches f \<Longrightarrow> sound env f f'"
  by (simp add: sound_def)

lemma sound_trans: "sound env f g \<Longrightarrow> sound env g h \<Longrightarrow> sound env f h"
  by (auto simp: sound_def intro: wf_kept_trans tkept_trans)

lemma sound_cong: "worker g = worker h \<Longrightarrow> state_batches g = state_batches h \<Longrightarrow> sound env f g = sound env f h"
  by (simp add: sound_def wf_kept_def tkept_def)

lemma sound_chain: "rets (sound env g) m \<Longrightarrow> sound env f g \<Longrightarrow> rets (sound env f) m"
  by (auto elim!: rets_mono intro: sound_trans)

lemma sound_chain2: "rets (\<lambda>x. sound env g (fst x)) m \<Longrightarrow> sound env f g \<Longrightarrow> rets (\<lambda>x. sound env f (fst x)) m"
  by (auto elim!: rets_mono intro: sound_trans)

lemma rets_conj: "rets P m \<Longrightarrow> rets Q m \<Longrightarrow> rets (\<lambda>x. P x \<and> Q x) m"
  by (simp add: rets_def)

lemma accept_block_table: "rets (\<lambda>x. tkept f (fst x)) (accept_block env l2 resp n f)"
proof -
  have "rets (tkept f) (store_pending env (updateFlushIDs i j (set_batch r b f)))" for i j r b
    by (rule tkept_chain [OF store_pending_table]) simp
  note h = rets_mono [OF this]
  show ?thesis
    by (auto simp: accept_block_def Let_def split: option.split prod.split intro!: h)
qed

lemma processL2Block_table: "rets (\<lambda>x. tkept f (fst x)) (processL2Block env f l2)"
proof -
  have n: "rets (tkept f) (next_pip l2 f)" by (auto simp: next_pip_def Let_def split: option.split)
  have e: "rets (\<lambda>x. tkept f (fst x)) (executeL2Block env g rt l2)" if "tkept f g" for g rt
    using that by (auto simp: executeL2Block_def Let_def split: option.split sum.split)
  have a: "rets (\<lambda>x. tkept f (fst x)) (accept_block env l2 resp k g)" if "tkept f g" for g resp k
    by (rule tkept_chain2 [OF accept_block_table that])
  show ?thesis
    unfolding processL2Block_def
    by (simp only: rets_bnd, rule rets_mono [OF n])
      (auto split: option.split sum.split intro!: rets_mono [OF e] a)
qed

lemma process_all_table: "rets (tkept f) (process_all env bs f)"
proof (induction bs arbitrary: f)
  case (Cons l2 bs)
  have "rets (tkept f) (process_all env bs g)" if "tkept f g" for g by (rule tkept_chain [OF Cons that])
  then show ?case by (auto intro!: rets_mono [OF processL2Block_table])
qed simp

lemma waitPending_table: "rets (tkept f) (process_pending env f)" "rets (tkept f) (waitPendingL2Blocks env f)"
proof -
  show p: "rets (tkept f) (process_pending env f)"
    unfolding process_pending_def by (rule tkept_chain [OF process_all_table]) simp
  show "rets (tkept f) (waitPendingL2Blocks env f)"
    unfolding waitPendingL2Blocks_def rets_bnd by (rule rets_mono [OF p]) (rule tkept_chain [OF store_pending_table])
qed

lemma sync_state_root_table: "rets (tkept f) (sync_state_root env f)"
proof -
  have "rets (tkept f) (waitPendingL2Blocks env (f\<lparr>ticks := n\<rparr>))" for n by (rule tkept_chain [OF waitPending_table(2)]) simp
  note h = rets_mono [OF this]
  have "rets (tkept f) (sync_root g)" if "tkept f g" for g
    using that by (auto simp: sync_root_def wip_def set_wip_def split: option.split)
  then show ?thesis
    by (auto simp: sync_state_root_def tick_def split: option.split intro!: h rets_all [of _ "wip _"])
qed

lemma closeWIPL2Block_table: "rets (tkept f) (closeWIPL2Block env f)"
proof (cases "wipBatch f")
  case (Some r)
  let ?g = "set_batch r ((store f r)\<lparr>countOfL2Blocks := countOfL2Blocks (store f r) + 1\<rparr>) f"
  have p: "rets (\<lambda>x. tkept f (fst x)) (processL2Block env ?g l2)" for l2
    by (rule tkept_chain2 [OF processL2Block_table]) simp
  have q: "rets (tkept f) (process_pending env ?g)" by (rule tkept_chain [OF waitPending_table(1)]) simp
  have s: "rets (tkept f) (sync_root g)" if "tkept f g" for g
    using that by (auto simp: sync_root_def wip_def set_wip_def split: option.split)
  have t: "rets (tkept f) (sync_state_root env g)" if "tkept f g" for g by (rule tkept_chain [OF sync_state_root_table that])
  show ?thesis
    using Some by (auto simp: closeWIPL2Block_def wip_def set_wip_def split: option.split
      intro!: rets_mono [OF p] rets_mono [OF q] s t)
qed (auto simp: closeWIPL2Block_def wip_def split: option.split)

lemma forced_txs_table: "rets (tkept f) (forced_txs env resp rs f)"
  using forced_txs_same by (fastforce intro!: retsI simp: same_table_def)

lemma forced_blocks_table: "rets (\<lambda>x. tkept f (fst x)) (forced_blocks env n resp bs f)"
  using forced_blocks_same by (fastforce intro!: retsI simp: same_table_def)

lemma handleForced_table: "rets (\<lambda>x. tkept f (fst x)) (handleProcessForcedBatchResponse env n resp f)"
  using handleForced_same by (fastforce intro!: retsI simp: same_table_def)

lemma forced_close_table: "rets (\<lambda>x. tkept f (fst x)) (forced_close env fb n resp f)"
proof -
  have "rets (\<lambda>x. tkept f (fst x)) (handleProcessForcedBatchResponse env n resp g)" if "tkept f g" for g
    by (rule tkept_chain2 [OF handleForced_table that])
  note h = rets_mono [OF this]
  show ?thesis
    by (auto simp: forced_close_def db_def split: option.split sum.split intro!: h statements(6))
qed

lemma forced_body_table_kept: "rets (\<lambda>x. tkept f (fst x)) (forced_body env fb parent n stRoot f)"
proof -
  have "rets (\<lambda>x. tkept f (fst x)) (forced_close env fb m resp g)" if "tkept f g" for g m resp
    by (rule tkept_chain2 [OF forced_close_table that])
  note h = rets_mono [OF this]
  have o: "tkept f (f\<lparr>ticks := t, db_calls := k, state_batches := rows, exec_calls := e\<rparr>)"
    if "OpenBatch c (state_batches f) = Inr rows" for t k rows e c
    using statements(5) [of f "f\<lparr>ticks := t, db_calls := k\<rparr>" c rows] that by simp
  show ?thesis
    by (auto simp: forced_body_def db_def tick_def split: option.split sum.split intro!: h o)
qed

lemma processForcedBatch_table_kept: "rets (\<lambda>x. tkept f (fst x)) (processForcedBatch env f fb n stRoot)"
proof -
  have "rets (\<lambda>x. tkept f (fst x)) (forced_body env fb parent n stRoot (f\<lparr>db_calls := k\<rparr>))" for k parent
    by (rule tkept_chain2 [OF forced_body_table_kept]) simp
  note h = rets_mono [OF this]
  have "tkept f (rollback (state_batches f) bs g)" for bs g by (simp add: tkept_def rollback_def)
  then show ?thesis
    by (auto simp: processForcedBatch_def db_def Let_def split: option.split sum.split intro!: h)
qed

lemma forced_loop_table: "rets (\<lambda>x. tkept f (fst x)) (forced_loop env fbs next n stRoot f)"
proof (induction fbs arbitrary: "next" n stRoot f)
  case (Cons fb fbs)
  have "rets (\<lambda>x. tkept f (fst x)) (forced_loop env fbs k m rt g)" if "tkept f g" for k m rt g
    by (rule tkept_chain2 [OF Cons that])
  then show ?case by (auto split: sum.split intro!: rets_mono [OF processForcedBatch_table_kept])
qed simp

lemma processForced_sound: "rets (\<lambda>x. sound env f (fst x)) (processForcedBatches env f n stRoot)"
proof -
  have "rets (\<lambda>x. tkept f (fst x)) (processForcedBatches env f n stRoot)"
    by (auto simp: processForcedBatches_def db_def split: option.split intro!: tkept_chain2 [OF forced_loop_table])
  from rets_conj [OF this processForced_kept [of env]] show ?thesis
    by (rule rets_mono) (simp add: sound_def fkept_def)
qed

lemma closeWIPL2Block_sound: "rets (sound env f) (closeWIPL2Block env f)"
  by (rule rets_mono [OF rets_conj [OF closeWIPL2Block_table closeWIPL2Block_closed [of env]]])
    (use counted_fields(7) in \<open>auto simp: sound_def\<close>)

lemma waitPending_sound: "rets (sound env f) (waitPendingL2Blocks env f)"
  by (rule rets_mono [OF rets_conj [OF waitPending_table(2) waitPending_carried [of env]]]) (simp add: sound_def carried_def)

lemma finalizeSIP_sound: "rets (\<lambda>x. sound env f (fst x)) (finalizeSIPBatch env f)"
  by (rule rets_mono [OF rets_conj [OF finalizeSIP_table finalizeSIP_kept [of env]]]) (simp add: sound_def kept_def)

lemma flush_sound: "rets (\<lambda>x. sound env f (fst x)) (flush_for_forced env f)"
proof -
  have w: "rets (sound env f) (waitPendingL2Blocks env g)" if "sound env f g" for g by (rule sound_chain [OF waitPending_sound that])
  have "rets (\<lambda>x. sound env f (fst x)) (finalizeSIPBatch env g)" if "sound env f g" for g
    by (rule sound_chain2 [OF finalizeSIP_sound that])
  note h = rets_mono [OF this]
  show ?thesis
    unfolding flush_for_forced_def rets_bnd
    by (rule rets_mono [OF closeWIPL2Block_sound [of env]], rule rets_mono [OF w])
      (auto simp: Let_def split: option.split intro!: h)
qed

lemma halt_on_sound: "rets (\<lambda>x. sound env f (fst x)) (halt_on env f)"
proof -
  have "rets (\<lambda>x. sound env f (fst x)) (finalizeSIPBatch env g)" if "sound env f g" for g
    by (rule sound_chain2 [OF finalizeSIP_sound that])
  note h = rets_mono [OF this]
  show ?thesis
    by (auto simp: halt_on_def split: option.split intro!: rets_mono [OF waitPending_sound [of env]] h)
qed

lemma open_batch_sound: "sound env f g \<Longrightarrow> sound env f (snd (open_batch env' n stRoot g))"
  by (auto simp: open_batch_def tick_def new_batch_def cong: sound_cong elim!: sound_trans)

lemma reuse_sound: "sound env f g \<Longrightarrow> sound env f (fst (reuse_block r l2 g))"
  by (auto simp: reuse_block_def set_batch_def split: prod.split elim!: sound_trans)

lemma next_batch_sound:
  assumes "\<And>g. rets (sound env g) (ib g)"
  shows "rets (\<lambda>x. sound env f (fst x)) (next_batch ib env forced stRoot f)"
proof (cases "wipBatch f")
  case (Some r)
  let ?f = "f\<lparr>wipBatch := None\<rparr>"
  have s: "sound env f ?f" by simp
  note forcedb = sound_chain2 [OF processForced_sound s]
  have i: "rets (sound env f) (ib (snd (open_batch env n rt g)))" if "sound env f g" for n rt g
    by (rule sound_chain [OF assms open_batch_sound [OF that]])
  show ?thesis
    using Some
    by (auto simp: next_batch_def wip_def closeWIPBatch_def case_prod_beta split: option.split
      intro!: sound_chain2 [OF halt_on_sound s] rets_mono [OF forcedb] i open_batch_sound reuse_sound)
qed (simp add: next_batch_def wip_def)

lemma place_block_sound:
  assumes "\<And>g. rets (\<lambda>x. sound env g (fst x)) (c g)"
  shows "rets (sound env f) (place_block c resp f)"
proof -
  have a: "rets (\<lambda>x. sound env f (snd x)) (account_block resp f)"
    by (auto simp: account_block_def wip_def set_wip_def set_batch_def Let_def split: option.split prod.split)
  have "rets (\<lambda>x. sound env f (fst x)) (c g)" if "sound env f g" for g by (rule sound_chain2 [OF assms that])
  note h = rets_mono [OF this]
  have w: "sound env f (g\<lparr>wipL2Block := b\<rparr>)" if "sound env f g" for g b using that by (simp cong: sound_cong)
  show ?thesis
    by (auto simp: place_block_def split: option.split intro!: rets_mono [OF a] h w)
qed

lemma lifecycle_sound:
  "rets (\<lambda>x. sound env f (fst x)) (closeAndOpenNewWIPBatch n env reason f)"
  "rets (sound env f) (openNewWIPL2Block n env t i f)"
  "rets (sound env f) (initWIPL2Block n env f)"
proof (induction n arbitrary: f reason t i)
  case 0
  show "rets (\<lambda>x. sound env f (fst x)) (closeAndOpenNewWIPBatch 0 env reason f)"
    "rets (sound env f) (openNewWIPL2Block 0 env t i f)" "rets (sound env f) (initWIPL2Block 0 env f)" for f reason t i
    by (simp_all add: closeAndOpenNewWIPBatch.simps openNewWIPL2Block.simps initWIPL2Block.simps)
next
  case (Suc n)
  show "rets (\<lambda>x. sound env f (fst x)) (closeAndOpenNewWIPBatch (Suc n) env reason f)" for f reason
  proof (cases "wipBatch f")
    case (Some r)
    let ?f = "set_batch r ((store f r)\<lparr>closingReason := reason\<rparr>) f"
    have s: "sound env f ?f" by (simp add: set_batch_def)
    have n: "rets (\<lambda>x. sound env f (fst x)) (next_batch (\<lambda>f. initWIPL2Block n env f) env forced rt g)" if "sound env f g" for forced rt g
      by (rule sound_chain2 [OF next_batch_sound that]) (rule Suc.IH(3))
    show ?thesis
      using Some s
      by (auto simp: closeAndOpenNewWIPBatch.simps wip_def set_wip_def Let_def split: option.split
        intro!: n rets_mono [OF sound_chain2 [OF flush_sound s]])
  qed (simp add: closeAndOpenNewWIPBatch.simps wip_def Let_def)
  show o: "rets (sound env f) (openNewWIPL2Block (Suc n) env t i f)" for f t i
  proof -
    obtain l2 g where m: "make_block env t i f = (l2, g)" by fastforce
    have g: "sound env f (g\<lparr>wipL2Block := Some l2, exec_calls := k\<rparr>)" for k using make_block_props [OF m] by simp
    have "rets (sound env f) (place_block (\<lambda>f. closeAndOpenNewWIPBatch n env ResourceExhaustedClosingReason f) resp
        (g\<lparr>wipL2Block := Some l2, exec_calls := k\<rparr>))" for resp k
      by (rule sound_chain [OF place_block_sound g]) (rule Suc.IH(1))
    then show ?thesis
      using m by (auto simp: openNewWIPL2Block.simps split: sum.split intro!: rets_mono [OF executeNew_kept])
  qed
  show "rets (sound env f) (initWIPL2Block (Suc n) env f)" for f
  proof -
    have "rets (sound env f) (openNewWIPL2Block n env t i (snd (db env f)))" for t i
      by (rule sound_chain [OF Suc.IH(2)]) (simp add: db_def)
    then show ?thesis by (simp add: initWIPL2Block.simps split: sum.split)
  qed
qed

lemma finalizeWIPBatch_sound: "rets (sound env f) (finalizeWIPBatch n env reason f)"
proof -
  have c: "rets (\<lambda>x. sound env f (fst x)) (closeAndOpenNewWIPBatch n env reason g)" if "sound env f g" for g
    by (rule sound_chain2 [OF lifecycle_sound(1) that])
  have o: "rets (sound env f) (openNewWIPL2Block n env t i g)" if "sound env f g" for g t i
    by (rule sound_chain [OF lifecycle_sound(2) that])
  show ?thesis
    by (auto simp: finalizeWIPBatch_def split: option.split
      intro!: rets_all [of _ "wip _"] rets_mono [OF closeWIPL2Block_sound [of env]] rets_mono [OF c] o)
qed

lemma finalizeWIPL2Block_sound: "rets (sound env f) (finalizeWIPL2Block n env f)"
proof -
  have o: "rets (sound env f) (openNewWIPL2Block n env t i g)" if "sound env f g" for g t i
    by (rule sound_chain [OF lifecycle_sound(2) that])
  show ?thesis
    by (auto simp: finalizeWIPL2Block_def split: option.split intro!: rets_mono [OF closeWIPL2Block_sound [of env]] o)
qed

lemma initWIPBatch_sound: "rets (sound env f) (initWIPBatch env f)"
  unfolding initWIPBatch_def rets_bnd
  by (rule retsI, erule wait_synced_Ret)
    (auto simp: db_def open_batch_def tick_def new_batch_def split: option.split sum.split)

lemma restore_sound: "RestoreTxsPendingToStore (wenv env) st order (worker f) = Some r \<Longrightarrow> sound env f (f\<lparr>worker := fst r\<rparr>)"
  using RestoreTxsPendingToStore_wf [of "wenv env" _ "worker f" st order] by (fastforce simp: sound_def wf_kept_def tkept_def)

lemma processL2BlockReorg_sound: "rets (\<lambda>x. sound env f (fst x)) (processL2BlockReorg n env f)"
proof -
  have w: "rets (sound env f) (waitPendingL2Blocks env f)" by (rule waitPending_sound)
  have f1: "rets (\<lambda>x. sound env f (fst x)) (finalizeSIPBatch env g)" if "sound env f g" for g
    by (rule sound_chain2 [OF finalizeSIP_sound that])
  have i1: "rets (sound env f) (initWIPBatch env g)" if "sound env f g" for g
    by (rule sound_chain [OF initWIPBatch_sound that])
  have i2: "rets (sound env f) (initWIPL2Block n env g)" if "sound env f g" for g
    by (rule sound_chain [OF lifecycle_sound(3) that])
  have r: "sound env f (g\<lparr>worker := fst x\<rparr>)" if "RestoreTxsPendingToStore (wenv env) st order (worker g) = Some x" "sound env f g" for g x st order
    using restore_sound [OF that(1)] that(2) sound_trans by blast
  have e: "sound env f ((scheduleNextStateRootSync env g)\<lparr>l2BlockReorg := b\<rparr>)" if "sound env f g" for g b
    using that by (simp add: scheduleNextStateRootSync_def tick_def cong: sound_cong)
  let ?tail = "\<lambda>g. bnd (of_option (RestoreTxsPendingToStore (wenv env) (stIntf env) (address_order env (worker g)) (worker g))) (\<lambda>r.
         bnd (initWIPBatch env (g\<lparr>worker := fst r\<rparr>)) (\<lambda>f.
         bnd (initWIPL2Block n env f) (\<lambda>f.
           Ret ((scheduleNextStateRootSync env f)\<lparr>l2BlockReorg := False\<rparr>, None :: block_error option))))"
  have tail: "rets (\<lambda>x. sound env f (fst x)) (?tail g)" if g: "sound env f g" for g
    unfolding rets_bnd
    by (rule retsI) (use r [OF _ g] in \<open>auto intro!: rets_mono [OF i1] rets_mono [OF i2] e\<close>)
  have mid: "rets (\<lambda>x. sound env f (fst x)) (case sipBatch g of
            None \<Rightarrow> Ret (g, None)
          | Some s \<Rightarrow> bnd (wip g) (\<lambda>b.
              if batchNumber (store g s) \<noteq> batchNumber b then finalizeSIPBatch env g else Ret (g, None)))" if "sound env f g" for g
    using that f1 [OF that] by (auto split: option.split intro!: rets_all [of _ "wip _"])
  show ?thesis
    unfolding processL2BlockReorg_def
    by (subst rets_bnd, rule rets_mono [OF w], subst rets_bnd, erule rets_mono [OF mid])
      (auto simp del: rets_bnd intro!: tail)
qed

section \<open>A transaction\<close>

lemma fail_all_batches [simp]: "state_batches (fail_all env ts why f) = state_batches f"
  by (induction ts arbitrary: f) (simp_all add: UpdateTxStatus_def)

lemma assign_batches [simp]: "state_batches (snd (assign g tx f)) = state_batches f"
  by (simp add: assign_def)

lemma status_batches [simp]: "state_batches (fst (UpdateTxStatus env f h st y)) = state_batches f"
  by (simp add: UpdateTxStatus_def)

abbreviation same_rows :: "finalizer \<Rightarrow> finalizer \<Rightarrow> bool" where
  "same_rows f f' \<equiv> state_batches f' = state_batches f"

lemma delete_tx_rows: "rets (same_rows f) (delete_tx env f tx)"
  by (rule retsI) (auto simp: delete_tx_def elim!: bnd_RetE)

lemma updateWorker_rows: "rets (same_rows f) (updateWorkerAfterSuccessfulProcessing env f h a b result)"
  by (rule retsI) (auto simp: updateWorkerAfterSuccessfulProcessing_def elim!: bnd_RetE split: if_splits)

lemma handleError_rows: "rets (same_rows f) (handleProcessTransactionError env f result r tx)"
  by (auto simp: handleProcessTransactionError_def Let_def intro!: rets_mono [OF delete_tx_rows] rets_all [of _ "of_option _"])

lemma account_rows: "rets (\<lambda>x. same_rows f (fst x)) (account_tx env tx f result r)"
proof (rule retsI)
  fix x assume a: "account_tx env tx f result r = Ret x"
  obtain ref where w: "wipBatch f = Some ref" using a by (cases "wipBatch f") (auto simp: account_tx_def wip_def)
  show "same_rows f (fst x)"
    using a w
    by (auto simp: account_tx_def wip_def set_wip_def set_batch_def add_tx_def assign_def elim!: bnd_RetE
        split: prod.splits if_splits option.splits dest!: retsD [OF updateWorker_rows] retsD [OF delete_tx_rows])
qed

lemma after_execution_rows: "rets (\<lambda>x. same_rows f (fst (snd x))) (after_execution env tx f answer)"
proof -
  have e: "rets (same_rows f) (handleProcessTransactionError env f result r tx)" for result r by (rule handleError_rows)
  have a: "rets (\<lambda>x. same_rows f (fst x)) (account_tx env t g result r)" if "same_rows f g" for t g result r
    using account_rows [of g] that by simp
  have h: "rets (\<lambda>x. same_rows f (fst (snd x))) (handleProcessTransactionResponse env tx f result)" for result
    by (auto simp: handleProcessTransactionResponse_def Let_def case_prod_beta split: list.split
      intro!: rets_mono [OF e] rets_mono [OF a])
  show ?thesis
    by (auto simp: after_execution_def wip_def set_wip_def set_batch_def UpdateTxStatus_def split: sum.split option.split
      intro!: rets_mono [OF h] rets_mono [OF delete_tx_rows])
qed

lemma processTransaction_rows: "rets (\<lambda>x. same_rows f (fst (snd x))) (processTransaction env tx f first)"
proof -
  have "rets (\<lambda>x. same_rows f (fst (snd x))) (after_execution env t g answer)" if "same_rows f g" for t g answer
    using after_execution_rows [of g] that by simp
  then show ?thesis
    by (auto simp: processTransaction_def Let_def case_prod_beta split: option.split intro!: rets_all [of _ "wip _"])
qed

lemma process_loop_sound:
  "process_loop n env tx f first = Some out \<Longrightarrow> rets (\<lambda>x. sound env f (fst (snd x))) out"
proof (induction n arbitrary: tx f first)
  case (Suc n)
  have s: "sound env f g" if "processTransaction env tx f first = Ret (tx', g, e)" for tx' g e
    using processTransaction_wf [OF that] retsD [OF processTransaction_rows that] by (auto simp: sound_def wf_kept_def)
  show ?case
  proof (cases "processTransaction env tx f first")
    case (Ret y)
    obtain tx' g e where y: "y = (tx', g, e)" by (cases y)
    show ?thesis
    proof (cases "e = Some ErrEffectiveGasPriceReprocess")
      case True
      then have "rets (\<lambda>x. sound env g (fst (snd x))) out" using Suc Ret y by simp
      then show ?thesis using s [OF Ret [unfolded y]] by (auto elim!: rets_mono intro: sound_trans)
    qed (use Suc.prems Ret y s in auto)
  qed (use Suc.prems in auto)
qed simp

section \<open>An iteration\<close>

lemma delete_tx_sound: "rets (sound env f) (delete_tx env f tx)"
proof (rule retsI)
  fix g assume d: "delete_tx env f tx = Ret g"
  have "w_wf (wenv env) so (worker g)" if "w_wf (wenv env) so (worker f)" for so
    using delete_tx_safe [OF that, of tx] d by auto
  then show "sound env f g" using retsD [OF delete_tx_rows d] by (simp add: sound_def wf_kept_def)
qed

lemma drop_ooc_sound: "rets (\<lambda>x. sound env f (fst x)) (drop_ooc env ts err f)"
proof (induction ts arbitrary: err f)
  case (Cons t ts)
  have "sound env f (fst (UpdateTxStatus env g h st y))" if "sound env f g" for g h st y
    using that by (simp add: UpdateTxStatus_def cong: sound_cong)
  then show ?case by (auto intro!: rets_mono [OF delete_tx_sound] sound_chain2 [OF Cons])
qed simp

lemma before_search_sound: "rets (sound env f) (before_search n env f)"
proof -
  have b: "rets (sound env f) (finalizeWIPL2Block n env g)" if "sound env f g" for g
    by (rule sound_chain [OF finalizeWIPL2Block_sound that])
  have t: "sound env f (g\<lparr>ticks := k\<rparr>)" if "sound env f g" for g k using that by (simp cong: sound_cong)
  have "rets (sound env f) (case wipL2Block g of None \<Rightarrow> Panic | Some l2 \<Rightarrow> (case tick env g of (now, f) \<Rightarrow>
              if createdAt l2 + L2BlockMaxDeltaTimestamp (cfg env) < now then finalizeWIPL2Block n env f else Ret f))"
    if "sound env f g" for g
    using that by (auto simp: tick_def split: option.split intro!: b t)
  then show ?thesis
    by (auto simp: before_search_def case_prod_beta intro!: rets_mono [OF processL2BlockReorg_sound])
qed

lemma check_finalize_sound: "rets (sound env f) (check_finalize n env f)"
  by (auto simp: check_finalize_def tick_def split: prod.split bool.split
    intro!: rets_all [of _ "wip _"] sound_chain [OF finalizeWIPBatch_sound])

lemma after_search_sound:
  assumes w: "wf_kept env f (f\<lparr>worker := fst best\<rparr>)"
  shows "rets (sound env f) (after_search n env best f)"
proof -
  obtain w tx ooc err where best: "best = (w, tx, ooc, err)" by (cases best)
  have s: "sound env f (f\<lparr>worker := w\<rparr>)" using w best by (simp add: sound_def)
  have d: "rets (\<lambda>x. sound env f (fst x)) (drop_ooc env ooc err (f\<lparr>worker := w\<rparr>))"
    by (rule sound_chain2 [OF drop_ooc_sound s])
  have c: "rets (sound env f) (check_finalize n env g)" if "sound env f g" for g
    by (rule sound_chain [OF check_finalize_sound that])
  have z: "rets (sound env f) (finalizeWIPBatch n env reason g)" if "sound env f g" for g reason
    by (rule sound_chain [OF finalizeWIPBatch_sound that])
  have l: "rets (\<lambda>x. sound env f (fst (snd x))) out" if "process_loop n env t g True = Some out" "sound env f g" for t g out
    using process_loop_sound [OF that(1)] that(2) by (auto elim!: rets_mono intro: sound_trans)
  show ?thesis
    unfolding after_search_def best prod.case
    by (subst rets_bnd, rule rets_mono [OF d])
      (auto split: option.split intro!: z c rets_mono [OF l])
qed

lemma finalize_step_sound:
  assumes "finalize_step n nCPU env f (Ret g)"
  shows "sound env f g"
  using assms
proof (cases rule: finalize_step.cases)
  case (searched h b l2 best)
  have h: "sound env f h" by (rule retsD [OF before_search_sound searched(2)])
  obtain w x where best: "best = (w, x)" by (cases best)
  have "wf_kept env h (h\<lparr>worker := fst best\<rparr>)"
    using GetBestFittingTx_frame [OF searched(5) [unfolded best]] best
    by (auto simp: wf_kept_def intro: w_wf_frame)
  then have "sound env h g" using after_search_sound searched(1) by (metis retsD)
  then show ?thesis using h sound_trans by blast
qed auto

text \<open>
  The states that iterations lead to. Between two iterations the goroutine behind the first channel may
  process the next closed L2 block, and the one behind the second channel may store the next processed one.
\<close>

inductive finalizer_reach :: "nat \<Rightarrow> nat \<Rightarrow> fin_env \<Rightarrow> finalizer \<Rightarrow> finalizer \<Rightarrow> bool" for n nCPU env f where
  start: "finalizer_reach n nCPU env f f"
| iterate: "finalizer_reach n nCPU env f g \<Longrightarrow> finalize_step n nCPU env g (Ret h) \<Longrightarrow> finalizer_reach n nCPU env f h"
| process_one: "finalizer_reach n nCPU env f g \<Longrightarrow> pendingL2BlocksToProcess g = b # bs \<Longrightarrow>
     process_all env [b] (g\<lparr>pendingL2BlocksToProcess := bs\<rparr>) = Ret h \<Longrightarrow> finalizer_reach n nCPU env f h"
| store_one: "finalizer_reach n nCPU env f g \<Longrightarrow> pendingL2BlocksToStore g = b # bs \<Longrightarrow>
     store_all env [b] (g\<lparr>pendingL2BlocksToStore := bs\<rparr>) = Ret h \<Longrightarrow> finalizer_reach n nCPU env f h"

lemma process_all_sound:
  assumes "process_all env bs (g\<lparr>pendingL2BlocksToProcess := cs\<rparr>) = Ret h"
  shows "sound env g h"
proof -
  have "carried env (g\<lparr>pendingL2BlocksToProcess := cs\<rparr>) h" "tkept (g\<lparr>pendingL2BlocksToProcess := cs\<rparr>) h"
    using retsD [OF process_all_carried assms] retsD [OF process_all_table assms] by simp_all
  then show ?thesis by (simp add: sound_def carried_def wf_kept_def tkept_def)
qed

lemma store_all_sound:
  assumes "store_all env bs (g\<lparr>pendingL2BlocksToStore := cs\<rparr>) = Ret h"
  shows "sound env g h"
proof -
  have "kept env (g\<lparr>pendingL2BlocksToStore := cs\<rparr>) h" "tkept (g\<lparr>pendingL2BlocksToStore := cs\<rparr>) h"
    using store_all_kept [OF assms] retsD [OF store_all_table assms] by simp_all
  then show ?thesis by (simp add: sound_def kept_def wf_kept_def tkept_def)
qed

lemma finalizer_reach_sound: "finalizer_reach n nCPU env f g \<Longrightarrow> sound env f g"
proof (induction rule: finalizer_reach.induct)
  case (iterate g h)
  show ?case using iterate.IH finalize_step_sound [OF iterate.hyps(2)] by (rule sound_trans)
next
  case (process_one g b bs h)
  show ?case using process_one.IH process_all_sound [OF process_one.hyps(3)] by (rule sound_trans)
next
  case (store_one g b bs h)
  show ?case using store_one.IH store_all_sound [OF store_one.hyps(3)] by (rule sound_trans)
qed simp

end
