(* ===== verification/FinalizerSamples.thy ===== *)
theory FinalizerSamples
  imports FinalizerInvariant Rlp
begin

text \<open>
  Concrete configurations, services and states of the finalizer, on which its properties are
  evaluated.
\<close>

section \<open>Configuration and services\<close>

definition sample_fcfg :: FinalizerCfg where
  "sample_fcfg = \<lparr>ForcedBatchesTimeout = 60000000000, ResourceExhaustedMarginPct = 10, ForcedBatchesL1BlockConfirmations = 64,
     L1InfoTreeL1BlockConfirmations = 64, L1InfoTreeCheckInterval = 10000000000, BatchMaxDeltaTimestamp = 1800000000000,
     L2BlockMaxDeltaTimestamp = 3000000000, StateRootSyncInterval = 3600000000000, HaltOnBatchNumber = 0,
     SequentialBatchSanityCheck = True, SequentialProcessL2Block = True\<rparr>"

definition sample_limits :: BatchConstraintsCfg where
  "sample_limits = \<lparr>MaxTxsPerBatch = 300, MaxBatchBytesSize = 120000, MaxCumulativeGasUsed = 1125899906842624,
     MaxKeccakHashes = 2145, MaxPoseidonHashes = 252357, MaxPoseidonPaddings = 135191, MaxMemAligns = 236585,
     MaxArithmetics = 236585, MaxBinaries = 473170, MaxSteps = 7570538, MaxSHA256Hashes = 1596\<rparr>"

definition sample_used :: ZKCounters where
  "sample_used = zero_counters\<lparr>GasUsed := 21000, Steps := 500, KeccakHashes := 3\<rparr>"

definition sample_legacy :: LegacyTx where
  "sample_legacy = \<lparr>tx_Nonce = 3, tx_GasPrice = 1000, tx_Gas = 21000, tx_To = Some 4660, tx_Value = 5, tx_Data = [1, 2],
     tx_V = 2237, tx_R = 77, tx_S = 88\<rparr>"

definition sample_response :: ProcessTransactionResponse where
  "sample_response = \<lparr>tr_TxHash = 1, tr_Tx = sample_legacy, tr_RomError = None, tr_GasUsed = 21000, tr_EffectivePercentage = 255,
     HasGaspriceOpcode = False, HasBalanceOpcode = False\<rparr>"

text \<open>The executor answers with one block that holds the given transactions, and a root that is one more.\<close>

definition sample_answer :: "ProcessTransactionResponse list \<Rightarrow> ProcessRequest \<Rightarrow> ProcessBatchResponse" where
  "sample_answer txs rq =
     \<lparr>NewStateRoot = rq_OldStateRoot rq + 1, NewLocalExitRoot = 0, pr_UsedZkCounters = sample_used, pr_ReservedZkCounters = sample_used,
      BlockResponses = [\<lparr>bl_BlockNumber = 1, bl_Timestamp = rq_TimestampLimit_V2 rq, bl_GlobalExitRoot = 0, TransactionResponses = txs\<rparr>],
      pr_ExecutorError = None, ReadWriteAddresses = [], FlushID = 1, StoredFlushID = 0, IsRomLevelError = False, IsRomOOCError = False\<rparr>"

definition sample_egp :: "bool \<Rightarrow> EffectiveGasPriceCfg" where
  "sample_egp on = \<lparr>cfg_Enabled = on, L1GasPriceFactor = 1 / 4, ByteGasCost = 16, ZeroByteGasCost = 4, NetProfit = 1,
     BreakEvenFactor = 1, FinalDeviationPct = 10, EthTransferGasPrice = 7, EthTransferL1GasPriceFactor = 0,
     L2GasPriceSuggesterFactor = 1 / 2\<rparr>"

definition sample_entry :: L1InfoTreeExitRootStorageEntry where
  "sample_entry = \<lparr>en_L1InfoTreeIndex = 1, en_L1InfoTreeRoot = 7, en_GlobalExitRoot = 9, en_PreviousBlockHash = 11,
     en_BlockNumber = 100, en_Timestamp = 1000000000\<rparr>"

definition sample_forced :: "uint64 \<Rightarrow> ForcedBatch" where
  "sample_forced n = \<lparr>fb_ForcedBatchNumber = n, fb_BlockNumber = 50, fb_GlobalExitRoot = 9, fb_RawTxsData = [11, 0], fb_ForcedAt = 1000000000\<rparr>"

definition sample_env :: "bool \<Rightarrow> ProcessTransactionResponse list \<Rightarrow> fin_env" where
  "sample_env egp txs = \<lparr>cfg = sample_fcfg, constraints = sample_limits, egp_cfg = sample_egp egp, l2Coinbase = 17, wenv = race_env,
     stIntf = race_state, ProcessBatchV2 = (\<lambda>_ rq. Inr (sample_answer txs rq)), GetL1AndL2GasPrice = (\<lambda>_. (1000, 500)),
     GetForkIDByBatchNumber = (\<lambda>_. 7), UpdateTxStatus_fails = (\<lambda>_ _. None), clock = (\<lambda>_. 2000000000), db_fails = (\<lambda>_. None),
     rlp_enc = rlp_list, rlp_dec = rlp_unlist, chain_id = derive_chain_id, GetLastL2Block_ReceivedAt = (\<lambda>_. Inr 1000000000),
     GetL1InfoRootLeafByIndex = (\<lambda>_. Inr sample_entry), GetBlockByNumber_ParentHash = (\<lambda>_. Inr 13),
     GetForcedBatch = (\<lambda>n. Inr (sample_forced n)), GetSender = (\<lambda>_. Inr 0), address_order = (\<lambda>_. []),
     GetStoredFlushID = (\<lambda>_. Inr 1), GetLastVirtualBatchNum = (\<lambda>_. Inr 0), GetLatestBatchNumber = (\<lambda>_. Inr 0), patience = 1\<rparr>"

section \<open>States\<close>

definition sample_batch :: Batch where
  "sample_batch = openNewWIPBatch sample_limits 17 1000000000 1 5"

definition sample_l2 :: "TxTracker list \<Rightarrow> L2Block" where
  "sample_l2 txs = \<lparr>createdAt = 1000000000, trackingNum = 1, l2_timestamp = 1, deltaTimestamp = 3, l2_imStateRoot = 5,
     l1InfoTreeExitRoot = sample_entry, l1InfoTreeExitRootChanged = True, l2_bytes = 9, usedZKCountersOnNew = zero_counters,
     reservedZKCountersOnNew = zero_counters, highReservedZKCounters = zero_counters, transactions = txs, l2_batch = Some 0,
     batchResponse = None\<rparr>"

lemma sample_l2_simps [simp]:
  "transactions (sample_l2 txs) = txs" "l2_batch (sample_l2 txs) = Some 0" "createdAt (sample_l2 txs) = 1000000000"
  by (simp_all add: sample_l2_def)

lemma sample_batch_simps [simp]: "batchNumber sample_batch = 1" "finalStateRoot sample_batch = 5" "countOfL2Blocks sample_batch = 0"
  by (simp_all add: sample_batch_def openNewWIPBatch_def Let_def)

text \<open>The table holds the genesis batch and, when the batch is being stored, its open row.\<close>

definition sample_state_row :: "uint64 \<Rightarrow> StateBatch" where
  "sample_state_row n = \<lparr>sb_BatchNumber = n, sb_Coinbase = 17, sb_BatchL2Data = [], sb_StateRoot = 5, sb_LocalExitRoot = 0,
     sb_AccInputHash = 0, sb_Timestamp = 1000000000, sb_GlobalExitRoot = 0, sb_ForcedBatchNum = None,
     sb_Resources = empty_resources, sb_HighReservedZKCounters = zero_counters, sb_ClosingReason = EmptyClosingReason,
     sb_WIP = True, sb_Checked = False\<rparr>"

definition genesis_rows :: table where
  "genesis_rows = (case StoreGenesisBatch (sample_state_row 0) EmptyClosingReason [] of Inl _ \<Rightarrow> [] | Inr rows \<Rightarrow> rows)"

definition open_rows :: table where
  "open_rows = (case OpenWIPBatch (sample_state_row 1) genesis_rows of Inl _ \<Rightarrow> [] | Inr rows \<Rightarrow> rows)"

lemma genesis_rows_reach: "table_reach genesis_rows"
proof -
  obtain rows where r: "StoreGenesisBatch (sample_state_row 0) EmptyClosingReason [] = Inr rows"
    by (simp add: StoreGenesisBatch_def insert_row_def sample_state_row_def)
  then have "genesis_rows = rows" by (simp add: genesis_rows_def)
  moreover have "run_statement (DoStoreGenesis (sample_state_row 0) EmptyClosingReason) [] = Inr rows" using r by simp
  ultimately show ?thesis using table_reach.step [OF table_reach.empty] by blast
qed

lemma genesis_rows_wf: "rows_wf genesis_rows"
proof -
  obtain rows where r: "StoreGenesisBatch (sample_state_row 0) EmptyClosingReason [] = Inr rows"
    by (simp add: StoreGenesisBatch_def insert_row_def sample_state_row_def)
  then have "run_statement (DoStoreGenesis (sample_state_row 0) EmptyClosingReason) [] = Inr genesis_rows" by (simp add: genesis_rows_def)
  then show ?thesis by (rule run_statement_wf [rotated]) (simp_all add: rows_wf_def)
qed

definition sample_fin :: finalizer where
  "sample_fin = \<lparr>worker = race_worker, store = (\<lambda>_. sample_batch), next_ref = 1, wipBatch = Some 0, pipBatch = Some 0, sipBatch = None,
     wipL2Block = Some (sample_l2 []), pool_updates = [], exec_calls = 0, nextStateRootSync = 3600000000000, nextForcedBatches = [],
     nextForcedBatchDeadline = 0, lastForcedBatchNum = 0, lastL1InfoTreeValid = True, lastL1InfoTree = sample_entry,
     pendingL2BlocksToProcess = [], l2BlockReorg = False, lastL2BlockWasReorg = False, pendingL2BlocksToStore = [],
     l2BlockCounter = 1, storedFlushID = 0, lastPendingFlushID = 1, state_batches = genesis_rows, stored_blocks = [], ticks = 0,
     db_calls = 0\<rparr>"

lemma sample_fin_simps [simp]:
  "worker sample_fin = race_worker" "store sample_fin r = sample_batch" "next_ref sample_fin = 1" "wipBatch sample_fin = Some 0"
  "pipBatch sample_fin = Some 0" "wipL2Block sample_fin = Some (sample_l2 [])" "nextForcedBatches sample_fin = []"
  "lastL1InfoTreeValid sample_fin" "l2BlockReorg sample_fin = False" "state_batches sample_fin = genesis_rows" "ticks sample_fin = 0"
  "sipBatch sample_fin = None"
  by (simp_all add: sample_fin_def)

lemma sample_env_simps [simp]:
  "cfg (sample_env e txs) = sample_fcfg" "wenv (sample_env e txs) = race_env" "clock (sample_env e txs) k = 2000000000"
  "ProcessBatchV2 (sample_env e txs) k rq = Inr (sample_answer txs rq)" "rlp_enc (sample_env e txs) = rlp_list"
  "rlp_dec (sample_env e txs) = rlp_unlist" "chain_id (sample_env e txs) = derive_chain_id"
  "GetForkIDByBatchNumber (sample_env e txs) m = 7" "GetForcedBatch (sample_env e txs) m = Inr (sample_forced m)"
  "egp_cfg (sample_env e txs) = sample_egp e"
  by (simp_all add: sample_env_def)

lemma sample_services: "services_progress (sample_env e txs)"
  by (auto simp: services_progress_def executor_stores_def synchronizer_follows_def answered_def sample_env_def sample_answer_def)

lemma sample_forced_simps [simp]: "fb_ForcedBatchNumber (sample_forced n) = n"
  by (simp add: sample_forced_def)

definition sample_tracker :: TxTracker where
  "sample_tracker = race_t1\<lparr>RawTx := [1, 2, 3], GasPrice := 20, Gas := 21000, UsedZKCounters := sample_used\<rparr>"

text \<open>A batch that can be closed, and a block with the answer of the executor.\<close>

definition closing_fin :: finalizer where
  "closing_fin = sample_fin\<lparr>store := (\<lambda>_. sample_batch\<lparr>countOfL2Blocks := 1\<rparr>)\<rparr>"

definition answered_block :: L2Block where
  "answered_block = (sample_l2 [sample_tracker])\<lparr>batchResponse := Some (sample_answer [sample_response]
     (block_request (sample_env False []) sample_batch (sample_l2 [sample_tracker]) 5 []))\<rparr>"

definition answered_raw :: L2BlockRaw where
  "answered_raw = \<lparr>DeltaTimestamp = 3, IndexL1InfoTree = 1, Transactions = [\<lparr>Tx = sample_legacy, EfficiencyPercentage = 255\<rparr>]\<rparr>"

lemma race_worker_wf: "w_wf race_env so race_worker"
  unfolding race_worker_def by (rule w_wf_new)

end
