(* ===== verification/FinalizerSpec.thy ===== *)
theory FinalizerSpec
  imports FinalizerSamples
begin

text \<open>
  The properties of the finalizer: its iterations, the life of a batch, the processing of a
  transaction, the storing of L2 blocks and forced batches.
\<close>

section \<open>The loop\<close>

text \<open>
  C1. From a state with a well-formed worker and a well-formed table of batches, every state that is reached by
  any number of iterations of \<open>finalizeBatches\<close>, with the goroutines that process and store L2 blocks running
  in between, has a well-formed worker (sorted list, queues and pool agree) and a table
  with consecutive batch numbers, times that do not go back and no open batch but the last.
\<close>

theorem finalizer_stays_sound:
  assumes "finalizer_reach n nCPU env f g"
    and "w_wf (wenv env) so (worker f)" and "rows_wf (state_batches f)"
  shows "w_wf (wenv env) so (worker g) \<and> rows_wf (state_batches g)"
proof -
  have "sound env f g" by (rule finalizer_reach_sound [OF assms(1)])
  then have "wf_kept env f g" "rows_wf (state_batches g)" using assms(3) by (simp_all add: sound_def tkept_def)
  then show ?thesis using wf_keptD [OF _ assms(2)] by blast
qed

lemma sample_iteration:
  "\<exists>g. finalizer_reach 4 2 (sample_env False []) sample_fin g \<and> ticks g = 3"
proof -
  let ?env = "sample_env False []"
  let ?g = "sample_fin\<lparr>ticks := 1\<rparr>"
  let ?best = "(race_worker\<lparr>wipTx := None, reorgedTxs := []\<rparr>, None, [], Some ErrTransactionsListEmpty)"
  have b: "before_search 4 ?env sample_fin = Ret ?g"
    by (simp add: before_search_def tick_def sample_fcfg_def)
  have w: "wip ?g = Ret sample_batch" "wipL2Block ?g = Some (sample_l2 [])" by (simp_all add: wip_def)
  have "GetBestFittingTx 2 (worker ?g) r h first ?best" for r h first
    using GetBestFittingTx.empty_list [of race_worker "[]" 2 r h first]
    by (simp add: race_worker_def NewWorker_def newTxSortedList_def tsl_len_def)
  from finalize_step.searched [OF b w this] have s: "finalize_step 4 2 ?env sample_fin (after_search 4 ?env ?best ?g)" .
  have a: "(case after_search 4 ?env ?best ?g of Ret h \<Rightarrow> ticks h = 3 | _ \<Rightarrow> False)" by code_simp
  then obtain h where "after_search 4 ?env ?best ?g = Ret h" "ticks h = 3" by (auto split: outcome.splits)
  then show ?thesis using finalizer_reach.iterate [OF finalizer_reach.start] s by metis
qed

theorem finalizer_stays_sound_witness:
  "\<exists>g. finalizer_reach 4 2 (sample_env False []) sample_fin g \<and> ticks g = 3 \<and>
     w_wf race_env (\<lambda>_. ''A'') (worker g) \<and> rows_wf (state_batches g)"
proof -
  obtain g where g: "finalizer_reach 4 2 (sample_env False []) sample_fin g" "ticks g = 3" using sample_iteration by blast
  have "w_wf (wenv (sample_env False [])) (\<lambda>_. ''A'') (worker sample_fin)" "rows_wf (state_batches sample_fin)"
    using race_worker_wf genesis_rows_wf by simp_all
  from finalizer_stays_sound [OF g(1) this] g show ?thesis by auto
qed

section \<open>The life of a batch\<close>

text \<open>
  C10. Closing the batch in progress comes to an end. The hypotheses: the executor stores what it answered and the
  synchronizer follows L1 within the rounds that a wait is followed, every block that waits to be stored has an answer of
  the executor with an identifier that is polled for, the first entry of the L1 info tree is at hand, and the
  next batch is not the one at which the sequencer is told to halt. Then \<open>finalizeWIPBatch\<close> returns or stops
  the process, whatever else the executor, the database and the clock answer; calls nested four deep are enough.
\<close>

theorem finalize_batch_ends:
  assumes "wipBatch f = Some r" and "batchNumber (store f r) + 1 \<noteq> HaltOnBatchNumber (cfg env)" and "lastL1InfoTreeValid f" and "4 \<le> n"
    and "services_progress env" and "pending_known env f"
  shows "finalizeWIPBatch n env closeReason f \<noteq> Stuck"
proof -
  have n: "n = Suc (Suc (Suc (Suc (n - 4))))" using assms(4) by arith
  have "goes_on env f" using assms(1,2) by (simp add: goes_on_def)
  from finalizeWIPBatch_ends [OF this assms(3,5,6), of "n - 4" closeReason, folded n] show ?thesis by (simp add: ends_def)
qed

theorem finalize_batch_ends_witness:
  "finalizeWIPBatch 4 (sample_env False [sample_response]) MaxDeltaTimestampClosingReason
     (sample_fin\<lparr>nextForcedBatches := [sample_forced 1], pendingL2BlocksToStore := [answered_block], exec_calls := 1\<rparr>) \<noteq> Stuck"
proof (rule finalize_batch_ends [where r = 0])
  let ?f = "sample_fin\<lparr>nextForcedBatches := [sample_forced 1], pendingL2BlocksToStore := [answered_block], exec_calls := 1\<rparr>"
  have "answered (sample_env False [sample_response]) 1 (sample_answer [sample_response] rq)" for rq
    unfolding answered_def by (rule exI [of _ 0], rule exI [of _ rq]) simp
  then show "pending_known (sample_env False [sample_response]) ?f"
    by (simp add: pending_known_def flush_known_def answered_block_def sample_answer_def sample_fin_def)
qed (simp_all add: sample_fcfg_def sample_services)

text \<open>
  C9. When no forced batch waits and \<open>finalizeWIPBatch\<close> returns, the batch in progress is a new
  one: it has the next number, it starts from the intermediate state root of the closed batch, it
  holds no block and one open empty L2 block whose resources together with the remaining ones are
  those of a full batch. The closed batch keeps its number, holds at least one block and has the
  closing reason.
\<close>

theorem finalize_batch_opens_next:
  assumes "finalizeWIPBatch n env closeReason f = Ret g" and "nextForcedBatches f = []"
    and "wipBatch f = Some r" and "r < next_ref f"
  shows "ready env g (next_ref f) \<and> batchNumber (store g (next_ref f)) = batchNumber (store f r) + 1 \<and>
    initialStateRoot (store g (next_ref f)) = imStateRoot (store g r) \<and>
    closingReason (store g r) = closeReason \<and> batchNumber (store g r) = batchNumber (store f r) \<and> countOfL2Blocks (store g r) \<noteq> 0"
  using finalizeWIPBatch_new [OF assms] by simp

theorem finalize_batch_opens_next_witness:
  "\<exists>g. finalizeWIPBatch 4 (sample_env False []) MaxDeltaTimestampClosingReason closing_fin = Ret g \<and>
     ready (sample_env False []) g 1 \<and> batchNumber (store g 1) = 2"
proof -
  have "(case finalizeWIPBatch 4 (sample_env False []) MaxDeltaTimestampClosingReason closing_fin of Ret g \<Rightarrow> True | _ \<Rightarrow> False)"
    by code_simp
  then obtain g where g: "finalizeWIPBatch 4 (sample_env False []) MaxDeltaTimestampClosingReason closing_fin = Ret g"
    by (auto split: outcome.splits)
  have "nextForcedBatches closing_fin = []" "wipBatch closing_fin = Some 0" "0 < next_ref closing_fin" "next_ref closing_fin = 1"
    "batchNumber (store closing_fin 0) = 1"
    by (simp_all add: closing_fin_def)
  with finalize_batch_opens_next [OF g this(1-3)] g show ?thesis by simp
qed

text \<open>
  C35. With forced batches waiting and transactions in the open L2 block, \<open>finalizeWIPBatch\<close> panics
  as soon as the block was closed: \<open>closeAndOpenNewWIPBatch\<close> closes it once more before the forced batches
  are processed, and the block in progress is nil by then.
\<close>

theorem forced_batches_block_close:
  assumes "nextForcedBatches f \<noteq> []" and "wipL2Block f = Some l2" and "\<not> l2_isEmpty l2" and "closeWIPL2Block env f = Ret g"
  shows "finalizeWIPBatch (Suc n) env closeReason f = Panic"
  by (rule finalizeWIPBatch_forced [OF assms])

theorem forced_batches_block_close_witness:
  "finalizeWIPBatch (Suc 3) (sample_env False [sample_response]) ForcedBatchDeadlineClosingReason
     (sample_fin\<lparr>nextForcedBatches := [sample_forced 1], wipL2Block := Some (sample_l2 [sample_tracker])\<rparr>) = Panic"
proof -
  let ?f = "sample_fin\<lparr>nextForcedBatches := [sample_forced 1], wipL2Block := Some (sample_l2 [sample_tracker])\<rparr>"
  have "(case closeWIPL2Block (sample_env False [sample_response]) ?f of Ret _ \<Rightarrow> True | _ \<Rightarrow> False)" by code_simp
  then obtain g where g: "closeWIPL2Block (sample_env False [sample_response]) ?f = Ret g" by (auto split: outcome.splits)
  show ?thesis
    by (rule forced_batches_block_close [OF _ _ _ g, where ?l2.0 = "sample_l2 [sample_tracker]"]) (simp_all add: l2_isEmpty_def)
qed

section \<open>Processing a transaction\<close>

text \<open>
  C12. With a batch and an L2 block in progress and a well-formed worker, \<open>processTransaction\<close> stops the
  process, or returns and leaves the worker well formed, or panics. It panics only when the executor answered
  the request for this very transaction with a block that has no response to a transaction; the first response is
  read without a check.
\<close>

theorem process_transaction_safe:
  assumes "w_wf (wenv env) so (worker f)" and "wipBatch f = Some ref" and "wipL2Block f = Some l2"
  shows "(processTransaction env tx f first = Panic \<and>
      (\<exists>pct. empty_answer (ProcessBatchV2 env (exec_calls f) (tx_request env (store f ref) l2 (RawTx tx @ [pct]))))) \<or>
    processTransaction env tx f first = Exit \<or>
    (\<exists>tx' f' err. processTransaction env tx f first = Ret (tx', f', err) \<and> w_wf (wenv env) so (worker f'))"
  by (rule processTransaction_safe [OF assms])

theorem process_transaction_safe_witness:
  "(\<exists>tx' f' err. processTransaction (sample_env True [sample_response]) sample_tracker sample_fin True = Ret (tx', f', err) \<and>
      w_wf race_env (\<lambda>_. ''A'') (worker f')) \<and>
   processTransaction (sample_env True []) sample_tracker sample_fin True = Panic"
proof
  have "(case processTransaction (sample_env True [sample_response]) sample_tracker sample_fin True of Ret _ \<Rightarrow> True | _ \<Rightarrow> False)"
    by code_simp
  then show "\<exists>tx' f' err. processTransaction (sample_env True [sample_response]) sample_tracker sample_fin True = Ret (tx', f', err) \<and>
      w_wf race_env (\<lambda>_. ''A'') (worker f')"
    using process_transaction_safe [of "sample_env True [sample_response]" "\<lambda>_. ''A''" sample_fin 0 "sample_l2 []" sample_tracker True]
      race_worker_wf by (auto split: outcome.splits)
  have "(case processTransaction (sample_env True []) sample_tracker sample_fin True of Panic \<Rightarrow> True | _ \<Rightarrow> False)" by code_simp
  then show "processTransaction (sample_env True []) sample_tracker sample_fin True = Panic" by (auto split: outcome.splits)
qed

text \<open>
  C4. A transaction is taken entirely or not at all. Either the open block, the resources, the
  number of transactions and the state root of the batch in progress are what they were, or there
  is no error, the transaction is the last of the block, its counters and bytes fitted and were
  subtracted once, the count is one more and the state root is the one the executor returned for the
  request that carries this transaction with the percentage it has now. The executor is called at
  most once.
\<close>

theorem process_transaction_all_or_nothing:
  assumes "processTransaction env tx f first = Ret (tx', f', err)" and "wipBatch f = Some ref" and "wipL2Block f = Some l2"
  shows "outcome_ok env f f' ref l2
      (ProcessBatchV2 env (exec_calls f) (tx_request env (store f ref) l2 (RawTx tx @ [EGPPercentage tx']))) tx' err \<and>
    exec_calls f' \<le> exec_calls f + 1"
  using processTransaction_effect [OF assms] by blast

theorem process_transaction_all_or_nothing_witness:
  "\<exists>tx' f' err. processTransaction (sample_env False [sample_response]) sample_tracker sample_fin True = Ret (tx', f', err) \<and>
     countOfTxs (store f' 0) = 1 \<and>
     outcome_ok (sample_env False [sample_response]) sample_fin f' 0 (sample_l2 [])
       (ProcessBatchV2 (sample_env False [sample_response]) (exec_calls sample_fin)
          (tx_request (sample_env False [sample_response]) (store sample_fin 0) (sample_l2 []) (RawTx sample_tracker @ [EGPPercentage tx']))) tx' err"
proof -
  have "(case processTransaction (sample_env False [sample_response]) sample_tracker sample_fin True of
      Ret (tx', f', err) \<Rightarrow> countOfTxs (store f' 0) = 1 | _ \<Rightarrow> False)" by code_simp
  then obtain tx' f' err where p: "processTransaction (sample_env False [sample_response]) sample_tracker sample_fin True = Ret (tx', f', err)"
    "countOfTxs (store f' 0) = 1" by (auto split: outcome.splits)
  from process_transaction_all_or_nothing [OF p(1)] p show ?thesis by auto
qed

text \<open>
  C22. The loop around \<open>processTransaction\<close>, which runs a transaction again when its effective gas
  price turned out wrong, ends: two executions are always enough.
\<close>

theorem process_loop_ends: "process_loop 2 env tx f first \<noteq> None"
  by (rule process_loop_two)

text \<open>
  C21. With effective gas prices enabled, a transaction that leaves this loop without an error of
  the price calculation keeps its gas price, has an effective price between one and that gas price,
  and a percentage that charges at least the effective price and less than 1/256 of the gas price more.
\<close>

theorem process_loop_charges_price:
  assumes "process_loop n env tx f True = Some (Ret (tx', f', err))"
    and "cfg_Enabled (egp_cfg env)" and "0 < GasPrice tx" and "\<forall>e. err \<noteq> Some (ErrEgp e)"
  shows "GasPrice tx' = GasPrice tx \<and> 0 < EffectiveGasPrice tx' \<and> EffectiveGasPrice tx' \<le> GasPrice tx \<and>
    EffectiveGasPrice tx' \<le> charged_price (GasPrice tx) (EGPPercentage tx') \<and>
    256 * charged_price (GasPrice tx) (EGPPercentage tx') < 256 * EffectiveGasPrice tx' + GasPrice tx"
proof -
  have p: "GasPrice tx' = GasPrice tx" "priced tx'" "percentage_ok tx'" using process_loop_priced [OF assms(1-3) _ assms(4)] by simp_all
  then show ?thesis using percentage_covers [of "EffectiveGasPrice tx'" "GasPrice tx'"] assms(3) by (auto simp: priced_def percentage_ok_def)
qed

theorem process_loop_charges_price_witness:
  "\<exists>tx' f' err. process_loop 2 (sample_env True [sample_response]) sample_tracker sample_fin True = Some (Ret (tx', f', err)) \<and>
     EffectiveGasPrice tx' \<le> charged_price (GasPrice sample_tracker) (EGPPercentage tx')"
proof -
  have "(case process_loop 2 (sample_env True [sample_response]) sample_tracker sample_fin True of
      Some (Ret (tx', f', err)) \<Rightarrow> err = None | _ \<Rightarrow> False)" by code_simp
  then obtain tx' f' where p: "process_loop 2 (sample_env True [sample_response]) sample_tracker sample_fin True = Some (Ret (tx', f', None))"
    by (auto split: option.splits outcome.splits)
  have "cfg_Enabled (egp_cfg (sample_env True [sample_response]))" "0 < GasPrice sample_tracker"
    by (simp_all add: sample_egp_def sample_tracker_def)
  from process_loop_charges_price [OF p this] p show ?thesis by auto
qed

section \<open>Processing and storing blocks\<close>

text \<open>
  C20. The table of batches, under every statement that the code runs on it (opening, closing, updating, resetting,
  by the sequencer or by the synchronizer) in any order: batch numbers are consecutive from zero and so unique, and no
  batch is open but the last. Every statement except \<open>UpdateBatchTimestamp\<close> also keeps the times in order.
\<close>

theorem batch_table_invariant:
  assumes "table_reach rows"
  shows "map sb_BatchNumber rows = map word_of_nat [0..<length rows] \<and> distinct (map sb_BatchNumber rows) \<and>
    (\<forall>i. Suc i < length rows \<longrightarrow> \<not> sb_WIP (rows ! i)) \<and>
    (\<forall>st rows'. run_statement st rows = Inr rows' \<and> \<not> sets_time st \<and> sorted (map (\<lambda>r. unix_of (sb_Timestamp r)) rows) \<longrightarrow>
       sorted (map (\<lambda>r. unix_of (sb_Timestamp r)) rows'))"
proof -
  have wf: "rows_num rows" by (rule table_reach_num [OF assms])
  have "\<not> sb_WIP (rows ! i)" if "Suc i < length rows" for i
  proof -
    have "rows ! i = butlast rows ! i" "i < length (butlast rows)" using that by (simp_all add: nth_butlast)
    then show ?thesis using wf unfolding rows_num_def by (metis nth_mem)
  qed
  moreover have "distinct (map sb_BatchNumber rows)"
    unfolding distinct_conv_nth using num_nth(2) [OF wf] by (metis length_map nth_map)
  ultimately show ?thesis using wf run_statement_wf unfolding rows_wf_num rows_num_def by blast
qed

text \<open>A table with a closed and an open batch, the time of the first set back by the synchronizer.\<close>

definition stamped_rows :: table where
  "stamped_rows = UpdateBatchTimestamp 0 5000000000 open_rows"

lemma stamped_rows_reach: "table_reach stamped_rows"
proof -
  have "(case OpenWIPBatch (sample_state_row 1) genesis_rows of Inl _ \<Rightarrow> False | Inr _ \<Rightarrow> True)" by code_simp
  then obtain rows where "OpenWIPBatch (sample_state_row 1) genesis_rows = Inr rows" by (auto split: sum.splits)
  then have "run_statement (DoOpenWIPBatch (sample_state_row 1)) genesis_rows = Inr open_rows" by (simp add: open_rows_def)
  then have "table_reach open_rows" using table_reach.step [OF genesis_rows_reach] by blast
  moreover have "run_statement (DoUpdateBatchTimestamp 0 5000000000) open_rows = Inr stamped_rows" by (simp add: stamped_rows_def)
  ultimately show ?thesis by (rule table_reach.step)
qed

theorem batch_table_invariant_witness:
  "distinct (map sb_BatchNumber stamped_rows) \<and> length stamped_rows = 2 \<and> \<not> sb_WIP (stamped_rows ! 0) \<and>
   \<not> sorted (map (\<lambda>r. unix_of (sb_Timestamp r)) stamped_rows)"
proof -
  have l: "length stamped_rows = 2" "\<not> sorted (map (\<lambda>r. unix_of (sb_Timestamp r)) stamped_rows)" by code_simp+
  have "distinct (map sb_BatchNumber stamped_rows)" "\<forall>i. Suc i < length stamped_rows \<longrightarrow> \<not> sb_WIP (stamped_rows ! i)"
    using batch_table_invariant [OF stamped_rows_reach] by blast+
  then show ?thesis using l by auto
qed

text \<open>
  C5. When the goroutine that processes L2 blocks drains its channel without a reorganisation,
  the blocks were executed one after the other, each on the state root that the one before
  returned, starting from the root of the batch in progress and across batches; every answer
  had one block with the hashes and the time of the block. The last root is the one kept.
\<close>

theorem blocks_chain_state_roots:
  assumes "process_all env bs f = Ret f'" and "\<not> l2BlockReorg f'" and "pipBatch f = Some p"
    and "\<forall>b \<in> set bs. l2_batch b \<noteq> None" and "refs_ok f (insert p (block_refs bs))"
  shows "\<exists>q. pipBatch f' = Some q \<and> root_chain env bs (finalStateRoot (store f p)) (finalStateRoot (store f' q))"
  by (rule process_all_chain [OF assms])

theorem blocks_chain_state_roots_witness:
  "\<exists>f' q. process_all (sample_env False [sample_response]) [sample_l2 [sample_tracker], sample_l2 [sample_tracker]] sample_fin = Ret f' \<and>
     pipBatch f' = Some q \<and> root_chain (sample_env False [sample_response]) [sample_l2 [sample_tracker], sample_l2 [sample_tracker]] 5
       (finalStateRoot (store f' q))"
proof -
  let ?bs = "[sample_l2 [sample_tracker], sample_l2 [sample_tracker]]"
  have "(case process_all (sample_env False [sample_response]) ?bs sample_fin of Ret f' \<Rightarrow> \<not> l2BlockReorg f' | _ \<Rightarrow> False)"
    by code_simp
  then obtain f' where p: "process_all (sample_env False [sample_response]) ?bs sample_fin = Ret f'" "\<not> l2BlockReorg f'"
    by (auto split: outcome.splits)
  have "block_refs ?bs = {0}" by (auto simp: block_refs_def)
  then have "refs_ok sample_fin (insert 0 (block_refs ?bs))" "\<forall>b \<in> set ?bs. l2_batch b \<noteq> None" "pipBatch sample_fin = Some 0"
    by (simp_all add: refs_ok_def)
  note chain = blocks_chain_state_roots [OF p this(3,2,1)]
  have "finalStateRoot (store sample_fin 0) = 5" by simp
  with chain p(1) show ?thesis by metis
qed

text \<open>
  C6. After an L2 block was stored, the data in the row of its batch encode the blocks that were
  there before followed by this block, with the transactions and percentages of the executor's
  answer, and decoding the data gives exactly these blocks. The row has the state root of the answer.
\<close>

theorem stored_block_decodes:
  assumes st: "storeL2Block env f l2 = Ret (f', None)"
    and l2: "l2_batch l2 = Some r" "batchResponse l2 = Some resp" "BlockResponses resp = blk # bs"
    and rlp: "rlp_ok (rlp_enc env) (rlp_dec env)" "chain_ok (chain_id env)"
    and fork: "FORKID_DRAGONFRUIT \<le> GetForkIDByBatchNumber env (batchNumber (store f r))"
    and old: "\<forall>row. open_row f r row \<longrightarrow> block_bytes (rlp_enc env) (chain_id env) blocks = Some (sb_BatchL2Data row)"
    and ok: "list_all block_ok (blocks @ [raw_block l2 blk])"
  shows "\<exists>row. GetBatchByNumber (state_batches f') (batchNumber (store f r)) = Inr row \<and> sb_StateRoot row = NewStateRoot resp \<and>
    block_bytes (rlp_enc env) (chain_id env) (blocks @ [raw_block l2 blk]) = Some (sb_BatchL2Data row) \<and>
    (length (sb_BatchL2Data row) < 2 ^ 63 \<longrightarrow>
       DecodeBatchV2 (rlp_dec env) (sb_BatchL2Data row) = Some (Inr (blocks @ [raw_block l2 blk])))"
proof -
  obtain row txs where row: "open_row f r row"
    "responses_data env (GetForkIDByBatchNumber env (batchNumber (store f r))) (TransactionResponses blk) = Ret (Inr txs)"
    "GetBatchByNumber (state_batches f') (batchNumber (store f r)) = Inr (stored_row row l2 resp blk txs)"
    using storeL2Block_row [OF st] l2 by auto
  have "block_bytes (rlp_enc env) (chain_id env) blocks = Some (sb_BatchL2Data row)" using old row(1) by blast
  note d = stored_row_decodes [OF rlp row(2) fork this ok refl]
  have "sb_StateRoot (stored_row row l2 resp blk txs) = NewStateRoot resp" by (simp add: stored_row_def Let_def)
  then show ?thesis using row(3) d by blast
qed

theorem stored_block_decodes_witness:
  "\<exists>f' row. storeL2Block (sample_env False []) sample_fin answered_block = Ret (f', None) \<and>
     GetBatchByNumber (state_batches f') 1 = Inr row \<and> sb_StateRoot row = 6 \<and>
     block_bytes rlp_list derive_chain_id [answered_raw] = Some (sb_BatchL2Data row)"
proof -
  have "(case storeL2Block (sample_env False []) sample_fin answered_block of Ret (f', err) \<Rightarrow> err = None | _ \<Rightarrow> False)" by code_simp
  then obtain f' where st: "storeL2Block (sample_env False []) sample_fin answered_block = Ret (f', None)"
    by (auto split: outcome.splits)
  define resp where "resp = sample_answer [sample_response] (block_request (sample_env False []) sample_batch (sample_l2 [sample_tracker]) 5 [])"
  define blk where "blk = hd (BlockResponses resp)"
  have l2: "l2_batch answered_block = Some 0" "batchResponse answered_block = Some resp" "BlockResponses resp = blk # []"
    by (simp_all add: answered_block_def resp_def blk_def sample_answer_def)
  have raw: "raw_block answered_block blk = answered_raw"
    by (simp add: answered_raw_def raw_block_def blk_def resp_def sample_answer_def answered_block_def sample_l2_def
      getL1InfoTreeIndex_def sample_entry_def raw_tx_def sample_response_def)
  have ok: "list_all block_ok ([] @ [raw_block answered_block blk])"
    unfolding raw by (simp add: block_ok_def answered_raw_def sample_legacy_def tx_ok_def)
  have o: "\<forall>row. open_row sample_fin 0 row \<longrightarrow>
      block_bytes (rlp_enc (sample_env False [])) (chain_id (sample_env False [])) [] = Some (sb_BatchL2Data row)"
    by (simp add: open_row_def)
  have rlp: "rlp_ok (rlp_enc (sample_env False [])) (rlp_dec (sample_env False []))" "chain_ok (chain_id (sample_env False []))"
    "FORKID_DRAGONFRUIT \<le> GetForkIDByBatchNumber (sample_env False []) (batchNumber (store sample_fin 0))"
    using rlp_list_ok derive_chain_id_ok by (simp_all add: FORKID_DRAGONFRUIT_def)
  have "NewStateRoot resp = 6" by (simp add: resp_def sample_answer_def block_request_def)
  with stored_block_decodes [OF st l2 rlp o ok] st show ?thesis by (auto simp: raw)
qed

section \<open>Forced batches\<close>

text \<open>
  C11. When the queue holds the forced batches that follow the last trusted one without a gap,
  \<open>processForcedBatches\<close> appends a prefix of them to the table in order: consecutive batch
  numbers, each closed with its own data, executed on the state root that the one before left. The queue
  is emptied exactly when all of them were processed; the number and the root returned are those
  of the last row.
\<close>

theorem forced_batches_in_order:
  assumes "processForcedBatches env f n stRoot = Ret (f', n', root')"
    and "in_order (GetLastTrustedForcedBatchNumber (state_batches f) + 1) (nextForcedBatches f)" and "rows_wf (state_batches f)"
  shows "\<exists>k rows. k \<le> length (nextForcedBatches f) \<and> state_batches f' = state_batches f @ rows \<and>
    forced_rows env (take k (nextForcedBatches f)) n stRoot rows root' \<and> n' = n + word_of_nat k \<and> rows_wf (state_batches f') \<and>
    nextForcedBatches f' = (if k = length (nextForcedBatches f) then [] else nextForcedBatches f)"
proof (cases "db_fails env (db_calls f)")
  case None
  let ?g = "f\<lparr>nextForcedBatchDeadline := 0, db_calls := db_calls f + 1\<rparr>"
  have "forced_loop env (nextForcedBatches f) (GetLastTrustedForcedBatchNumber (state_batches f) + 1) n stRoot ?g = Ret (f', n', root')"
    using assms(1) None by (simp add: processForcedBatches_def db_def)
  note rows = forced_loop_rows [OF this assms(2)]
  have g: "state_batches ?g = state_batches f" "nextForcedBatches ?g = nextForcedBatches f" by simp_all
  from rows assms(3) show ?thesis unfolding g by blast
next
  case (Some e)
  then show ?thesis using assms by (intro exI [of _ 0]) (auto simp: processForcedBatches_def db_def)
qed

theorem forced_batches_in_order_witness:
  "\<exists>f' n' root' rows. processForcedBatches (sample_env False [sample_response]) (sample_fin\<lparr>nextForcedBatches := [sample_forced 1, sample_forced 2]\<rparr>) 0 5
       = Ret (f', n', root') \<and> n' = 2 \<and> state_batches f' = genesis_rows @ rows \<and>
     forced_rows (sample_env False [sample_response]) [sample_forced 1, sample_forced 2] 0 5 rows root'"
proof -
  let ?env = "sample_env False [sample_response]"
  let ?f = "sample_fin\<lparr>nextForcedBatches := [sample_forced 1, sample_forced 2]\<rparr>"
  have "(case processForcedBatches ?env ?f 0 5 of Ret (f', n', root') \<Rightarrow> n' = 2 \<and> nextForcedBatches f' = [] | _ \<Rightarrow> False)" by code_simp
  then obtain f' root' where p: "processForcedBatches ?env ?f 0 5 = Ret (f', 2, root')" "nextForcedBatches f' = []"
    by (auto split: outcome.splits)
  have "GetLastTrustedForcedBatchNumber genesis_rows = 0" by code_simp
  then have "in_order (GetLastTrustedForcedBatchNumber (state_batches ?f) + 1) (nextForcedBatches ?f)" by simp
  moreover have "rows_wf (state_batches ?f)" using genesis_rows_wf by simp
  ultimately obtain k rows where k: "state_batches f' = state_batches ?f @ rows"
    "forced_rows ?env (take k (nextForcedBatches ?f)) 0 5 rows root'"
    "nextForcedBatches f' = (if k = length (nextForcedBatches ?f) then [] else nextForcedBatches ?f)"
    using forced_batches_in_order [OF p(1)] by blast
  then have "k = 2" using p(2) by (simp split: if_splits)
  then have "state_batches f' = genesis_rows @ rows" "forced_rows ?env [sample_forced 1, sample_forced 2] 0 5 rows root'"
    using k(1,2) by (simp_all del: forced_rows.simps)
  with p(1) show ?thesis by blast
qed

text \<open>
  C36. When the forced batches in the queue are consecutive but do not start with the next one, every step of
  \<open>processForcedBatches\<close> takes the batch that is next in place of the queued one: it appends the forced batches that
  follow the last trusted one, at most as many as the queue has, and a batch with the number of the last queued one is
  not among them. When all steps succeed, the queue is emptied all the same, so that this batch is lost.
\<close>

theorem forced_batch_after_gap_lost:
  assumes "processForcedBatches env f n stRoot = Ret (f', n', root')" and "nextForcedBatches f \<noteq> []" and "in_order m (nextForcedBatches f)"
    and "GetLastTrustedForcedBatchNumber (state_batches f) + 1 < m" and "unat m + length (nextForcedBatches f) < 2 ^ 64"
    and "\<forall>i x. GetForcedBatch env i = Inr x \<longrightarrow> fb_ForcedBatchNumber x = i" and "rows_wf (state_batches f)"
  shows "\<exists>k rows. k \<le> length (nextForcedBatches f) \<and> state_batches f' = state_batches f @ rows \<and> n' = n + word_of_nat k \<and>
    map sb_ForcedBatchNum rows = map (\<lambda>i. Some (GetLastTrustedForcedBatchNumber (state_batches f) + 1 + word_of_nat i)) [0..<k] \<and>
    (\<forall>r \<in> set rows. sb_ForcedBatchNum r \<noteq> Some (fb_ForcedBatchNumber (last (nextForcedBatches f)))) \<and>
    nextForcedBatches f' = (if k = length (nextForcedBatches f) then [] else nextForcedBatches f)"
proof (cases "db_fails env (db_calls f)")
  case None
  let ?q = "nextForcedBatches f"
  let ?g = "f\<lparr>nextForcedBatchDeadline := 0, db_calls := db_calls f + 1\<rparr>"
  let ?next = "GetLastTrustedForcedBatchNumber (state_batches f) + 1"
  have l: "forced_loop env ?q ?next n stRoot ?g = Ret (f', n', root')"
    using assms(1) None by (simp add: processForcedBatches_def db_def)
  have "\<exists>k rows. k \<le> length ?q \<and> state_batches f' = state_batches ?g @ rows \<and>
      map sb_ForcedBatchNum rows = map (\<lambda>i. Some (?next + word_of_nat i)) [0..<k] \<and> n' = n + word_of_nat k \<and>
      nextForcedBatches f' = (if k = length ?q then [] else nextForcedBatches ?g)"
    by (rule forced_loop_gap [OF l assms(3-5)]) (use assms(6,7) in auto)
  then obtain k rows where k: "k \<le> length ?q" "state_batches f' = state_batches f @ rows"
    "map sb_ForcedBatchNum rows = map (\<lambda>i. Some (?next + word_of_nat i)) [0..<k]" "n' = n + word_of_nat k"
    "nextForcedBatches f' = (if k = length ?q then [] else ?q)" by auto
  have "sb_ForcedBatchNum r \<noteq> Some (fb_ForcedBatchNumber (last ?q))" if r: "r \<in> set rows" for r
  proof -
    have "sb_ForcedBatchNum r \<in> set (map sb_ForcedBatchNum rows)" using r by simp
    then obtain i where "i < k" "sb_ForcedBatchNum r = Some (?next + word_of_nat i)" unfolding k(3) by auto
    then show ?thesis using gap_not_reached [OF assms(3,2,4,5), of i] k(1) by simp
  qed
  then show ?thesis using k by blast
next
  case (Some e)
  then show ?thesis using assms by (intro exI [of _ 0] exI [of _ "[]"]) (auto simp: processForcedBatches_def db_def)
qed

theorem forced_batch_after_gap_lost_witness:
  "\<exists>f' root' rows. processForcedBatches (sample_env False [sample_response]) (sample_fin\<lparr>nextForcedBatches := [sample_forced 2, sample_forced 3]\<rparr>) 0 5
       = Ret (f', 2, root') \<and> state_batches f' = genesis_rows @ rows \<and> (\<forall>r \<in> set rows. sb_ForcedBatchNum r \<noteq> Some 3) \<and>
     nextForcedBatches f' = []"
proof -
  let ?env = "sample_env False [sample_response]"
  let ?f = "sample_fin\<lparr>nextForcedBatches := [sample_forced 2, sample_forced 3]\<rparr>"
  have "(case processForcedBatches ?env ?f 0 5 of Ret (f', n', root') \<Rightarrow> n' = 2 \<and> nextForcedBatches f' = [] | _ \<Rightarrow> False)" by code_simp
  then obtain f' root' where p: "processForcedBatches ?env ?f 0 5 = Ret (f', 2, root')" "nextForcedBatches f' = []"
    by (auto split: outcome.splits)
  have "GetLastTrustedForcedBatchNumber genesis_rows = 0" by code_simp
  then have "in_order 2 (nextForcedBatches ?f)" "GetLastTrustedForcedBatchNumber (state_batches ?f) + 1 < 2"
    "unat (2 :: uint64) + length (nextForcedBatches ?f) < 2 ^ 64" "nextForcedBatches ?f \<noteq> []"
    "\<forall>i x. GetForcedBatch ?env i = Inr x \<longrightarrow> fb_ForcedBatchNumber x = i" "rows_wf (state_batches ?f)"
    using genesis_rows_wf by auto
  from forced_batch_after_gap_lost [OF p(1) this(4,1,2,3,5,6)]
  obtain rows where "state_batches f' = state_batches ?f @ rows"
    "\<forall>r \<in> set rows. sb_ForcedBatchNum r \<noteq> Some (fb_ForcedBatchNumber (last (nextForcedBatches ?f)))" by blast
  with p show ?thesis by auto
qed

end
