(* ===== verification/Spec2Isabelle.thy ===== *)
theory Spec2Isabelle
  imports SequencerSpec L1InfoSpec CodecSpec ErrorsSpec GasPriceSpec FinalizerSpec
begin

text \<open>
  A verification development for the X Layer node, a node of a zkEVM rollup: its sequencer, the
  data formats and the part of the state that the sequencer works on.

  \<^bold>\<open>The program.\<close> Transactions come from the pool to the \<open>Worker\<close>, which keeps one \<open>addrQueue\<close> per sender
  and a list of the ready transactions by gas price. The \<open>finalizer\<close> asks the worker for the best transaction that
  fits in the batch in progress, has the executor process it, and closes L2 blocks and batches. One goroutine executes the
  closed blocks, another one stores them in the table \<open>state.batch\<close>; a closed batch is executed once more as a
  check. Forced batches, which come from L1, go between two batches. A block carries an index into the L1 info tree,
  and the data of a batch are what is later published on L1.

  \<^bold>\<open>Conventions.\<close> A Go struct is a record, an enumeration a datatype, \<open>uint64\<close> a 64-bit word, \<open>big.Int\<close> an \<open>int\<close>, a
  Go map an association list with distinct keys, since ranging over it has an unspecified order. A function that
  may panic returns an option, and in the finalizer an \<open>outcome\<close>: it returns, exits, panics, or is stuck. Services
  (executor, database, clock, pool, L1, RLP, Keccak) are arguments: functions of the number of calls made so
  far, or fields of \<open>fin_env\<close>, so that the theorems hold for every sequence of answers. Logs, metrics and messages
  to the data stream are left out.

  \<^bold>\<open>Shared.\<close> \<open>Prelude\<close> has the Go types, maps, slices and \<open>sort.Search\<close>; \<open>Bytes\<close> has byte strings, hexadecimal
  digits and big-endian numbers.

  \<^bold>\<open>Worker (sequencer/).\<close>
  \<^item> \<open>Counters\<close>: \<open>ZKCounters\<close>, \<open>BatchResources\<close> (\<open>state/types.go\<close>), \<open>BatchConstraintsCfg\<close>
    (\<open>state/config.go\<close>) and \<open>getNeededZKCounters\<close> (\<open>batch.go\<close>). The locale \<open>resource_stock\<close> is the contract of
    \<open>Fits\<close>, \<open>Sub\<close> and \<open>SumUp\<close>, and both kinds of resources keep it.
  \<^item> \<open>TxTracking\<close>: the tracker of a transaction (\<open>txtracker.go\<close>).
  \<^item> \<open>TxSortedList\<close>: the list of ready transactions (\<open>txsorted_list.go\<close>), with its binary searches. The locale \<open>ready_list\<close>
    is what the worker relies on; the list with its map refines insertion by price and removal by hash.
  \<^item> \<open>AddrQueue\<close>, \<open>QueueSpec\<close>: the queue of an address (\<open>addrqueue.go\<close>, \<open>addrqueue_xlayer.go\<close>), the locale \<open>queue_op\<close>
    for what each operation tells the worker, and the outcome of each operation.
  \<^item> \<open>Worker\<close>, \<open>WorkerInv\<close>, \<open>WorkerSteps\<close>, \<open>WorkerMachine\<close>: all methods of \<open>worker.go\<close> and \<open>worker_xlayer.go\<close>, the
    invariant \<open>w_wf\<close> (the sorted list is exactly the set of ready transactions), its preservation, and
    reachability under any sequence of calls.
  \<^item> \<open>BestFit\<close>: \<open>GetBestFittingTx\<close>, whose goroutines are a step relation with one step per access to shared data.
  \<^item> \<open>SequencerSpec\<close>: the properties.

  \<^bold>\<open>Batch data (state/).\<close> \<open>BatchCodec\<close> models \<open>encoding_batch_v2.go\<close> and the transaction part of \<open>helper.go\<close>, \<open>BatchCodecProofs\<close>
  the round trips. RLP is an argument with the laws \<open>rlp_ok\<close>; \<open>Rlp\<close> is a concrete coding that has them. \<open>CodecSpec\<close> has the
  properties, also the inputs on which the decoders panic or report success wrongly.

  \<^bold>\<open>L1 info tree.\<close> \<open>L1InfoTree\<close> models \<open>l1infotree/tree.go\<close> and \<open>hash.go\<close> against the tree \<open>node\<close> over all leaves; \<open>L1InfoState\<close>
  models the cached tree of \<open>state/l1infotree.go\<close> with transactions, rollbacks and resets. \<open>L1InfoSpec\<close> has the properties.

  \<^bold>\<open>Errors and prices.\<close> \<open>ExecutorErrors\<close> has the tables of \<open>state/runtime/executor/errors.go\<close>, both keeping the locale
  \<open>error_codes\<close>, with their properties in \<open>ErrorsSpec\<close>. \<open>EffectiveGasPrice\<close> models \<open>pool/effectivegasprice.go\<close> and
  \<open>state/effectivegasprice.go\<close>, with the rounding of \<open>float64\<close> and \<open>big.Float\<close>; the properties are in \<open>GasPriceSpec\<close>.

  \<^bold>\<open>Finalizer (sequencer/).\<close>
  \<^item> \<open>Batches\<close>: the batch in memory, its limits and closing reasons (\<open>batch.go\<close>, \<open>config.go\<close>).
  \<^item> \<open>StateBatches\<close>: the table \<open>state.batch\<close>, the checks of \<open>state/batch.go\<close> and the statements of
    \<open>state/pgstatestorage/batch.go\<close>. \<open>rows_num\<close> says that numbers are consecutive and only the last row may be open,
    \<open>rows_wf\<close> also that the times do not go back. Every statement keeps the first; only \<open>UpdateBatchTimestamp\<close>, which the
    synchronizer runs, may break the second.
  \<^item> \<open>FinalizerState\<close>: the finalizer, the messages of the executor, the services. The finalizer and its goroutines share batches by
    pointers, so a batch lives in a store.
  \<^item> \<open>TxProcessing\<close>, \<open>TxProcessingProofs\<close>: \<open>processTransaction\<close> and everything it calls (\<open>finalizer.go\<close>).
  \<^item> \<open>L2Blocks\<close>, \<open>L2BlocksProofs\<close>: execution and storing of blocks (\<open>l2block.go\<close>), the check of a batch and the waits for executor and
    synchronizer (\<open>batch.go\<close>, \<open>sequencer.go\<close>).
  \<^item> \<open>ForcedBatches\<close>: \<open>forcedbatch.go\<close>.
  \<^item> \<open>BatchLifecycle\<close>: opening and closing of blocks and batches, the start, the reorganisation and \<open>finalize_step\<close>, one
    iteration of \<open>finalizeBatches\<close>.
  \<^item> \<open>LifecycleFrames\<close>, \<open>LifecycleWaits\<close>, \<open>LifecycleProofs\<close>: the rules for outcomes (\<open>rets\<close>, \<open>ends\<close>), what each operation leaves
    alone, that the waits end when the services make progress, and what closing a batch does.
  \<^item> \<open>FinalizerInvariant\<close>: \<open>finalizer_reach\<close>, the iterations with steps of the two goroutines in between, keeps the
    worker and the table well formed.
  \<^item> \<open>FinalizerSamples\<close>, \<open>FinalizerSpec\<close>: concrete services and states, and the properties.

  \<^bold>\<open>Bounds.\<close> \<open>finalizeWIPBatch\<close>, \<open>closeAndOpenNewWIPBatch\<close>, \<open>openNewWIPL2Block\<close> and \<open>initWIPL2Block\<close> call each other
  and take the depth of calls that is followed: four is enough, as \<open>finalize_batch_ends\<close> shows. \<open>process_loop\<close> takes the number of
  executions: two are enough by \<open>process_loop_ends\<close>. The wait for the executor to store a block and the wait for the
  synchronizer are followed for \<open>patience\<close> rounds, an arbitrary number of the environment; that they end then is the hypothesis
  \<open>services_progress\<close>. The goroutines of \<open>GetBestFittingTx\<close> need no bound: every step makes a number smaller.

  \<^bold>\<open>Ordering.\<close> The calls of the worker are one step each, as they hold its mutex. \<open>AddTxTracker\<close> gives it up once, to
  read a new account; its two critical sections are the definitions \<open>addTx_begin\<close> and \<open>addTx_finish\<close>, run without another call in
  between: the goroutine that loads the pool is the only caller. The channels of L2 blocks are lists. Their goroutines
  run when the finalizer waits for them, and any number of blocks between two iterations. A status written to the pool by a
  goroutine of its own is written at once.

  \<^bold>\<open>Not modelled.\<close> The synchronizer, the aggregator, the sequence sender, the manager of L1 transactions, the RPC server, the pool's
  admission, the gas price suggesters, the Merkle tree client, data availability and L1 access: these are mostly
  input and output; what the sequencer sees of them is an argument of the model. In the sequencer the start-up, the loop that
  loads the pool, the checks of the L1 info tree against L1, the data stream and the metrics are left out.
\<close>

end
